(* ===== verification/Prelude.thy ===== *)
theory Prelude
  imports Main "HOL-Library.Word"
begin

text \<open>
  Shared vocabulary of the development.

  \<^item> \<open>result\<close> is Rust's \<open>Result\<close> with one more value, \<open>Panic\<close>, for an aborted call
    (an \<open>unwrap\<close> of \<open>None\<close>, an index out of range, an arithmetic overflow of a type whose
    operators check it, \<open>unimplemented!\<close>); \<open>and_then\<close> is the \<open>?\<close> operator.
  \<^item> \<open>u64\<close> values are machine words: \<open>+\<close> and \<open>-\<close> wrap, as they do in a release build.
  \<^item> \<open>U256\<close> values are natural numbers with the overflow of the \<open>primitive_types\<close> operators
    written out: \<open>+\<close> and \<open>-\<close> panic, \<open>checked_add\<close> and \<open>checked_sub\<close> return an option.
  \<^item> The named collection \<open>result_simps\<close> carries the proofs about fallible operations and
    \<open>word_order\<close> the transfer of word inequalities to natural numbers.
\<close>

named_theorems result_simps "computation rules of fallible operations"
named_theorems word_order "word comparisons read as comparisons of natural numbers"

section \<open>Results\<close>

datatype ('a, 'e) result = Ok 'a | Err 'e | Panic

fun and_then :: "('a, 'e) result \<Rightarrow> ('a \<Rightarrow> ('b, 'e) result) \<Rightarrow> ('b, 'e) result" where
  "and_then (Ok x) f = f x"
| "and_then (Err e) f = Err e"
| "and_then Panic f = Panic"

definition ok_or :: "'a option \<Rightarrow> 'e \<Rightarrow> ('a, 'e) result" where
  "ok_or x e = (case x of Some a \<Rightarrow> Ok a | None \<Rightarrow> Err e)"

definition unwrap :: "'a option \<Rightarrow> ('a, 'e) result" where
  "unwrap x = (case x of Some a \<Rightarrow> Ok a | None \<Rightarrow> Panic)"

definition ensure :: "bool \<Rightarrow> 'e \<Rightarrow> (unit, 'e) result" where
  "ensure b e = (if b then Ok () else Err e)"

fun is_ok :: "('a, 'e) result \<Rightarrow> bool" where
  "is_ok (Ok _) = True"
| "is_ok (Err _) = False"
| "is_ok Panic = False"

fun map_err :: "('e \<Rightarrow> 'f) \<Rightarrow> ('a, 'e) result \<Rightarrow> ('a, 'f) result" where
  "map_err f (Ok x) = Ok x"
| "map_err f (Err e) = Err (f e)"
| "map_err f Panic = Panic"

fun ok :: "('a, 'e) result \<Rightarrow> 'a option" where
  "ok (Ok x) = Some x"
| "ok (Err _) = None"
| "ok Panic = None"

lemma map_result_eq_Ok: "map_result f g r = Ok y \<longleftrightarrow> (\<exists>x. r = Ok x \<and> y = f x)"
  by (cases r) auto

text \<open>Checked indexing: a slice access out of range panics.\<close>

definition index_at :: "'a list \<Rightarrow> nat \<Rightarrow> ('a, 'e) result" where
  "index_at xs i = (if i < length xs then Ok (xs ! i) else Panic)"

lemma and_then_eq_Ok [result_simps]:
  "and_then r f = Ok y \<longleftrightarrow> (\<exists>x. r = Ok x \<and> f x = Ok y)"
  by (cases r) auto

lemma and_then_assoc:
  "and_then (and_then r f) g = and_then r (\<lambda>x. and_then (f x) g)"
  by (cases r) auto

lemma and_then_Ok_right [simp]: "and_then r Ok = r"
  by (cases r) auto

lemma ok_or_eq_Ok [result_simps]: "ok_or x e = Ok y \<longleftrightarrow> x = Some y"
  by (auto simp: ok_or_def split: option.splits)

lemma unwrap_eq_Ok [result_simps]: "unwrap x = Ok y \<longleftrightarrow> x = Some y"
  by (auto simp: unwrap_def split: option.splits)

lemma ensure_eq_Ok [result_simps]: "ensure b e = Ok u \<longleftrightarrow> b"
  by (auto simp: ensure_def)

lemma index_at_eq_Ok [result_simps]: "index_at xs i = Ok y \<longleftrightarrow> i < length xs \<and> xs ! i = y"
  by (auto simp: index_at_def)

lemma is_ok_iff [result_simps]: "is_ok r \<longleftrightarrow> (\<exists>x. r = Ok x)"
  by (cases r) auto

lemma ok_eq_Some [result_simps]: "ok r = Some x \<longleftrightarrow> r = Ok x"
  by (cases r) auto

lemma map_err_eq_Ok [result_simps]: "map_err f r = Ok x \<longleftrightarrow> r = Ok x"
  by (cases r) auto

lemma ok_or_simps [simp]:
  "ok_or (Some x) e = Ok x"
  "ok_or None e = Err e"
  by (simp_all add: ok_or_def)

lemma unwrap_simps [simp]:
  "unwrap (Some x) = Ok x"
  "unwrap None = Panic"
  by (simp_all add: unwrap_def)

lemma ensure_simps [simp]:
  "ensure True e = Ok ()"
  "ensure False e = Err e"
  by (simp_all add: ensure_def)

section \<open>Machine integers\<close>

type_synonym u64 = "64 word"

lemma u64_less_unat [word_order]: "(a :: u64) < b \<longleftrightarrow> unat a < unat b"
  by (rule word_less_nat_alt)

lemma u64_le_unat [word_order]: "(a :: u64) \<le> b \<longleftrightarrow> unat a \<le> unat b"
  by (rule word_le_nat_alt)

lemma u64_eq_unat [word_order]: "(a :: u64) = b \<longleftrightarrow> unat a = unat b"
  by (rule word_unat_eq_iff)

lemma u64_bounded [simp]: "unat (a :: u64) < 18446744073709551616"
  using unsigned_less [of a] by simp

lemma unat_add_no_overflow:
  "unat (a :: u64) + unat b < 2 ^ 64 \<Longrightarrow> unat (a + b) = unat a + unat b"
  by (simp add: unat_word_ariths)

lemma unat_sub_no_underflow:
  "b \<le> (a :: u64) \<Longrightarrow> unat (a - b) = unat a - unat b"
  by (rule unat_sub)

lemma unat_succ_of_less: "(a :: u64) < b \<Longrightarrow> unat (a + 1) = Suc (unat a)"
  using u64_bounded [of b]
  by (subst unat_add_no_overflow) (simp_all add: u64_less_unat del: u64_bounded)

lemma u64_succ_le_iff: "(a :: u64) < b \<Longrightarrow> a + 1 \<le> b"
  using unat_succ_of_less [of a b] by (simp add: word_order)

lemma unat_pred_of_pos: "(a :: u64) \<noteq> 0 \<Longrightarrow> unat (a - 1) = unat a - 1"
  by (rule unat_minus_one)

section \<open>256-bit amounts\<close>

type_synonym u256 = nat

definition u256_limit :: nat where
  "u256_limit = 2 ^ 256"

lemma u256_limit_pos [simp]: "0 < u256_limit"
  by (simp add: u256_limit_def)

definition u256_add :: "u256 \<Rightarrow> u256 \<Rightarrow> (u256, 'e) result" where
  "u256_add a b = (if a + b < u256_limit then Ok (a + b) else Panic)"

definition u256_sub :: "u256 \<Rightarrow> u256 \<Rightarrow> (u256, 'e) result" where
  "u256_sub a b = (if b \<le> a then Ok (a - b) else Panic)"

definition u256_checked_add :: "u256 \<Rightarrow> u256 \<Rightarrow> u256 option" where
  "u256_checked_add a b = (if a + b < u256_limit then Some (a + b) else None)"

definition u256_checked_sub :: "u256 \<Rightarrow> u256 \<Rightarrow> u256 option" where
  "u256_checked_sub a b = (if b \<le> a then Some (a - b) else None)"

fun u256_sum :: "u256 \<Rightarrow> u256 list \<Rightarrow> (u256, 'e) result" where
  "u256_sum acc [] = Ok acc"
| "u256_sum acc (x # xs) = and_then (u256_add acc x) (\<lambda>s. u256_sum s xs)"

lemma u256_add_eq_Ok [result_simps]: "u256_add a b = Ok c \<longleftrightarrow> c = a + b \<and> a + b < u256_limit"
  by (auto simp: u256_add_def)

lemma u256_sub_eq_Ok [result_simps]: "u256_sub a b = Ok c \<longleftrightarrow> c = a - b \<and> b \<le> a"
  by (auto simp: u256_sub_def)

lemma u256_sum_eq_Ok [result_simps]:
  "acc < u256_limit \<Longrightarrow>
   u256_sum acc xs = Ok s \<longleftrightarrow> s = acc + sum_list xs \<and> acc + sum_list xs < u256_limit"
  by (induction xs arbitrary: acc) (auto simp: result_simps)

section \<open>Lists\<close>

text \<open>Sum of a list after one element has been replaced.\<close>

lemma sum_list_list_update:
  "i < length xs \<Longrightarrow> sum_list (xs[i := v]) + xs ! i = sum_list xs + (v :: nat)"
  by (induction xs arbitrary: i) (auto split: nat.splits simp: add_ac)

lemma nth_le_sum_list: "i < length xs \<Longrightarrow> xs ! i \<le> (sum_list xs :: nat)"
  by (induction xs arbitrary: i) (auto simp: nth_Cons' trans_le_add2)

lemma sum_list_take_le: "sum_list (take k xs) \<le> (sum_list xs :: nat)"
proof -
  have "sum_list xs = sum_list (take k xs) + sum_list (drop k xs)"
    by (metis append_take_drop_id sum_list_append)
  then show ?thesis by simp
qed

section \<open>Sequences of steps\<close>

text \<open>A run of operations; \<open>None\<close> is a run that panics.\<close>

fun run_steps :: "('op \<Rightarrow> 's \<Rightarrow> 's option) \<Rightarrow> 'op list \<Rightarrow> 's \<Rightarrow> 's option" where
  "run_steps step [] s = Some s"
| "run_steps step (a # as) s = (case step a s of None \<Rightarrow> None | Some s' \<Rightarrow> run_steps step as s')"

text \<open>The contract of operations that share an invariant.\<close>

locale step_invariant =
  fixes step :: "'op \<Rightarrow> 's \<Rightarrow> 's option" and inv :: "'s \<Rightarrow> bool"
  assumes step_inv: "inv s \<Longrightarrow> step a s = Some s' \<Longrightarrow> inv s'"
begin

lemma run_inv: "inv s \<Longrightarrow> run_steps step as s = Some s' \<Longrightarrow> inv s'"
  by (induction as arbitrary: s) (auto split: option.splits dest: step_inv)

end

text \<open>The contract of operations that only move forward in an order.\<close>

locale step_monotone =
  fixes step :: "'op \<Rightarrow> 's \<Rightarrow> 's option" and le :: "'s \<Rightarrow> 's \<Rightarrow> bool"
  assumes le_refl: "le s s" and le_trans: "le s t \<Longrightarrow> le t u \<Longrightarrow> le s u"
    and step_le: "step a s = Some s' \<Longrightarrow> le s s'"
begin

lemma run_le: "run_steps step as s = Some s' \<Longrightarrow> le s s'"
proof (induction as arbitrary: s)
  case (Cons a as)
  then obtain t where "step a s = Some t" "run_steps step as t = Some s'" by (auto split: option.splits)
  then show ?case using Cons.IH step_le le_trans by blast
qed (simp add: le_refl)

end

end
