(* ===== verification/Epochs.thy ===== *)
theory Epochs
  imports Prelude
begin

text \<open>
  Epoch arithmetic: \<open>crates/types/src/utils.rs\<close>, lines 248 to 338.  Blocks are numbered by a
  \<open>u64\<close>; block 0 is the genesis block of epoch 0, and for a positive epoch height \<open>h\<close> epoch
  \<open>e\<close> holds the blocks \<open>(e - 1) * h + 1\<close> to \<open>e * h\<close>.  The lemmas show that the functions
  compute this partition exactly, without overflow, and that the epoch root is the third block
  from the end.
\<close>

section \<open>Operations\<close>

definition epoch_from_block_number :: "u64 \<Rightarrow> u64 \<Rightarrow> u64" where
  "epoch_from_block_number block_number epoch_height =
     (if epoch_height = 0 then 0
      else if block_number mod epoch_height = 0 then block_number div epoch_height
      else block_number div epoch_height + 1)"

definition root_block_in_epoch :: "u64 \<Rightarrow> u64 \<Rightarrow> u64" where
  "root_block_in_epoch epoch epoch_height =
     (if epoch_height = 0 \<or> epoch < 1 then 0 else epoch_height * epoch - 2)"

definition option_epoch_from_block_number :: "bool \<Rightarrow> u64 \<Rightarrow> u64 \<Rightarrow> u64 option" where
  "option_epoch_from_block_number with_epoch block_number epoch_height =
     (if with_epoch then
        (if epoch_height = 0 then None
         else if block_number mod epoch_height = 0 then Some (block_number div epoch_height)
         else Some (block_number div epoch_height + 1))
      else None)"

datatype EpochTransitionIndicator = InTransition | NotInTransition

definition is_last_block_in_epoch :: "u64 \<Rightarrow> u64 \<Rightarrow> bool" where
  "is_last_block_in_epoch block_number epoch_height =
     (if block_number = 0 \<or> epoch_height = 0 then False
      else block_number mod epoch_height = 0)"

definition is_epoch_root :: "u64 \<Rightarrow> u64 \<Rightarrow> bool" where
  "is_epoch_root block_number epoch_height =
     (if block_number = 0 \<or> epoch_height = 0 then False
      else (block_number + 2) mod epoch_height = 0)"

section \<open>Arithmetic of rounding up\<close>

lemma u64_mod_zero_unat: "(n :: u64) mod h = 0 \<longleftrightarrow> unat n mod unat h = 0"
  by (simp add: word_unat_eq_iff unat_mod_distrib)

lemma ceiling_div_bounds:
  fixes n h :: nat
  assumes "0 < h" and "0 < n"
  defines "e \<equiv> (if n mod h = 0 then n div h else n div h + 1)"
  shows "(e - 1) * h < n" and "n \<le> e * h" and "0 < e" and "e \<le> n"
proof -
  have split: "n = n div h * h + n mod h" by simp
  have rem: "n mod h < h" using assms by simp
  have pos: "0 < n div h" if "n mod h = 0" using that assms split by (metis add_0 mult_0 not_gr_zero)
  show "0 < e" using pos by (simp add: e_def)
  have "n \<le> n div h * h + h" using split rem by linarith
  then show "n \<le> e * h" by (auto simp: e_def)
  show low: "(e - 1) * h < n"
  proof (cases "n mod h = 0")
    case True
    then have "(n div h - 1) * h < n div h * h" using pos assms by simp
    also have "\<dots> = n" using True by auto
    finally show ?thesis by (simp add: e_def True)
  next
    case False
    then have "n div h * h < n" using split by linarith
    then show ?thesis using False by (simp add: e_def)
  qed
  have "e - 1 \<le> (e - 1) * h" using assms by simp
  with low show "e \<le> n" by linarith
qed

lemma ceiling_div_unique:
  fixes n h e e' :: nat
  assumes "(e - 1) * h < n" "n \<le> e * h" "(e' - 1) * h < n" "n \<le> e' * h"
  shows "e = e'"
proof -
  have "e - 1 < e'" using assms(1,4) by (metis mult_le_mono1 not_le order.strict_trans1)
  moreover have "e' - 1 < e" using assms(2,3) by (metis mult_le_mono1 not_le order.strict_trans1)
  ultimately show ?thesis by linarith
qed

lemma unat_epoch_from_block_number:
  assumes "h \<noteq> 0"
  shows "unat (epoch_from_block_number n h) =
    (if unat n mod unat h = 0 then unat n div unat h else unat n div unat h + 1)"
proof (cases "unat n mod unat h = 0")
  case True
  then show ?thesis
    using assms by (simp add: epoch_from_block_number_def u64_mod_zero_unat unat_div_distrib)
next
  case False
  then have "0 < unat n" and "0 < unat h" using assms by (auto simp: unat_eq_zero intro: gr0I)
  from ceiling_div_bounds(4) [OF this(2,1)] False
  have "unat n div unat h + 1 \<le> unat n" by simp
  then have "unat (n div h) + unat (1 :: u64) < 2 ^ 64"
    using u64_bounded [of n] by (simp add: unat_div_distrib del: u64_bounded)
  then have "unat (n div h + 1) = unat n div unat h + 1"
    by (subst unat_add_no_overflow) (simp_all add: unat_div_distrib)
  then show ?thesis
    using assms False by (simp add: epoch_from_block_number_def u64_mod_zero_unat)
qed

lemma unat_pos_u64: "(h :: u64) \<noteq> 0 \<Longrightarrow> 0 < unat h"
  by (simp add: unat_gt_0)

lemma epoch_interval:
  assumes "h \<noteq> 0" and "n \<noteq> 0"
  shows "(unat (epoch_from_block_number n h) - 1) * unat h < unat n"
    and "unat n \<le> unat (epoch_from_block_number n h) * unat h"
    and "0 < unat (epoch_from_block_number n h)"
  using ceiling_div_bounds [OF unat_pos_u64 [OF assms(1)] unat_pos_u64 [OF assms(2)]]
    unat_epoch_from_block_number [OF assms(1), of n] by simp_all

section \<open>Properties\<close>

text \<open>
  C39. Epochs partition the chain.  For a positive epoch height the function
  \<open>epoch_from_block_number\<close> returns the one epoch \<open>e\<close> with \<open>(e - 1) * h < n \<le> e * h\<close>, with no
  overflow in the increment.
\<close>
theorem epoch_from_block_number_partition:
  assumes "h \<noteq> 0" and "n \<noteq> 0"
  shows "epoch_from_block_number n h = e \<longleftrightarrow>
         (unat e - 1) * unat h < unat n \<and> unat n \<le> unat e * unat h"
proof
  assume "epoch_from_block_number n h = e"
  then show "(unat e - 1) * unat h < unat n \<and> unat n \<le> unat e * unat h"
    using epoch_interval [OF assms] by auto
next
  assume "(unat e - 1) * unat h < unat n \<and> unat n \<le> unat e * unat h"
  then have "unat (epoch_from_block_number n h) = unat e"
    using epoch_interval [OF assms] by (auto intro: ceiling_div_unique)
  then show "epoch_from_block_number n h = e" by (simp add: word_unat_eq_iff)
qed

theorem epoch_from_block_number_partition_witness:
  "epoch_from_block_number 21 10 = 3 \<longleftrightarrow>
   (unat (3 :: u64) - 1) * unat (10 :: u64) < unat (21 :: u64) \<and> unat (21 :: u64) \<le> unat (3 :: u64) * unat (10 :: u64)"
  by (rule epoch_from_block_number_partition) simp_all

text \<open>
  The last block of an epoch is where the epoch number changes: for a block below the
  largest \<open>u64\<close>, \<open>is_last_block_in_epoch\<close> holds exactly when the next block is in the next
  epoch, and otherwise the next block is in the same epoch.
\<close>
theorem is_last_block_in_epoch_boundary:
  assumes "h \<noteq> 0" and "n \<noteq> 0" and "n < n + 1"
  shows "unat (epoch_from_block_number (n + 1) h) =
    unat (epoch_from_block_number n h) + (if is_last_block_in_epoch n h then 1 else 0)"
proof -
  let ?n = "unat n" and ?h = "unat h" and ?e = "unat (epoch_from_block_number n h)"
  have h: "0 < ?h" using assms(1) by (rule unat_pos_u64)
  have suc: "unat (n + 1) = Suc ?n"
    using assms(3) by (rule unat_succ_of_less)
  have ne: "n + 1 \<noteq> 0" using assms(3) by auto
  let ?e' = "unat (epoch_from_block_number (n + 1) h)"
  note i = epoch_interval [OF assms(1,2)] and i' = epoch_interval [OF assms(1) ne]
  have "?e' = (if ?n mod ?h = 0 then ?e + 1 else ?e)"
  proof (cases "?n mod ?h = 0")
    case True
    then have "?e * ?h = ?n" using unat_epoch_from_block_number [OF assms(1), of n] by auto
    then have "(?e + 1 - 1) * ?h < Suc ?n" "Suc ?n \<le> (?e + 1) * ?h" using h by auto
    then have "?e' = ?e + 1"
      using i' by (intro ceiling_div_unique [where h = ?h and n = "Suc ?n"]) (simp_all add: suc)
    then show ?thesis using True by simp
  next
    case False
    then have "?n \<noteq> ?e * ?h" by auto
    then have "(?e - 1) * ?h < Suc ?n" "Suc ?n \<le> ?e * ?h" using i by auto
    then have "?e' = ?e"
      using i' by (intro ceiling_div_unique [where h = ?h and n = "Suc ?n"]) (simp_all add: suc)
    then show ?thesis using False by simp
  qed
  then show ?thesis
    using assms by (simp add: is_last_block_in_epoch_def u64_mod_zero_unat)
qed

theorem is_last_block_in_epoch_boundary_witness:
  "unat (epoch_from_block_number (10 + 1) 10) =
     unat (epoch_from_block_number 10 10) + (if is_last_block_in_epoch 10 10 then 1 else 0)"
  by (rule is_last_block_in_epoch_boundary) simp_all

text \<open>
  Round trip of epoch roots.  With an epoch height of at least 3 and \<open>e * h\<close> in range,
  \<open>root_block_in_epoch e h\<close> is an epoch root, belongs to epoch \<open>e\<close>, and is the third block from
  the end: two blocks later the epoch ends.
\<close>
theorem root_block_in_epoch_is_root:
  assumes "3 \<le> h" and "1 \<le> e" and "unat h * unat e < 2 ^ 64"
  shows "is_epoch_root (root_block_in_epoch e h) h \<and>
         epoch_from_block_number (root_block_in_epoch e h) h = e \<and>
         is_last_block_in_epoch (root_block_in_epoch e h + 2) h"
proof (intro conjI)
  have h: "3 \<le> unat h" using assms(1) by (simp add: word_order)
  have e: "1 \<le> unat e" using assms(2) by (simp add: word_order)
  have h0: "h \<noteq> 0" using h by auto
  have mul: "unat (h * e) = unat h * unat e"
    using assms(3) by (simp add: unat_word_ariths)
  have big: "3 \<le> unat h * unat e"
    using mult_le_mono [OF h e] by simp
  let ?r = "root_block_in_epoch e h"
  have r: "?r = h * e - 2"
    using h0 assms(2) by (auto simp: root_block_in_epoch_def word_order)
  have ur: "unat ?r = unat h * unat e - 2"
    using big by (simp add: r unat_sub_no_underflow word_order mul)
  have r0: "?r \<noteq> 0" using ur big by auto
  have r2: "?r + 2 = h * e" by (simp add: r)
  have dvd: "(h * e) mod h = 0" by (simp add: u64_mod_zero_unat mul)
  show "is_epoch_root ?r h" using r0 h0 r2 dvd by (simp add: is_epoch_root_def)
  have "h * e \<noteq> 0" using mul big by auto
  then show "is_last_block_in_epoch (?r + 2) h" using r2 h0 dvd by (simp add: is_last_block_in_epoch_def)
  have "(unat e - 1) * unat h < unat ?r"
  proof -
    have "(unat e - 1) * unat h + unat h = unat h * unat e"
      using e by (simp add: algebra_simps mult_eq_if)
    then show ?thesis using h ur by linarith
  qed
  moreover have "unat ?r \<le> unat e * unat h" using ur by (simp add: mult.commute)
  moreover note epoch_interval [OF h0 r0]
  ultimately have "unat (epoch_from_block_number ?r h) = unat e"
    by (auto intro: ceiling_div_unique)
  then show "epoch_from_block_number ?r h = e" by (simp add: word_unat_eq_iff)
qed

theorem root_block_in_epoch_is_root_witness:
  "is_epoch_root (root_block_in_epoch 3 10) 10 \<and>
   epoch_from_block_number (root_block_in_epoch 3 10) 10 = 3 \<and>
   is_last_block_in_epoch (root_block_in_epoch 3 10 + 2) 10"
  by (rule root_block_in_epoch_is_root) (simp_all add: word_order)

end
