(* ===== verification/StakeTable.thy ===== *)
theory StakeTable
  imports Prelude
begin

text \<open>
  The stake table interface, \<open>crates/types/src/traits/stake_table.rs\<close>: snapshot versions,
  errors, and the default batch operations, which are generic over \<open>register\<close>, \<open>deregister\<close> and
  \<open>update\<close> as the trait's defaults are.  An operation with \<open>&mut self\<close> takes the table and
  returns the new one; an \<open>Err\<close> leaves the table as it was.

  The locale \<open>stake_table_scheme\<close> is the contract of an implementation.  Its lemmas follow a
  table through any sequence of operations and show that the snapshots used for voting and
  leader election are isolated from later changes of the head.
\<close>

section \<open>Versions, errors and batch operations\<close>

datatype SnapshotVersion = Head | EpochStart | LastEpochStart | BlockNum u64

datatype StakeTableError =
    RescueError
  | MismatchedKey
  | KeyNotFound
  | ExistingKey
  | MalformedProof
  | VerificationError
  | InsufficientFund
  | StakeOverflow
  | SnapshotUnsupported

text \<open>
  \<open>try_for_each\<close> stops at the first error; the result of the iteration is discarded, so the
  batch returns \<open>Ok\<close> with the operations before the failing one applied.
\<close>

fun batch_register ::
  "('k \<Rightarrow> u256 \<Rightarrow> 'x \<Rightarrow> 's \<Rightarrow> ('s, StakeTableError) result) \<Rightarrow>
   'k list \<Rightarrow> u256 list \<Rightarrow> 'x list \<Rightarrow> 's \<Rightarrow> ('s, StakeTableError) result" where
  "batch_register reg (k # ks) (a # as) (x # xs) s =
     (case reg k a x s of
        Ok s' \<Rightarrow> batch_register reg ks as xs s'
      | Err _ \<Rightarrow> Ok s
      | Panic \<Rightarrow> Panic)"
| "batch_register reg _ _ _ s = Ok s"

fun batch_deregister ::
  "('k \<Rightarrow> 's \<Rightarrow> ('s, StakeTableError) result) \<Rightarrow> 'k list \<Rightarrow> 's \<Rightarrow> ('s, StakeTableError) result" where
  "batch_deregister dereg (k # ks) s =
     (case dereg k s of
        Ok s' \<Rightarrow> batch_deregister dereg ks s'
      | Err _ \<Rightarrow> Ok s
      | Panic \<Rightarrow> Panic)"
| "batch_deregister dereg [] s = Ok s"

text \<open>The updates applied before a failing one stay applied; the error is returned.\<close>

fun batch_update ::
  "('k \<Rightarrow> u256 \<Rightarrow> bool \<Rightarrow> 's \<Rightarrow> ('s \<times> u256, StakeTableError) result) \<Rightarrow>
   'k list \<Rightarrow> u256 list \<Rightarrow> bool list \<Rightarrow> 's \<Rightarrow> 's \<times> (u256 list, StakeTableError) result" where
  "batch_update upd (k # ks) (a # as) (n # ns) s =
     (case upd k a n s of
        Ok (s', v) \<Rightarrow>
          (case batch_update upd ks as ns s' of
             (s'', r) \<Rightarrow> (s'', and_then r (\<lambda>vs. Ok (v # vs))))
      | Err e \<Rightarrow> (s, Err e)
      | Panic \<Rightarrow> (s, Panic))"
| "batch_update upd _ _ _ s = (s, Ok [])"

section \<open>Sequences of operations\<close>

datatype ('k, 'x) stake_op =
    Register 'k u256 'x
  | Update 'k u256 bool
  | SetValue 'k u256
  | Advance

fun step_op ::
  "('k \<Rightarrow> u256 \<Rightarrow> 'x \<Rightarrow> 's \<Rightarrow> ('s, StakeTableError) result) \<Rightarrow>
   ('k \<Rightarrow> u256 \<Rightarrow> bool \<Rightarrow> 's \<Rightarrow> ('s \<times> u256, StakeTableError) result) \<Rightarrow>
   ('k \<Rightarrow> u256 \<Rightarrow> 's \<Rightarrow> ('s \<times> u256, StakeTableError) result) \<Rightarrow>
   ('s \<Rightarrow> ('s, StakeTableError) result) \<Rightarrow>
   ('k, 'x) stake_op \<Rightarrow> 's \<Rightarrow> ('s, StakeTableError) result" where
  "step_op reg upd setv adv (Register k a x) s = reg k a x s"
| "step_op reg upd setv adv (Update k d n) s = and_then (upd k d n s) (\<lambda>(s', _). Ok s')"
| "step_op reg upd setv adv (SetValue k v) s = and_then (setv k v s) (\<lambda>(s', _). Ok s')"
| "step_op reg upd setv adv Advance s = adv s"

text \<open>A failed operation leaves the table unchanged and the run goes on; a panic ends it.\<close>

fun run_ops ::
  "(('k, 'x) stake_op \<Rightarrow> 's \<Rightarrow> ('s, StakeTableError) result) \<Rightarrow>
   ('k, 'x) stake_op list \<Rightarrow> 's \<Rightarrow> ('s, StakeTableError) result" where
  "run_ops stp [] s = Ok s"
| "run_ops stp (op # ops) s =
     (case stp op s of
        Ok s' \<Rightarrow> run_ops stp ops s'
      | Err _ \<Rightarrow> run_ops stp ops s
      | Panic \<Rightarrow> Panic)"

lemma run_ops_append:
  "run_ops stp (xs @ ys) s = and_then (run_ops stp xs s) (run_ops stp ys)"
  by (induction stp xs s rule: run_ops.induct) (auto split: result.splits)

section \<open>The contract of an implementation\<close>

locale stake_table_scheme =
  fixes valid :: "'s \<Rightarrow> bool"
    and lookup :: "'s \<Rightarrow> SnapshotVersion \<Rightarrow> 'k \<Rightarrow> (u256, StakeTableError) result"
    and total :: "'s \<Rightarrow> SnapshotVersion \<Rightarrow> (u256, StakeTableError) result"
    and reg :: "'k \<Rightarrow> u256 \<Rightarrow> 'x \<Rightarrow> 's \<Rightarrow> ('s, StakeTableError) result"
    and upd :: "'k \<Rightarrow> u256 \<Rightarrow> bool \<Rightarrow> 's \<Rightarrow> ('s \<times> u256, StakeTableError) result"
    and setv :: "'k \<Rightarrow> u256 \<Rightarrow> 's \<Rightarrow> ('s \<times> u256, StakeTableError) result"
    and adv :: "'s \<Rightarrow> ('s, StakeTableError) result"
  assumes valid_reg: "valid s \<Longrightarrow> reg k a x s = Ok s' \<Longrightarrow> valid s'"
    and valid_upd: "valid s \<Longrightarrow> upd k d n s = Ok (s', v) \<Longrightarrow> valid s'"
    and valid_setv: "valid s \<Longrightarrow> setv k a s = Ok (s', v) \<Longrightarrow> valid s'"
    and valid_adv: "valid s \<Longrightarrow> adv s = Ok s' \<Longrightarrow> valid s'"
    and fresh_reg: "valid s \<Longrightarrow> reg k a x s = Ok s' \<Longrightarrow> lookup s Head k = Err KeyNotFound"
    and head_reg: "valid s \<Longrightarrow> reg k a x s = Ok s' \<Longrightarrow>
          lookup s' Head j = (if j = k then Ok a else lookup s Head j)"
    and head_upd: "valid s \<Longrightarrow> upd k d n s = Ok (s', v) \<Longrightarrow>
          lookup s' Head j = (if j = k then Ok v else lookup s Head j)"
    and amount_upd: "valid s \<Longrightarrow> upd k d n s = Ok (s', v) \<Longrightarrow>
          \<exists>old. lookup s Head k = Ok old \<and> (if n then d \<le> old \<and> v = old - d else v = old + d)"
    and head_setv: "valid s \<Longrightarrow> setv k a s = Ok (s', old) \<Longrightarrow>
          lookup s Head k = Ok old \<and> lookup s' Head j = (if j = k then Ok a else lookup s Head j)"
    and snap_reg: "valid s \<Longrightarrow> reg k a x s = Ok s' \<Longrightarrow> ver \<noteq> Head \<Longrightarrow>
          lookup s' ver j = lookup s ver j \<and> total s' ver = total s ver"
    and snap_upd: "valid s \<Longrightarrow> upd k d n s = Ok (s', v) \<Longrightarrow> ver \<noteq> Head \<Longrightarrow>
          lookup s' ver j = lookup s ver j \<and> total s' ver = total s ver"
    and snap_setv: "valid s \<Longrightarrow> setv k a s = Ok (s', v) \<Longrightarrow> ver \<noteq> Head \<Longrightarrow>
          lookup s' ver j = lookup s ver j \<and> total s' ver = total s ver"
    and shift_adv: "valid s \<Longrightarrow> adv s = Ok s' \<Longrightarrow>
          lookup s' LastEpochStart j = lookup s EpochStart j \<and> lookup s' EpochStart j = lookup s Head j \<and>
          lookup s' Head j = lookup s Head j"
    and shift_total_adv: "valid s \<Longrightarrow> adv s = Ok s' \<Longrightarrow>
          total s' LastEpochStart = total s EpochStart \<and> total s' EpochStart = total s Head \<and>
          total s' Head = total s Head"
    and adv_no_err: "adv s \<noteq> Err e"
begin

abbreviation step where
  "step \<equiv> step_op reg upd setv adv"

lemma valid_step: "valid s \<Longrightarrow> step op s = Ok s' \<Longrightarrow> valid s'"
  by (cases op) (auto simp: result_simps intro: valid_reg valid_upd valid_setv valid_adv)

lemma valid_run: "valid s \<Longrightarrow> run_ops step ops s = Ok s' \<Longrightarrow> valid s'"
proof (induction ops arbitrary: s)
  case (Cons op ops)
  then show ?case by (cases "step op s") (auto dest: valid_step)
qed simp

lemma step_keeps_snapshots:
  assumes "valid s" and "step op s = Ok s'" and "op \<noteq> Advance" and "ver \<noteq> Head"
  shows "lookup s' ver j = lookup s ver j \<and> total s' ver = total s ver"
  using assms by (cases op) (auto simp: result_simps dest: snap_reg snap_upd snap_setv)

lemma run_keeps_snapshots:
  assumes "valid s" and "run_ops step ops s = Ok s'" and "Advance \<notin> set ops" and "ver \<noteq> Head"
  shows "lookup s' ver j = lookup s ver j \<and> total s' ver = total s ver"
  using assms
proof (induction ops arbitrary: s)
  case (Cons op ops)
  show ?case
  proof (cases "step op s")
    case (Ok t)
    with Cons have "valid t" "lookup t ver j = lookup s ver j \<and> total t ver = total s ver"
      using valid_step step_keeps_snapshots [of s op t ver j] by auto
    with Cons Ok show ?thesis by auto
  qed (use Cons in auto)
qed simp

text \<open>
  Two epoch changes after a point in a run, the table used for leader election is the head of
  the table at that point, whatever was registered, updated or set since.
\<close>

lemma election_table_isolated:
  assumes s: "valid s" and r0: "run_ops step ops0 s = Ok s0"
    and run: "run_ops step (ops0 @ Advance # ops1 @ Advance # ops2) s = Ok s'"
    and noadv: "Advance \<notin> set ops1" "Advance \<notin> set ops2"
  shows "lookup s' LastEpochStart j = lookup s0 Head j \<and> total s' LastEpochStart = total s0 Head"
proof -
  have v0: "valid s0" using valid_run [OF s r0] .
  obtain s1 where s1: "adv s0 = Ok s1"
    using run r0 adv_no_err [of s0] by (cases "adv s0") (auto simp: run_ops_append)
  have v1: "valid s1" using valid_adv [OF v0 s1] .
  have "run_ops step (ops1 @ Advance # ops2) s1 = Ok s'"
    using run r0 s1 by (simp add: run_ops_append)
  then obtain s2 where s2: "run_ops step ops1 s1 = Ok s2" and rest: "run_ops step (Advance # ops2) s2 = Ok s'"
    by (auto simp: run_ops_append result_simps)
  have v2: "valid s2" using valid_run [OF v1 s2] .
  obtain s3 where s3: "adv s2 = Ok s3"
    using rest adv_no_err [of s2] by (cases "adv s2") auto
  have v3: "valid s3" using valid_adv [OF v2 s3] .
  have fin: "run_ops step ops2 s3 = Ok s'" using rest s3 by simp
  show ?thesis
    using run_keeps_snapshots [OF v3 fin noadv(2), of LastEpochStart j]
      run_keeps_snapshots [OF v1 s2 noadv(1), of EpochStart j]
      shift_adv [OF v0 s1, of j] shift_adv [OF v2 s3, of j]
      shift_total_adv [OF v0 s1] shift_total_adv [OF v2 s3]
    by simp
qed

lemma batch_register_keeps_others:
  assumes "valid s" and "batch_register reg ks as xs s = Ok s'" and "lookup s Head j = Ok v"
  shows "valid s' \<and> lookup s' Head j = Ok v"
  using assms
proof (induction ks arbitrary: as xs s)
  case (Cons k ks)
  show ?case
  proof (cases "\<exists>a as' x xs'. as = a # as' \<and> xs = x # xs'")
    case True
    then obtain a as' x xs' where eq: "as = a # as'" "xs = x # xs'" by blast
    show ?thesis
    proof (cases "reg k a x s")
      case (Ok t)
      have "valid t" using valid_reg Cons.prems(1) Ok by blast
      moreover have "lookup t Head j = Ok v"
        using head_reg [OF Cons.prems(1) Ok, of j] fresh_reg [OF Cons.prems(1) Ok] Cons.prems(3) by auto
      ultimately show ?thesis using Cons Ok eq by simp
    qed (use Cons eq in auto)
  next
    case False
    then have "batch_register reg (k # ks) as xs s = Ok s" by (cases as; cases xs) auto
    then show ?thesis using Cons.prems by simp
  qed
qed simp

end

section \<open>Properties\<close>

text \<open>
  \<open>batch_register\<close> never reports a failed registration: for every implementation of
  \<open>register\<close> it returns \<open>Ok\<close> (or panics with it), and a batch whose first key cannot be
  registered returns \<open>Ok\<close> with the table unchanged.
\<close>
theorem batch_register_hides_errors:
  "batch_register reg ks as xs s \<noteq> Err e \<and>
   (reg k a x s = Err e' \<longrightarrow> batch_register reg (k # ks) (a # as) (x # xs) s = Ok s)"
  by (induction reg ks as xs s rule: batch_register.induct) (auto split: result.splits)

theorem batch_register_hides_errors_witness:
  "batch_register (\<lambda>k a x s. Err ExistingKey) [2] [20] [()] (0 :: nat) \<noteq> Err RescueError \<and>
   batch_register (\<lambda>k a x s. Err ExistingKey) (1 # [2]) (10 # [20]) (() # [()]) (0 :: nat) = Ok 0"
  using batch_register_hides_errors
    [of "\<lambda>k a x s. Err ExistingKey" "[2 :: nat]" "[20]" "[()]" 0 RescueError 1 10 "()" ExistingKey]
  by simp

end
