(* ===== verification/VecTable.thy ===== *)
theory VecTable
  imports StakeTable "HOL-Library.Sublist" "HOL-Library.Countable"
begin

text \<open>
  The vector based stake table, \<open>crates/hotshot-stake-table/src/vec_based.rs\<close>.  The key types,
  the field and the Rescue hash come from other crates; \<open>vec_env\<close> holds the operations of
  them the table calls.  \<open>vec_inv\<close> is the invariant of the table: aligned columns, a mapping
  that is the index of the key column, totals that are the sums of the amount columns, and
  snapshots whose key columns are prefixes of the head's.  Every operation keeps it, and the
  table implements the contract of \<open>StakeTable\<close>.
\<close>

section \<open>State\<close>

record ('k1, 'k2) StakeTableSnapshot =
  bls_keys :: "'k1 list"
  schnorr_keys :: "'k2 list"
  stake_amount :: "u256 list"

definition snapshot_default :: "('k1, 'k2) StakeTableSnapshot" where
  "snapshot_default = \<lparr>bls_keys = [], schnorr_keys = [], stake_amount = []\<rparr>"

record ('k1, 'k2, 'f) vec_table =
  capacity :: nat
  head :: "('k1, 'k2) StakeTableSnapshot"
  epoch_start :: "('k1, 'k2) StakeTableSnapshot"
  last_epoch_start :: "('k1, 'k2) StakeTableSnapshot"
  head_total_stake :: u256
  epoch_start_total_stake :: u256
  last_epoch_start_total_stake :: u256
  epoch_start_comm :: "'f \<times> 'f \<times> 'f"
  last_epoch_start_comm :: "'f \<times> 'f \<times> 'f"
  bls_mapping :: "('k1 \<times> nat) list"

text \<open>Operations of the key types, the field and the hash function.\<close>

record ('k1, 'k2, 'f) vec_env =
  K1_to_fields :: "'k1 \<Rightarrow> 'f list"
  K1_SIZE :: nat
  K2_to_fields :: "'k2 \<Rightarrow> 'f list"
  K2_SIZE :: nat
  K2_default :: 'k2
  F_default :: 'f
  from_le_bytes_mod_order :: "nat list \<Rightarrow> 'f"
  rescue_evaluate :: "'f list \<Rightarrow> 'f option"

text \<open>The little-endian bytes of a number.\<close>

fun to_little_endian :: "nat \<Rightarrow> nat \<Rightarrow> nat list" where
  "to_little_endian 0 v = []"
| "to_little_endian (Suc n) v = (v mod 256) # to_little_endian n (v div 256)"

lemma to_little_endian_numeral [simp]:
  "to_little_endian (numeral n) v = (v mod 256) # to_little_endian (pred_numeral n) (v div 256)"
  by (simp add: numeral_eq_Suc [of n])

definition u256_to_field :: "(nat list \<Rightarrow> 'f) \<Rightarrow> u256 \<Rightarrow> 'f" where
  "u256_to_field from_le v = from_le (to_little_endian 32 v)"

text \<open>\<open>Vec::resize\<close>: truncate or pad with copies of a value.\<close>

definition resize :: "nat \<Rightarrow> 'a \<Rightarrow> 'a list \<Rightarrow> 'a list" where
  "resize n d xs = take n xs @ replicate (n - length xs) d"

section \<open>Operations\<close>

definition vec_new :: "('k1, 'k2, 'f) vec_env \<Rightarrow> nat \<Rightarrow> (('k1, 'k2, 'f) vec_table, StakeTableError) result" where
  "vec_new env cap =
     and_then (unwrap (rescue_evaluate env (replicate (cap * K1_SIZE env) (F_default env)))) (\<lambda>default_bls_comm.
     and_then (unwrap (rescue_evaluate env (replicate (cap * K2_SIZE env) (F_default env)))) (\<lambda>default_schnorr_comm.
     and_then (unwrap (rescue_evaluate env (replicate cap (F_default env)))) (\<lambda>default_stake_comm.
     Ok \<lparr>capacity = cap,
         head = snapshot_default,
         epoch_start = snapshot_default,
         last_epoch_start = snapshot_default,
         head_total_stake = 0,
         epoch_start_total_stake = 0,
         last_epoch_start_total_stake = 0,
         epoch_start_comm = (default_bls_comm, default_schnorr_comm, default_stake_comm),
         last_epoch_start_comm = (default_bls_comm, default_schnorr_comm, default_stake_comm),
         bls_mapping = []\<rparr>)))"

definition vec_contains_key :: "('k1, 'k2, 'f) vec_table \<Rightarrow> 'k1 \<Rightarrow> bool" where
  "vec_contains_key st k = (map_of (bls_mapping st) k \<noteq> None)"

definition vec_register ::
  "'k1 \<Rightarrow> u256 \<Rightarrow> 'k2 \<Rightarrow> ('k1, 'k2, 'f) vec_table \<Rightarrow> (('k1, 'k2, 'f) vec_table, StakeTableError) result" where
  "vec_register new_key amount aux st =
     (if map_of (bls_mapping st) new_key \<noteq> None then Err ExistingKey
      else
        let pos = length (bls_mapping st);
            h = \<lparr>bls_keys = bls_keys (head st) @ [new_key],
                 schnorr_keys = schnorr_keys (head st) @ [aux],
                 stake_amount = stake_amount (head st) @ [amount]\<rparr>
        in and_then (u256_add (head_total_stake st) amount) (\<lambda>t.
             Ok (st\<lparr>head := h, head_total_stake := t, bls_mapping := (new_key, pos) # bls_mapping st\<rparr>)))"

definition vec_deregister ::
  "'k1 \<Rightarrow> ('k1, 'k2, 'f) vec_table \<Rightarrow> (('k1, 'k2, 'f) vec_table, StakeTableError) result" where
  "vec_deregister existing_key st =
     (case map_of (bls_mapping st) existing_key of
        Some pos \<Rightarrow>
          and_then (index_at (stake_amount (head st)) pos) (\<lambda>amount.
          and_then (u256_sub (head_total_stake st) amount) (\<lambda>t.
          Ok (st\<lparr>head_total_stake := t,
                 head := (head st)\<lparr>stake_amount := (stake_amount (head st))[pos := 0]\<rparr>\<rparr>)))
      | None \<Rightarrow> Err KeyNotFound)"

definition vec_commitment :: "('k1, 'k2, 'f) vec_table \<Rightarrow> SnapshotVersion \<Rightarrow> ('f \<times> 'f \<times> 'f, StakeTableError) result" where
  "vec_commitment st ver =
     (case ver of
        EpochStart \<Rightarrow> Ok (epoch_start_comm st)
      | LastEpochStart \<Rightarrow> Ok (last_epoch_start_comm st)
      | _ \<Rightarrow> Err SnapshotUnsupported)"

definition vec_total_stake :: "('k1, 'k2, 'f) vec_table \<Rightarrow> SnapshotVersion \<Rightarrow> (u256, StakeTableError) result" where
  "vec_total_stake st ver =
     (case ver of
        Head \<Rightarrow> Ok (head_total_stake st)
      | EpochStart \<Rightarrow> Ok (epoch_start_total_stake st)
      | LastEpochStart \<Rightarrow> Ok (last_epoch_start_total_stake st)
      | BlockNum _ \<Rightarrow> Err SnapshotUnsupported)"

definition vec_version ::
  "('k1, 'k2, 'f) vec_table \<Rightarrow> SnapshotVersion \<Rightarrow> (('k1, 'k2) StakeTableSnapshot, StakeTableError) result" where
  "vec_version st ver =
     (case ver of
        Head \<Rightarrow> Ok (head st)
      | EpochStart \<Rightarrow> Ok (epoch_start st)
      | LastEpochStart \<Rightarrow> Ok (last_epoch_start st)
      | BlockNum _ \<Rightarrow> Err SnapshotUnsupported)"

definition vec_lookup_pos :: "('k1, 'k2, 'f) vec_table \<Rightarrow> 'k1 \<Rightarrow> (nat, StakeTableError) result" where
  "vec_lookup_pos st k = ok_or (map_of (bls_mapping st) k) KeyNotFound"

definition vec_len :: "('k1, 'k2, 'f) vec_table \<Rightarrow> SnapshotVersion \<Rightarrow> (nat, StakeTableError) result" where
  "vec_len st ver = and_then (vec_version st ver) (\<lambda>t. Ok (length (bls_keys t)))"

definition vec_lookup ::
  "('k1, 'k2, 'f) vec_table \<Rightarrow> SnapshotVersion \<Rightarrow> 'k1 \<Rightarrow> (u256, StakeTableError) result" where
  "vec_lookup st ver k =
     and_then (vec_version st ver) (\<lambda>table.
     and_then (vec_lookup_pos st k) (\<lambda>pos.
     if length (bls_keys table) \<le> pos then Err KeyNotFound
     else index_at (stake_amount table) pos))"

definition vec_lookup_with_proof ::
  "('k1, 'k2, 'f) vec_table \<Rightarrow> SnapshotVersion \<Rightarrow> 'k1 \<Rightarrow> (u256 \<times> unit, StakeTableError) result" where
  "vec_lookup_with_proof st ver k = and_then (vec_lookup st ver k) (\<lambda>amount. Ok (amount, ()))"

definition vec_lookup_with_aux_and_proof ::
  "('k1, 'k2, 'f) vec_table \<Rightarrow> SnapshotVersion \<Rightarrow> 'k1 \<Rightarrow> (u256 \<times> 'k2 \<times> unit, StakeTableError) result" where
  "vec_lookup_with_aux_and_proof st ver k =
     and_then (vec_version st ver) (\<lambda>table.
     and_then (vec_lookup_pos st k) (\<lambda>pos.
     if length (bls_keys table) \<le> pos then Err KeyNotFound
     else and_then (index_at (stake_amount table) pos) (\<lambda>amount.
          and_then (index_at (schnorr_keys table) pos) (\<lambda>aux. Ok (amount, aux, ())))))"

definition vec_update ::
  "'k1 \<Rightarrow> u256 \<Rightarrow> bool \<Rightarrow> ('k1, 'k2, 'f) vec_table \<Rightarrow> (('k1, 'k2, 'f) vec_table \<times> u256, StakeTableError) result" where
  "vec_update k delta negative st =
     and_then (vec_lookup_pos st k) (\<lambda>pos.
     and_then (index_at (stake_amount (head st)) pos) (\<lambda>old.
     if negative then
       (if old < delta then Err InsufficientFund
        else and_then (u256_sub (head_total_stake st) delta) (\<lambda>t.
             and_then (u256_sub old delta) (\<lambda>v.
             Ok (st\<lparr>head_total_stake := t,
                    head := (head st)\<lparr>stake_amount := (stake_amount (head st))[pos := v]\<rparr>\<rparr>, v))))
     else and_then (u256_add (head_total_stake st) delta) (\<lambda>t.
          and_then (u256_add old delta) (\<lambda>v.
          Ok (st\<lparr>head_total_stake := t,
                 head := (head st)\<lparr>stake_amount := (stake_amount (head st))[pos := v]\<rparr>\<rparr>, v)))))"

text \<open>
  The sampling loop.  The index it reads is bound once, to 0, and the loop only lowers the
  position, so it may not end; \<open>None\<close> is a loop that does not return.
\<close>

partial_function (option) vec_sample_loop :: "u256 \<Rightarrow> u256 \<Rightarrow> u256 option" where
  "vec_sample_loop amount pos =
     (if amount < pos then vec_sample_loop amount (pos - amount) else Some pos)"

text \<open>The outer option is the divergence of the loop; \<open>r\<close> is the number read from the generator.\<close>

definition vec_sample ::
  "('k1, 'k2, 'f) vec_table \<Rightarrow> nat \<Rightarrow> ('k1 \<times> u256, StakeTableError) result option" where
  "vec_sample st r =
     (if last_epoch_start_total_stake st = 0 then Some Panic
      else
        let pos = r mod last_epoch_start_total_stake st
        in case index_at (stake_amount (last_epoch_start st)) 0 of
             Ok amount \<Rightarrow>
               (case vec_sample_loop amount pos of
                  None \<Rightarrow> None
                | Some _ \<Rightarrow>
                    Some (and_then (index_at (bls_keys (last_epoch_start st)) 0) (\<lambda>k. Ok (k, amount))))
           | Err e \<Rightarrow> Some (Err e)
           | Panic \<Rightarrow> Some Panic)"

definition vec_try_iter ::
  "('k1, 'k2, 'f) vec_table \<Rightarrow> SnapshotVersion \<Rightarrow> (('k1 \<times> u256 \<times> 'k2) list, StakeTableError) result" where
  "vec_try_iter st ver =
     and_then (vec_version st ver) (\<lambda>table.
     if length (bls_keys table) \<le> length (stake_amount table) \<and>
        length (bls_keys table) \<le> length (schnorr_keys table)
     then Ok (map (\<lambda>i. (bls_keys table ! i, stake_amount table ! i, schnorr_keys table ! i))
                [0..<length (bls_keys table)])
     else Panic)"

text \<open>
  The subtraction \<open>capacity - len\<close> underflows on a table above its capacity: it panics in a
  checked build, and in a release build asks for about \<open>2 ^ 64\<close> padding keys.
\<close>

definition compute_head_comm ::
  "('k1, 'k2, 'f) vec_env \<Rightarrow> ('k1, 'k2, 'f) vec_table \<Rightarrow> ('f \<times> 'f \<times> 'f, StakeTableError) result" where
  "compute_head_comm env st =
     (if capacity st < length (bls_keys (head st)) then Panic
      else
        let padding_len = capacity st - length (bls_keys (head st));
            bls_comm_preimage = resize (capacity st * K1_SIZE env) (F_default env)
              (concat (map (K1_to_fields env) (bls_keys (head st))));
            schnorr_comm_preimage = concat (map (K2_to_fields env)
              (schnorr_keys (head st) @ replicate padding_len (K2_default env)));
            stake_comm_preimage = resize (capacity st) (F_default env)
              (map (u256_to_field (from_le_bytes_mod_order env)) (stake_amount (head st)))
        in and_then (unwrap (rescue_evaluate env bls_comm_preimage)) (\<lambda>bls_comm.
           and_then (unwrap (rescue_evaluate env schnorr_comm_preimage)) (\<lambda>schnorr_comm.
           and_then (unwrap (rescue_evaluate env stake_comm_preimage)) (\<lambda>stake_comm.
           Ok (bls_comm, schnorr_comm, stake_comm)))))"

definition vec_advance ::
  "('k1, 'k2, 'f) vec_env \<Rightarrow> ('k1, 'k2, 'f) vec_table \<Rightarrow> (('k1, 'k2, 'f) vec_table, StakeTableError) result" where
  "vec_advance env st =
     (let st1 = st\<lparr>last_epoch_start := epoch_start st,
                   last_epoch_start_total_stake := epoch_start_total_stake st,
                   last_epoch_start_comm := epoch_start_comm st\<rparr>;
          st2 = st1\<lparr>epoch_start := head st1,
                    epoch_start_total_stake := head_total_stake st1\<rparr>
      in and_then (compute_head_comm env st2) (\<lambda>c. Ok (st2\<lparr>epoch_start_comm := c\<rparr>)))"

definition vec_set_value ::
  "'k1 \<Rightarrow> u256 \<Rightarrow> ('k1, 'k2, 'f) vec_table \<Rightarrow> (('k1, 'k2, 'f) vec_table \<times> u256, StakeTableError) result" where
  "vec_set_value k v st =
     (case map_of (bls_mapping st) k of
        Some pos \<Rightarrow>
          and_then (index_at (stake_amount (head st)) pos) (\<lambda>old_value.
          and_then (u256_sub (head_total_stake st) old_value) (\<lambda>t.
          and_then (u256_add t v) (\<lambda>t'.
          Ok (st\<lparr>head := (head st)\<lparr>stake_amount := (stake_amount (head st))[pos := v]\<rparr>,
                 head_total_stake := t'\<rparr>, old_value))))
      | None \<Rightarrow> Err KeyNotFound)"

section \<open>Invariant\<close>

definition snap_ok :: "('k1, 'k2) StakeTableSnapshot \<Rightarrow> u256 \<Rightarrow> bool" where
  "snap_ok t tot \<longleftrightarrow>
     length (schnorr_keys t) = length (bls_keys t) \<and>
     length (stake_amount t) = length (bls_keys t) \<and>
     tot = sum_list (stake_amount t) \<and> tot < u256_limit"

definition vec_inv :: "('k1, 'k2, 'f) vec_table \<Rightarrow> bool" where
  "vec_inv st \<longleftrightarrow>
     distinct (bls_keys (head st)) \<and>
     bls_mapping st = rev (zip (bls_keys (head st)) [0..<length (bls_keys (head st))]) \<and>
     snap_ok (head st) (head_total_stake st) \<and>
     snap_ok (epoch_start st) (epoch_start_total_stake st) \<and>
     snap_ok (last_epoch_start st) (last_epoch_start_total_stake st) \<and>
     prefix (bls_keys (epoch_start st)) (bls_keys (head st)) \<and>
     prefix (bls_keys (last_epoch_start st)) (bls_keys (head st))"

text \<open>What a snapshot holds, as a map.\<close>

definition balances :: "('k1, 'k2) StakeTableSnapshot \<Rightarrow> 'k1 \<rightharpoonup> u256" where
  "balances t = map_of (zip (bls_keys t) (stake_amount t))"

lemma map_of_rev_zip:
  assumes "distinct ks"
  shows "map_of (rev (zip ks [0..<length ks])) k = Some i \<longleftrightarrow> i < length ks \<and> ks ! i = k"
proof -
  have "distinct (map fst (rev (zip ks [0..<length ks])))"
    using assms by (simp add: rev_map [symmetric])
  then show ?thesis by (auto simp: map_of_eq_Some_iff in_set_zip)
qed

lemma balances_eq_Some:
  assumes "distinct (bls_keys t)" and "length (stake_amount t) = length (bls_keys t)"
  shows "balances t k = Some a \<longleftrightarrow> (\<exists>i < length (bls_keys t). bls_keys t ! i = k \<and> stake_amount t ! i = a)"
  using assms by (auto simp: balances_def map_of_eq_Some_iff in_set_zip)

lemma balances_eq_None:
  "length (stake_amount t) = length (bls_keys t) \<Longrightarrow> balances t k = None \<longleftrightarrow> k \<notin> set (bls_keys t)"
  by (simp add: balances_def map_of_eq_None_iff flip: set_map)

lemma inv_mapping_Some:
  "vec_inv st \<Longrightarrow> map_of (bls_mapping st) k = Some i \<longleftrightarrow> i < length (bls_keys (head st)) \<and> bls_keys (head st) ! i = k"
  by (simp add: vec_inv_def map_of_rev_zip)

lemma inv_mapping_None:
  "vec_inv st \<Longrightarrow> map_of (bls_mapping st) k = None \<longleftrightarrow> k \<notin> set (bls_keys (head st))"
  by (simp add: vec_inv_def map_of_eq_None_iff flip: set_map)

lemma inv_version:
  assumes "vec_inv st" and "vec_version st ver = Ok t"
  shows "prefix (bls_keys t) (bls_keys (head st))" and "distinct (bls_keys t)"
    and "length (stake_amount t) = length (bls_keys t)" and "length (schnorr_keys t) = length (bls_keys t)"
proof -
  show p: "prefix (bls_keys t) (bls_keys (head st))"
    using assms by (auto simp: vec_inv_def vec_version_def split: SnapshotVersion.splits)
  moreover have "distinct (bls_keys (head st))" using assms by (simp add: vec_inv_def)
  ultimately show "distinct (bls_keys t)" by (auto elim: prefixE)
  show "length (stake_amount t) = length (bls_keys t)" "length (schnorr_keys t) = length (bls_keys t)"
    using assms by (auto simp: vec_inv_def vec_version_def snap_ok_def split: SnapshotVersion.splits)
qed

text \<open>Under the invariant a lookup reads the map of the snapshot: it never panics.\<close>

lemma vec_lookup_refines:
  assumes "vec_inv st"
  shows "vec_lookup st ver k = and_then (vec_version st ver) (\<lambda>t. ok_or (balances t k) KeyNotFound)"
proof (cases "vec_version st ver")
  case (Ok t)
  note iv = inv_version [OF assms Ok]
  have nth: "bls_keys (head st) ! i = bls_keys t ! i" if "i < length (bls_keys t)" for i
    using iv(1) that by (auto elim!: prefixE simp: nth_append)
  show ?thesis
  proof (cases "map_of (bls_mapping st) k")
    case None
    then have "k \<notin> set (bls_keys t)"
      using inv_mapping_None [OF assms, of k] iv(1) by (auto elim!: prefixE)
    then have "balances t k = None" using iv by (simp add: balances_eq_None)
    then show ?thesis using Ok None by (simp add: vec_lookup_def vec_lookup_pos_def)
  next
    case (Some i)
    then have i: "i < length (bls_keys (head st))" "bls_keys (head st) ! i = k"
      using inv_mapping_Some [OF assms] by auto
    show ?thesis
    proof (cases "i < length (bls_keys t)")
      case True
      then have "balances t k = Some (stake_amount t ! i)"
        using iv i nth by (auto simp: balances_eq_Some)
      then show ?thesis using Ok Some True iv by (simp add: vec_lookup_def vec_lookup_pos_def index_at_def)
    next
      case False
      have "k \<notin> set (bls_keys t)"
      proof
        assume "k \<in> set (bls_keys t)"
        then obtain j where j: "j < length (bls_keys t)" "bls_keys t ! j = k" by (auto simp: in_set_conv_nth)
        then have "j < length (bls_keys (head st))" using iv(1) by (auto elim!: prefixE)
        then have "map_of (bls_mapping st) k = Some j"
          using inv_mapping_Some [OF assms] nth [OF j(1)] j by simp
        then show False using Some False j by simp
      qed
      then have "balances t k = None" using iv by (simp add: balances_eq_None)
      then show ?thesis using Ok Some False by (simp add: vec_lookup_def vec_lookup_pos_def)
    qed
  qed
qed (simp_all add: vec_lookup_def)

section \<open>The operations keep the invariant\<close>

lemma vec_inv_new: "vec_new env cap = Ok st \<Longrightarrow> vec_inv st"
  by (auto simp: vec_new_def result_simps vec_inv_def snap_ok_def snapshot_default_def)

lemma vec_inv_register:
  assumes "vec_inv st" and "vec_register k a x st = Ok st'"
  shows "vec_inv st'"
proof -
  have "k \<notin> set (bls_keys (head st))"
    using assms inv_mapping_None [OF assms(1), of k] by (auto simp: vec_register_def split: if_splits)
  then show ?thesis
    using assms by (auto simp: vec_register_def vec_inv_def snap_ok_def Let_def result_simps split: if_splits)
qed

text \<open>Writing one amount of the head and adjusting the total.\<close>

definition put_amount :: "nat \<Rightarrow> u256 \<Rightarrow> ('k1, 'k2, 'f) vec_table \<Rightarrow> ('k1, 'k2, 'f) vec_table" where
  "put_amount i v st =
     st\<lparr>head := (head st)\<lparr>stake_amount := (stake_amount (head st))[i := v]\<rparr>,
        head_total_stake := head_total_stake st - stake_amount (head st) ! i + v\<rparr>"

lemma inv_amount_le_total:
  "vec_inv st \<Longrightarrow> i < length (bls_keys (head st)) \<Longrightarrow> stake_amount (head st) ! i \<le> head_total_stake st"
  by (auto simp: vec_inv_def snap_ok_def intro: nth_le_sum_list)

lemma vec_inv_put_amount:
  assumes "vec_inv st" and "i < length (bls_keys (head st))"
    and "head_total_stake st - stake_amount (head st) ! i + v < u256_limit"
  shows "vec_inv (put_amount i v st)"
  using assms sum_list_list_update [of i "stake_amount (head st)" v] inv_amount_le_total [OF assms(1,2)]
  by (auto simp: vec_inv_def put_amount_def snap_ok_def)

lemma balances_put_amount:
  assumes "vec_inv st" and "i < length (bls_keys (head st))"
  shows "balances (head (put_amount i v st)) = (balances (head st))(bls_keys (head st) ! i \<mapsto> v)"
proof
  fix k
  have d: "distinct (bls_keys (head st))" "length (stake_amount (head st)) = length (bls_keys (head st))"
    using assms(1) by (auto simp: vec_inv_def snap_ok_def)
  have "balances (head (put_amount i v st)) k = Some a \<longleftrightarrow>
        ((balances (head st))(bls_keys (head st) ! i \<mapsto> v)) k = Some a" for a
    using d assms(2) by (auto simp: balances_eq_Some put_amount_def nth_list_update nth_eq_iff_index_eq)
  then show "balances (head (put_amount i v st)) k = ((balances (head st))(bls_keys (head st) ! i \<mapsto> v)) k"
    by (metis not_None_eq)
qed

lemma vec_update_put:
  assumes "vec_update k d n st = Ok (st', v)" and "vec_inv st"
  obtains i old where "i < length (bls_keys (head st))" "bls_keys (head st) ! i = k"
    "stake_amount (head st) ! i = old" "if n then d \<le> old \<and> v = old - d else v = old + d"
    "st' = put_amount i v st" "head_total_stake st - old + v < u256_limit"
proof -
  obtain i where i: "map_of (bls_mapping st) k = Some i" "i < length (stake_amount (head st))"
    using assms(1) by (auto simp: vec_update_def vec_lookup_pos_def result_simps)
  let ?old = "stake_amount (head st) ! i"
  have ii: "i < length (bls_keys (head st))" "bls_keys (head st) ! i = k"
    using i inv_mapping_Some [OF assms(2)] by auto
  have le: "?old \<le> head_total_stake st" using inv_amount_le_total [OF assms(2) ii(1)] .
  have lim: "head_total_stake st < u256_limit" using assms(2) by (simp add: vec_inv_def snap_ok_def)
  have up: "(if n then d \<le> ?old \<and> v = ?old - d else v = ?old + d) \<and> st' = put_amount i v st \<and>
    head_total_stake st - ?old + v < u256_limit"
    using assms(1) i le lim
    by (auto simp: vec_update_def vec_lookup_pos_def index_at_def put_amount_def result_simps
        split: if_splits)
  show ?thesis using that [of i ?old] ii up by blast
qed

lemma vec_set_value_put:
  assumes "vec_set_value k v st = Ok (st', old)" and "vec_inv st"
  obtains i where "i < length (bls_keys (head st))" "bls_keys (head st) ! i = k"
    "stake_amount (head st) ! i = old" "st' = put_amount i v st" "head_total_stake st - old + v < u256_limit"
proof -
  obtain i where i: "map_of (bls_mapping st) k = Some i"
    using assms(1) by (auto simp: vec_set_value_def split: option.splits)
  have ii: "i < length (bls_keys (head st))" "bls_keys (head st) ! i = k"
    using i inv_mapping_Some [OF assms(2)] by auto
  show ?thesis
    using that [of i] ii i assms(1)
    by (auto simp: vec_set_value_def index_at_def put_amount_def result_simps split: if_splits)
qed

lemma vec_deregister_put:
  assumes "vec_deregister k st = Ok st'" and "vec_inv st"
  obtains i where "i < length (bls_keys (head st))" "bls_keys (head st) ! i = k" "st' = put_amount i 0 st"
proof -
  obtain i where i: "map_of (bls_mapping st) k = Some i"
    using assms(1) by (auto simp: vec_deregister_def split: option.splits)
  have ii: "i < length (bls_keys (head st))" "bls_keys (head st) ! i = k"
    using i inv_mapping_Some [OF assms(2)] by auto
  show ?thesis
    using that [of i] ii i assms(1)
    by (auto simp: vec_deregister_def index_at_def put_amount_def result_simps split: if_splits)
qed

lemma vec_inv_advance: "vec_inv st \<Longrightarrow> vec_advance env st = Ok st' \<Longrightarrow> vec_inv st'"
  by (auto simp: vec_advance_def Let_def result_simps vec_inv_def)

lemma vec_inv_update: "vec_inv st \<Longrightarrow> vec_update k d n st = Ok (st', v) \<Longrightarrow> vec_inv st'"
  by (auto elim!: vec_update_put intro!: vec_inv_put_amount)

lemma vec_inv_set_value: "vec_inv st \<Longrightarrow> vec_set_value k v st = Ok (st', old) \<Longrightarrow> vec_inv st'"
  by (auto elim!: vec_set_value_put intro!: vec_inv_put_amount)

lemma vec_inv_deregister:
  assumes "vec_inv st" and "vec_deregister k st = Ok st'"
  shows "vec_inv st'"
proof -
  have "head_total_stake st < u256_limit" using assms(1) by (simp add: vec_inv_def snap_ok_def)
  then show ?thesis
    using assms by (auto elim!: vec_deregister_put intro!: vec_inv_put_amount)
qed

lemma vec_version_put:
  "vec_version (put_amount i v st) ver =
     (if ver = Head then Ok (head (put_amount i v st)) else vec_version st ver)"
  by (auto simp: vec_version_def put_amount_def split: SnapshotVersion.splits)

lemma vec_total_put: "ver \<noteq> Head \<Longrightarrow> vec_total_stake (put_amount i v st) ver = vec_total_stake st ver"
  by (auto simp: vec_total_stake_def put_amount_def split: SnapshotVersion.splits)

lemma vec_lookup_put:
  assumes "vec_inv st" and "i < length (bls_keys (head st))"
    and "head_total_stake st - stake_amount (head st) ! i + v < u256_limit"
  shows "vec_lookup (put_amount i v st) ver j =
     (if ver = Head \<and> j = bls_keys (head st) ! i then Ok v else vec_lookup st ver j)"
  using vec_inv_put_amount [OF assms] assms
  by (auto simp: vec_lookup_refines vec_version_put balances_put_amount)
    (simp add: vec_version_def)

lemma vec_lookup_head_nth:
  assumes "vec_inv st" and "i < length (bls_keys (head st))"
  shows "vec_lookup st Head (bls_keys (head st) ! i) = Ok (stake_amount (head st) ! i)"
proof -
  have "balances (head st) (bls_keys (head st) ! i) = Some (stake_amount (head st) ! i)"
    using assms by (subst balances_eq_Some) (auto simp: vec_inv_def snap_ok_def)
  then show ?thesis using assms by (simp add: vec_lookup_refines vec_version_def)
qed

lemma vec_register_effect:
  assumes "vec_inv st" and "vec_register k a x st = Ok st'"
  shows "vec_lookup st Head k = Err KeyNotFound"
    and "vec_lookup st' ver j = (if ver = Head \<and> j = k then Ok a else vec_lookup st ver j)"
proof -
  have new: "k \<notin> set (bls_keys (head st))" and len: "length (stake_amount (head st)) = length (bls_keys (head st))"
    using assms inv_mapping_None [OF assms(1), of k]
    by (auto simp: vec_register_def vec_inv_def snap_ok_def split: if_splits)
  show "vec_lookup st Head k = Err KeyNotFound"
    using assms(1) new len balances_eq_None [of "head st" k]
    by (simp add: vec_lookup_refines vec_version_def)
  have ver: "vec_version st' ver = (if ver = Head then Ok (head st') else vec_version st ver)"
    using assms(2) by (auto simp: vec_register_def vec_version_def Let_def result_simps
        split: if_splits SnapshotVersion.splits)
  have "balances (head st') = (balances (head st))(k \<mapsto> a)"
  proof -
    have "balances (head st) k = None" using new len by (simp add: balances_eq_None)
    then have "[k \<mapsto> a] ++ balances (head st) = (balances (head st))(k \<mapsto> a)"
      by (auto simp: map_add_def split: option.splits)
    moreover have "head st' = \<lparr>bls_keys = bls_keys (head st) @ [k], schnorr_keys = schnorr_keys (head st) @ [x],
        stake_amount = stake_amount (head st) @ [a]\<rparr>"
      using assms(2) by (auto simp: vec_register_def Let_def result_simps split: if_splits)
    ultimately show ?thesis using len by (simp add: balances_def)
  qed
  then show "vec_lookup st' ver j = (if ver = Head \<and> j = k then Ok a else vec_lookup st ver j)"
    using assms vec_inv_register [OF assms] ver
    by (auto simp: vec_lookup_refines) (simp add: vec_version_def)
qed

lemma vec_advance_version:
  assumes "vec_advance env st = Ok st'"
  shows "vec_version st' Head = vec_version st Head" "vec_version st' EpochStart = vec_version st Head"
    "vec_version st' LastEpochStart = vec_version st EpochStart"
    "vec_total_stake st' Head = vec_total_stake st Head" "vec_total_stake st' EpochStart = vec_total_stake st Head"
    "vec_total_stake st' LastEpochStart = vec_total_stake st EpochStart"
  using assms by (auto simp: vec_advance_def Let_def result_simps vec_version_def vec_total_stake_def)

interpretation vt: stake_table_scheme vec_inv vec_lookup vec_total_stake vec_register vec_update
  vec_set_value "vec_advance env"
proof (unfold_locales, goal_cases)
  case (1 s k a x s') then show ?case by (rule vec_inv_register)
next
  case (2 s k d n s' v) then show ?case by (rule vec_inv_update)
next
  case (3 s k a s' v) then show ?case by (rule vec_inv_set_value)
next
  case (4 s s') then show ?case by (rule vec_inv_advance)
next
  case (5 s k a x s') then show ?case by (rule vec_register_effect)
next
  case (6 s k a x s' j) then show ?case by (simp add: vec_register_effect(2))
next
  case (7 s k d n s' v j)
  then show ?case by (auto elim!: vec_update_put simp: vec_lookup_put)
next
  case (8 s k d n s' v)
  then show ?case by (auto elim!: vec_update_put simp: vec_lookup_head_nth split: if_splits)
next
  case (9 s k a s' old j)
  then show ?case by (auto elim!: vec_set_value_put simp: vec_lookup_put vec_lookup_head_nth)
next
  case (10 s k a x s' ver j)
  then show ?case
    by (auto simp: vec_register_effect(2) vec_register_def vec_total_stake_def Let_def result_simps
        split: if_splits SnapshotVersion.splits)
next
  case (11 s k d n s' v ver j)
  then show ?case by (auto elim!: vec_update_put simp: vec_lookup_put vec_total_put)
next
  case (12 s k a s' v ver j)
  then show ?case by (auto elim!: vec_set_value_put simp: vec_lookup_put vec_total_put)
next
  case (13 s s' j)
  then show ?case using vec_advance_version [OF 13(2)] vec_inv_advance [OF 13] by (simp add: vec_lookup_refines)
next
  case (14 s s')
  then show ?case using vec_advance_version [OF 14(2)] by simp
next
  case (15 s e)
  then show ?case
    by (auto simp: vec_advance_def compute_head_comm_def Let_def unwrap_def split: option.splits)
qed

abbreviation vec_step where
  "vec_step env \<equiv> step_op vec_register vec_update vec_set_value (vec_advance env)"

section \<open>Sampling\<close>

lemma vec_sample_loop_zero: "0 < pos \<Longrightarrow> vec_sample_loop 0 pos = None"
proof -
  have "a = 0 \<longrightarrow> p = 0" if "vec_sample_loop a p = Some y" for a p y
  proof (rule vec_sample_loop.raw_induct [where P = "\<lambda>a p y. a = 0 \<longrightarrow> p = 0", OF _ that])
    fix f :: "u256 \<Rightarrow> u256 \<Rightarrow> u256 option" and a p y
    assume ih: "\<And>a p y. f a p = Some y \<Longrightarrow> a = 0 \<longrightarrow> p = 0"
      and eq: "(if a < p then f a (p - a) else Some p) = Some y"
    show "a = 0 \<longrightarrow> p = 0" using ih [of a "p - a" y] eq by (auto split: if_splits)
  qed
  then show "0 < pos \<Longrightarrow> vec_sample_loop 0 pos = None" by fastforce
qed

lemma vec_sample_loop_returns: "0 < amount \<Longrightarrow> \<exists>p. vec_sample_loop amount pos = Some p"
proof (induction pos rule: less_induct)
  case (less pos)
  show ?case
  proof (cases "amount < pos")
    case True
    then have "\<exists>p. vec_sample_loop amount (pos - amount) = Some p" using less by simp
    then show ?thesis using True by (subst vec_sample_loop.simps) simp
  qed (subst vec_sample_loop.simps, simp)
qed

section \<open>Properties\<close>

text \<open>
  C35. Every table reached from \<open>new\<close> by registrations, updates, assignments and epoch changes,
  failed ones included, satisfies the invariant; in particular the cached totals are the sums of
  the amounts and a lookup in any supported version returns what the version's map holds, or
  \<open>KeyNotFound\<close>, and never panics.
\<close>
theorem vec_table_reachable_inv:
  assumes "vec_new env cap = Ok st0" and "run_ops (vec_step env) ops st0 = Ok st"
  shows "vec_inv st \<and> head_total_stake st = sum_list (stake_amount (head st)) \<and>
         (\<forall>ver k. vec_lookup st ver k = and_then (vec_version st ver) (\<lambda>t. ok_or (balances t k) KeyNotFound))"
proof -
  have "vec_inv st" using vt.valid_run [OF vec_inv_new [OF assms(1)] assms(2)] .
  then show ?thesis using vec_lookup_refines [of st] by (simp add: vec_inv_def snap_ok_def)
qed

definition nat_env :: "(nat, nat, nat) vec_env" where
  "nat_env = \<lparr>K1_to_fields = (\<lambda>k. [k]), K1_SIZE = 1, K2_to_fields = (\<lambda>k. [k]), K2_SIZE = 1,
     K2_default = 1, F_default = 0, from_le_bytes_mod_order = (\<lambda>bs. foldr (\<lambda>b v. b + 256 * v) bs 0),
     rescue_evaluate = (\<lambda>xs. Some (foldr (\<lambda>x v. x + 1000 * v) xs 0))\<rparr>"

definition nat_table :: "(nat, nat, nat) vec_table" where
  "nat_table = \<lparr>capacity = 2, head = snapshot_default, epoch_start = snapshot_default,
     last_epoch_start = snapshot_default, head_total_stake = 0, epoch_start_total_stake = 0,
     last_epoch_start_total_stake = 0, epoch_start_comm = (0, 0, 0), last_epoch_start_comm = (0, 0, 0),
     bls_mapping = []\<rparr>"

lemma nat_table_new: "vec_new nat_env 2 = Ok nat_table"
  by (simp add: vec_new_def nat_env_def nat_table_def numeral_2_eq_2)

definition nat_table' :: "(nat, nat, nat) vec_table" where
  "nat_table' = nat_table\<lparr>head := \<lparr>bls_keys = [7], schnorr_keys = [1], stake_amount = [40]\<rparr>,
     epoch_start := \<lparr>bls_keys = [7], schnorr_keys = [1], stake_amount = [40]\<rparr>,
     head_total_stake := 40, epoch_start_total_stake := 40, epoch_start_comm := (7, 1001, 40),
     bls_mapping := [(7, 0)]\<rparr>"

lemma nat_table_run:
  "run_ops (vec_step nat_env) [Register 7 30 1, Register 7 5 1, Update 7 10 False, Advance] nat_table = Ok nat_table'"
  by (simp add: nat_table_def nat_table'_def vec_register_def vec_update_def vec_lookup_pos_def index_at_def
      u256_add_def u256_limit_def snapshot_default_def vec_advance_def compute_head_comm_def nat_env_def
      resize_def Let_def u256_to_field_def)

theorem vec_table_reachable_inv_witness:
  "vec_inv nat_table' \<and> head_total_stake nat_table' = 40"
  using vec_table_reachable_inv [OF nat_table_new nat_table_run] by (simp add: nat_table'_def)

text \<open>
  C36. Isolation of the election table.  Take a run with two epoch changes: the table used for
  leader election at the end is the head as it was at the first of them, for every key and for the
  total, whatever is registered, updated or assigned after it.
\<close>
theorem vec_election_table_isolated:
  assumes "vec_inv st" and "run_ops (vec_step env) ops0 st = Ok st0"
    and "run_ops (vec_step env) (ops0 @ Advance # ops1 @ Advance # ops2) st = Ok st'"
    and "Advance \<notin> set ops1" and "Advance \<notin> set ops2"
  shows "vec_lookup st' LastEpochStart k = vec_lookup st0 Head k \<and>
         vec_total_stake st' LastEpochStart = vec_total_stake st0 Head"
  using vt.election_table_isolated [OF assms] .

definition one_key :: "u256 \<Rightarrow> (nat, nat) StakeTableSnapshot" where
  "one_key v = \<lparr>bls_keys = [7], schnorr_keys = [1], stake_amount = [v]\<rparr>"

lemma nat_table_run0:
  "run_ops (vec_step nat_env) [Register 7 30 1] nat_table =
     Ok (nat_table\<lparr>head := one_key 30, head_total_stake := 30, bls_mapping := [(7, 0)]\<rparr>)"
  by (simp add: nat_table_def vec_register_def u256_add_def u256_limit_def snapshot_default_def one_key_def)

lemma nat_table_run2:
  "run_ops (vec_step nat_env)
     ([Register 7 30 1] @ Advance # [Update 7 10 False] @ Advance # [SetValue 7 1]) nat_table =
     Ok (nat_table\<lparr>head := one_key 1, epoch_start := one_key 40, last_epoch_start := one_key 30,
        head_total_stake := 1, epoch_start_total_stake := 40, last_epoch_start_total_stake := 30,
        epoch_start_comm := (7, 1001, 40), last_epoch_start_comm := (7, 1001, 30), bls_mapping := [(7, 0)]\<rparr>)"
  by (simp add: nat_table_def vec_register_def vec_update_def vec_set_value_def vec_lookup_pos_def index_at_def
      u256_add_def u256_sub_def u256_limit_def snapshot_default_def vec_advance_def compute_head_comm_def nat_env_def
      resize_def Let_def u256_to_field_def one_key_def)

theorem vec_election_table_isolated_witness:
  "vec_lookup (nat_table\<lparr>head := one_key 1, epoch_start := one_key 40, last_epoch_start := one_key 30,
        head_total_stake := 1, epoch_start_total_stake := 40, last_epoch_start_total_stake := 30,
        epoch_start_comm := (7, 1001, 40), last_epoch_start_comm := (7, 1001, 30), bls_mapping := [(7, 0)]\<rparr>)
     LastEpochStart 7 = Ok 30"
  using vec_election_table_isolated [OF vec_inv_new [OF nat_table_new] nat_table_run0 nat_table_run2, of 7]
  by (simp add: vec_lookup_def vec_version_def vec_lookup_pos_def one_key_def index_at_def)

text \<open>
  \<open>sample\<close> ignores the randomness it draws.  On every table whose election snapshot gives its
  first key a positive stake it returns that first key, for every random number; when the first
  key has no stake (it was deregistered) and the position drawn is positive, the loop does not end.
\<close>
theorem vec_sample_always_first:
  assumes "vec_inv st" and "bls_keys (last_epoch_start st) \<noteq> []" and "0 < last_epoch_start_total_stake st"
  shows "(0 < stake_amount (last_epoch_start st) ! 0 \<longrightarrow>
            vec_sample st r = Some (Ok (bls_keys (last_epoch_start st) ! 0, stake_amount (last_epoch_start st) ! 0))) \<and>
         (stake_amount (last_epoch_start st) ! 0 = 0 \<and> 0 < r mod last_epoch_start_total_stake st \<longrightarrow>
            vec_sample st r = None)"
proof -
  have len: "length (stake_amount (last_epoch_start st)) = length (bls_keys (last_epoch_start st))"
    using assms(1) by (simp add: vec_inv_def snap_ok_def)
  have first: "0 < length (bls_keys (last_epoch_start st))" using assms(2) by simp
  show ?thesis
    using assms(3) len first vec_sample_loop_zero [of "r mod last_epoch_start_total_stake st"]
      vec_sample_loop_returns [of "stake_amount (last_epoch_start st) ! 0" "r mod last_epoch_start_total_stake st"]
    by (auto simp: vec_sample_def Let_def index_at_def)
qed

definition two_keys :: "(nat, nat) StakeTableSnapshot" where
  "two_keys = \<lparr>bls_keys = [7, 8], schnorr_keys = [1, 1], stake_amount = [1, 99]\<rparr>"

theorem vec_sample_always_first_witness:
  "vec_sample (nat_table\<lparr>head := two_keys, last_epoch_start := two_keys, head_total_stake := 100,
     last_epoch_start_total_stake := 100, bls_mapping := [(8, 1), (7, 0)]\<rparr>) 63 = Some (Ok (7, 1))"
  using vec_sample_always_first [of "nat_table\<lparr>head := two_keys, last_epoch_start := two_keys, head_total_stake := 100,
     last_epoch_start_total_stake := 100, bls_mapping := [(8, 1), (7, 0)]\<rparr>" 63]
  by (simp add: vec_inv_def snap_ok_def nat_table_def two_keys_def snapshot_default_def u256_limit_def upt_rec)

text \<open>
  The commitment of an empty table depends on whether \<open>advance\<close> was called: \<open>new\<close> pads the
  Schnorr column with zero field elements and \<open>compute_head_comm\<close> with the fields of the default
  Schnorr key, so with a collision-free hash and a default key whose first field is not zero, the
  commitment that \<open>new\<close> stores differs from the one \<open>advance\<close> computes for the same empty table.
\<close>
theorem vec_empty_commitments_differ:
  assumes "vec_new env cap = Ok st" and "vec_advance env st = Ok st'" and "0 < cap"
    and "inj_on (rescue_evaluate env) {xs. rescue_evaluate env xs \<noteq> None}"
    and "length (K2_to_fields env (K2_default env)) = K2_SIZE env" and "0 < K2_SIZE env"
    and "K2_to_fields env (K2_default env) ! 0 \<noteq> F_default env"
  shows "head st' = head st \<and> epoch_start st' = epoch_start st \<and> epoch_start_comm st' \<noteq> epoch_start_comm st"
proof -
  let ?z = "replicate (cap * K2_SIZE env) (F_default env)"
  let ?d = "concat (map (K2_to_fields env) (replicate cap (K2_default env)))"
  have h: "head st = snapshot_default" "epoch_start st = snapshot_default" "capacity st = cap"
    using assms(1) by (auto simp: vec_new_def result_simps)
  obtain c where c: "rescue_evaluate env ?z = Some c" "fst (snd (epoch_start_comm st)) = c"
    using assms(1) by (auto simp: vec_new_def result_simps)
  obtain c' where c': "rescue_evaluate env ?d = Some c'" "fst (snd (epoch_start_comm st')) = c'"
    and keep: "head st' = head st" "epoch_start st' = head st"
    using assms(2) h by (auto simp: vec_advance_def compute_head_comm_def Let_def result_simps snapshot_default_def)
  have "?d ! 0 = K2_to_fields env (K2_default env) ! 0" "?z ! 0 = F_default env"
    using assms(3,5,6) by (cases cap; simp add: nth_append)+
  then have "?z \<noteq> ?d" using assms(7) by metis
  then have "c \<noteq> c'" using inj_onD [OF assms(4), of ?z ?d] c(1) c'(1) by auto
  then show ?thesis using c c' keep h by auto
qed

definition hash_env :: "(nat, nat, nat) vec_env" where
  "hash_env = nat_env\<lparr>rescue_evaluate := (\<lambda>xs. Some (to_nat xs))\<rparr>"

theorem vec_empty_commitments_differ_witness:
  "\<exists>st st'. vec_new hash_env 1 = Ok st \<and> vec_advance hash_env st = Ok st' \<and>
            epoch_start_comm st' \<noteq> epoch_start_comm st"
proof -
  obtain st where st: "vec_new hash_env 1 = Ok st"
    by (simp add: vec_new_def hash_env_def)
  then have h: "capacity st = 1" "head st = snapshot_default"
    by (auto simp: vec_new_def result_simps)
  obtain st' where st': "vec_advance hash_env st = Ok st'"
    using h by (simp add: vec_advance_def compute_head_comm_def hash_env_def snapshot_default_def Let_def)
  have "epoch_start_comm st' \<noteq> epoch_start_comm st"
    using vec_empty_commitments_differ [OF st st']
    by (simp add: hash_env_def nat_env_def inj_on_def)
  then show ?thesis using st st' by blast
qed

end
