(* ===== verification/MerkleTable.thy ===== *)
theory MerkleTable
  imports VecTable
begin

text \<open>
  The stake table over a persistent Merkle tree, \<open>crates/hotshot-stake-table/src/mt_based.rs\<close> and
  \<open>mt_based/internal.rs\<close>.  The Rescue hash, the field and the key type are parameters
  (\<open>mt_env\<close>).  \<open>packed\<close> is the shape of the trees the table builds (filled from the left,
  cached sizes, totals and digests correct), \<open>entries\<close> the list of pairs a tree stands for.
  Each tree operation is shown to be the corresponding list operation on \<open>entries\<close>, proofs of
  membership are complete and sound, and the table implements the contract of \<open>StakeTable\<close>.
\<close>

section \<open>Trees, paths and proofs\<close>

definition TREE_BRANCH :: nat where
  "TREE_BRANCH = 3"

datatype ('k, 'f) PersistentMerkleNode =
    Empty
  | Branch 'f "('k, 'f) PersistentMerkleNode list" nat u256
  | Leaf 'f 'k u256

datatype ('k, 'f) MerklePathEntry =
    PathBranch nat "'f list"
  | PathLeaf 'k u256

record ('k, 'f) MerkleProof =
  index :: nat
  path :: "('k, 'f) MerklePathEntry list"

record 'f MerkleCommitment =
  comm :: 'f
  height :: nat
  size_of :: nat

record ('k, 'f) mt_env =
  key_to_fields :: "'k \<Rightarrow> 'f list"
  key_SIZE :: nat
  field_zero :: 'f
  field_from_le_bytes :: "nat list \<Rightarrow> 'f"
  digest_evaluate :: "'f list \<Rightarrow> 'f option"

text \<open>The hash input of a leaf: the key's fields, zero padding, and the amount in the last place.\<close>

definition leaf_comm :: "('k, 'f) mt_env \<Rightarrow> 'k \<Rightarrow> u256 \<Rightarrow> ('f, StakeTableError) result" where
  "leaf_comm env key v =
     (let fields = key_to_fields env key
      in if key_SIZE env \<le> 3 \<and> length fields = key_SIZE env then
           ok_or (digest_evaluate env
             ((fields @ replicate (3 - key_SIZE env) (field_zero env))
                [2 := u256_to_field (field_from_le_bytes env) v])) RescueError
         else Panic)"

fun proof_key :: "('k, 'f) MerkleProof \<Rightarrow> 'k option" where
  "proof_key p = (case path p of PathLeaf k v # _ \<Rightarrow> Some k | _ \<Rightarrow> None)"

fun proof_value :: "('k, 'f) MerkleProof \<Rightarrow> u256 option" where
  "proof_value p = (case path p of PathLeaf k v # _ \<Rightarrow> Some v | _ \<Rightarrow> None)"

fun proof_key_value :: "('k, 'f) MerkleProof \<Rightarrow> ('k \<times> u256) option" where
  "proof_key_value p = (case path p of PathLeaf k v # _ \<Rightarrow> Some (k, v) | _ \<Rightarrow> None)"

text \<open>The subtraction wraps on an empty path.\<close>

definition proof_tree_height :: "('k, 'f) MerkleProof \<Rightarrow> nat" where
  "proof_tree_height p = (if path p = [] then 2 ^ 64 - 1 else length (path p) - 1)"

fun fold_path :: "('k, 'f) mt_env \<Rightarrow> 'f \<Rightarrow> ('k, 'f) MerklePathEntry list \<Rightarrow> ('f, StakeTableError) result" where
  "fold_path env c [] = Ok c"
| "fold_path env c (PathBranch pos siblings # es) =
     (if pos \<le> 2 \<and> length siblings = 2 then
        and_then (ok_or (digest_evaluate env (take pos siblings @ c # drop pos siblings)) RescueError)
          (\<lambda>c'. fold_path env c' es)
      else Panic)"
| "fold_path env c (PathLeaf k v # es) = Err MalformedProof"

definition compute_root :: "('k, 'f) mt_env \<Rightarrow> ('k, 'f) MerkleProof \<Rightarrow> ('f, StakeTableError) result" where
  "compute_root env p =
     (case path p of
        PathLeaf key v # es \<Rightarrow> and_then (leaf_comm env key v) (\<lambda>init. fold_path env init es)
      | _ \<Rightarrow> Err MalformedProof)"

definition proof_verify ::
  "('k, 'f) mt_env \<Rightarrow> ('k, 'f) MerkleProof \<Rightarrow> 'f MerkleCommitment \<Rightarrow> (unit, StakeTableError) result" where
  "proof_verify env p c =
     (if proof_tree_height p \<noteq> height c then Err VerificationError
      else and_then (compute_root env p) (\<lambda>root.
           if root \<noteq> comm c then Err VerificationError else Ok ()))"

fun to_merkle_path :: "nat \<Rightarrow> nat \<Rightarrow> nat list" where
  "to_merkle_path idx 0 = []"
| "to_merkle_path idx (Suc h) = idx mod TREE_BRANCH # to_merkle_path (idx div TREE_BRANCH) h"

definition from_merkle_path :: "nat list \<Rightarrow> nat" where
  "from_merkle_path p = fst (fold (\<lambda>branch (pos, mul). (pos + mul * branch, mul * TREE_BRANCH)) p (0, 1))"

section \<open>Tree operations\<close>

fun commitment :: "('k, 'f) mt_env \<Rightarrow> ('k, 'f) PersistentMerkleNode \<Rightarrow> 'f" where
  "commitment env Empty = field_zero env"
| "commitment env (Branch c ch n t) = c"
| "commitment env (Leaf c k v) = c"

fun num_keys :: "('k, 'f) PersistentMerkleNode \<Rightarrow> nat" where
  "num_keys Empty = 0"
| "num_keys (Branch c ch n t) = n"
| "num_keys (Leaf c k v) = 1"

fun total_stakes :: "('k, 'f) PersistentMerkleNode \<Rightarrow> u256" where
  "total_stakes Empty = 0"
| "total_stakes (Branch c ch n t) = t"
| "total_stakes (Leaf c k v) = v"

fun simple_lookup :: "nat \<Rightarrow> nat list \<Rightarrow> ('k, 'f) PersistentMerkleNode \<Rightarrow> (u256, StakeTableError) result" where
  "simple_lookup h p Empty = Err KeyNotFound"
| "simple_lookup h p (Leaf c k v) = Ok v"
| "simple_lookup 0 p (Branch c ch n t) = Panic"
| "simple_lookup (Suc h) p (Branch c ch n t) =
     and_then (index_at p h) (\<lambda>i. and_then (index_at ch i) (simple_lookup h p))"

fun tree_lookup ::
  "('k, 'f) mt_env \<Rightarrow> nat \<Rightarrow> nat list \<Rightarrow> ('k, 'f) PersistentMerkleNode \<Rightarrow>
   (('k, 'f) MerkleProof, StakeTableError) result" where
  "tree_lookup env h p Empty = Err KeyNotFound"
| "tree_lookup env h p (Leaf c k v) = Ok \<lparr>index = from_merkle_path p, path = [PathLeaf k v]\<rparr>"
| "tree_lookup env 0 p (Branch c ch n t) = Panic"
| "tree_lookup env (Suc h) p (Branch c ch n t) =
     and_then (index_at p h) (\<lambda>pos.
     and_then (index_at ch pos) (\<lambda>child.
     and_then (tree_lookup env h p child) (\<lambda>pr.
     let siblings = map (\<lambda>(i, node). commitment env node) (filter (\<lambda>(i, _). i \<noteq> pos) (enumerate 0 ch))
     in if length siblings = TREE_BRANCH - 1
        then Ok (pr\<lparr>path := path pr @ [PathBranch pos siblings]\<rparr>)
        else Panic)))"

fun key_by_stake :: "('k, 'f) PersistentMerkleNode \<Rightarrow> u256 \<Rightarrow> (('k \<times> u256) option, StakeTableError) result"
  and pick_child :: "('k, 'f) PersistentMerkleNode list \<Rightarrow> u256 \<Rightarrow> (('k \<times> u256) option, StakeTableError) result" where
  "key_by_stake Empty s = Ok None"
| "key_by_stake (Leaf c k v) s = (if v \<le> s then Ok None else Ok (Some (k, v)))"
| "key_by_stake (Branch c ch n t) s = (if t \<le> s then Ok None else pick_child ch s)"
| "pick_child [] s = Panic"
| "pick_child (x # xs) s =
     (if total_stakes x \<le> s then pick_child xs (s - total_stakes x) else key_by_stake x s)"

text \<open>The node over updated children: key count, total (its addition panics on overflow), digest.\<close>

definition mk_branch ::
  "('k, 'f) mt_env \<Rightarrow> ('k, 'f) PersistentMerkleNode list \<Rightarrow> (('k, 'f) PersistentMerkleNode, StakeTableError) result" where
  "mk_branch env ch =
     and_then (u256_sum 0 (map total_stakes ch)) (\<lambda>t.
     and_then (ok_or (digest_evaluate env (map (commitment env) ch)) RescueError) (\<lambda>c.
     Ok (Branch c ch (sum_list (map num_keys ch)) t)))"

fun tree_register ::
  "('k, 'f) mt_env \<Rightarrow> nat \<Rightarrow> nat list \<Rightarrow> 'k \<Rightarrow> u256 \<Rightarrow> ('k, 'f) PersistentMerkleNode \<Rightarrow>
   (('k, 'f) PersistentMerkleNode, StakeTableError) result" where
  "tree_register env 0 p key v node =
     (case node of
        Empty \<Rightarrow> and_then (leaf_comm env key v) (\<lambda>c. Ok (Leaf c key v))
      | _ \<Rightarrow> Err ExistingKey)"
| "tree_register env (Suc h) p key v node =
     (let children = (case node of Branch c ch n t \<Rightarrow> ch | _ \<Rightarrow> replicate TREE_BRANCH Empty)
      in and_then (index_at p h) (\<lambda>i.
         and_then (index_at children i) (\<lambda>child.
         and_then (tree_register env h p key v child) (\<lambda>child'.
         mk_branch env (children[i := child'])))))"

fun tree_update ::
  "('k, 'f) mt_env \<Rightarrow> nat \<Rightarrow> nat list \<Rightarrow> 'k \<Rightarrow> u256 \<Rightarrow> bool \<Rightarrow> ('k, 'f) PersistentMerkleNode \<Rightarrow>
   (('k, 'f) PersistentMerkleNode \<times> u256, StakeTableError) result" where
  "tree_update env h p key delta negative Empty = Err KeyNotFound"
| "tree_update env h p key delta negative (Leaf c node_key old_value) =
     (if key = node_key then
        and_then (if negative then ok_or (u256_checked_sub old_value delta) InsufficientFund
                  else ok_or (u256_checked_add old_value delta) StakeOverflow) (\<lambda>v.
        and_then (leaf_comm env key v) (\<lambda>c. Ok (Leaf c key v, v)))
      else Err MismatchedKey)"
| "tree_update env 0 p key delta negative (Branch c ch n t) = Panic"
| "tree_update env (Suc h) p key delta negative (Branch c ch n t) =
     and_then (index_at p h) (\<lambda>i.
     and_then (index_at ch i) (\<lambda>child.
     and_then (tree_update env h p key delta negative child) (\<lambda>(child', v).
     and_then (mk_branch env (ch[i := child'])) (\<lambda>node. Ok (node, v)))))"

fun tree_set_value ::
  "('k, 'f) mt_env \<Rightarrow> nat \<Rightarrow> nat list \<Rightarrow> 'k \<Rightarrow> u256 \<Rightarrow> ('k, 'f) PersistentMerkleNode \<Rightarrow>
   (('k, 'f) PersistentMerkleNode \<times> u256, StakeTableError) result" where
  "tree_set_value env h p key v Empty = Err KeyNotFound"
| "tree_set_value env h p key v (Leaf c cur_key old_value) =
     (if key = cur_key then and_then (leaf_comm env key v) (\<lambda>c. Ok (Leaf c key v, old_value))
      else Err MismatchedKey)"
| "tree_set_value env 0 p key v (Branch c ch n t) = Panic"
| "tree_set_value env (Suc h) p key v (Branch c ch n t) =
     and_then (index_at p h) (\<lambda>i.
     and_then (index_at ch i) (\<lambda>child.
     and_then (tree_set_value env h p key v child) (\<lambda>(child', old_value).
     if sum_list (map num_keys (ch[i := child'])) = 0 then Ok (Empty, v)
     else and_then (mk_branch env (ch[i := child'])) (\<lambda>node. Ok (node, old_value)))))"

text \<open>
  The iterator.  The stack is listed from its top; \<open>extend\<close> with the reversed children puts
  the first child on top.
\<close>

function iter_next ::
  "('k, 'f) PersistentMerkleNode list \<Rightarrow> ('k \<times> u256) option \<times> ('k, 'f) PersistentMerkleNode list" where
  "iter_next [] = (None, [])"
| "iter_next (Empty # st) = (None, st)"
| "iter_next (Branch c ch n t # st) = iter_next (ch @ st)"
| "iter_next (Leaf c k v # st) = (Some (k, v), st)"
  by pat_completeness auto
termination
  by (relation "measure (size_list size)") (auto simp: size_list_append)

text \<open>What a \<open>for\<close> loop over the iterator visits: it ends at the first \<open>None\<close>.\<close>

lemma iter_next_smaller: "iter_next st = (Some x, st') \<Longrightarrow> size_list size st' < size_list size st"
  by (induction st arbitrary: x st' rule: iter_next.induct) (auto simp: size_list_append)

function iter_collect :: "('k, 'f) PersistentMerkleNode list \<Rightarrow> ('k \<times> u256) list" where
  "iter_collect st = (case iter_next st of (None, _) \<Rightarrow> [] | (Some x, st') \<Rightarrow> x # iter_collect st')"
  by pat_completeness auto
termination
  by (relation "measure (size_list size)") (auto dest!: iter_next_smaller [OF sym])

declare iter_collect.simps [simp del]

section \<open>Packed trees and their entries\<close>

fun packed :: "('k, 'f) mt_env \<Rightarrow> nat \<Rightarrow> nat \<Rightarrow> ('k, 'f) PersistentMerkleNode \<Rightarrow> bool" where
  "packed env h n Empty = (n = 0)"
| "packed env 0 n (Leaf c k v) = (n = 1 \<and> leaf_comm env k v = Ok c)"
| "packed env (Suc h) n (Leaf c k v) = False"
| "packed env 0 n (Branch c ch nk t) = False"
| "packed env (Suc h) n (Branch c ch nk t) =
     (0 < n \<and> n \<le> 3 ^ Suc h \<and> nk = n \<and> t = sum_list (map total_stakes ch) \<and> t < u256_limit \<and>
      digest_evaluate env (map (commitment env) ch) = Some c \<and>
      (case ch of
         [x, y, z] \<Rightarrow> packed env h (min (3 ^ h) n) x \<and> packed env h (min (3 ^ h) (n - 3 ^ h)) y \<and>
                     packed env h (min (3 ^ h) (n - 2 * 3 ^ h)) z
       | _ \<Rightarrow> False))"

fun entries :: "('k, 'f) PersistentMerkleNode \<Rightarrow> ('k \<times> u256) list" where
  "entries Empty = []"
| "entries (Leaf c k v) = [(k, v)]"
| "entries (Branch c ch n t) = concat (map entries ch)"

text \<open>The number of keys below child \<open>i\<close> of a node of height \<open>Suc h\<close> with \<open>n\<close> keys.\<close>

definition child_keys :: "nat \<Rightarrow> nat \<Rightarrow> nat \<Rightarrow> nat" where
  "child_keys h n i = min (3 ^ h) (n - i * 3 ^ h)"

lemma list_of_three: "(case ch of [x, y, z] \<Rightarrow> P x y z | _ \<Rightarrow> False) \<longleftrightarrow> (\<exists>x y z. ch = [x, y, z] \<and> P x y z)"
  by (auto split: list.splits)

lemma length_three: "length ch = 3 \<longleftrightarrow> (\<exists>x y z. ch = [x, y, z])"
  by (auto simp: numeral_3_eq_3 length_Suc_conv)

lemma less_three: "(i :: nat) < 3 \<longleftrightarrow> i = 0 \<or> i = 1 \<or> i = 2"
  by auto

lemma packed_Branch:
  "packed env (Suc h) n (Branch c ch nk t) \<longleftrightarrow>
     0 < n \<and> n \<le> 3 ^ Suc h \<and> nk = n \<and> t = sum_list (map total_stakes ch) \<and> t < u256_limit \<and>
     digest_evaluate env (map (commitment env) ch) = Some c \<and> length ch = 3 \<and>
     (\<forall>i < 3. packed env h (child_keys h n i) (ch ! i))"
  by (auto simp: length_three list_of_three child_keys_def less_three)

declare packed.simps(5) [simp del]

lemma packed_cases:
  assumes "packed env h n t"
  obtains (Empty) "t = Empty" "n = 0"
    | (Leaf) c k v where "t = Leaf c k v" "h = 0" "n = 1" "leaf_comm env k v = Ok c"
    | (Branch) c ch g where "t = Branch c ch n (sum_list (map total_stakes ch))" "h = Suc g"
        "packed env (Suc g) n t"
  using assms
proof (cases t)
  case (Branch c ch nk tot)
  with assms obtain g where "h = Suc g" by (cases h) auto
  with assms Branch that(3) show ?thesis by (auto simp: packed_Branch)
next
  case (Leaf c k v)
  with assms show ?thesis using that(2) by (cases h) auto
qed (use that in auto)

lemma packed_bound: "packed env h n t \<Longrightarrow> n \<le> 3 ^ h"
  by (erule packed_cases) (auto simp: packed_Branch)

lemma packed_num_keys: "packed env h n t \<Longrightarrow> num_keys t = n"
  by (erule packed_cases) auto

lemma packed_zero: "packed env h 0 t \<longleftrightarrow> t = Empty"
  by (cases t; cases h) (auto simp: packed_Branch)

lemma packed_entries:
  "packed env h n t \<Longrightarrow> length (entries t) = n \<and> total_stakes t = sum_list (map snd (entries t))"
proof (induction h arbitrary: n t)
  case 0
  then show ?case by (cases t) auto
next
  case (Suc h)
  show ?case
  proof (cases t)
    case (Branch c ch nk tot)
    with Suc.prems have p: "0 < n" "n \<le> 3 ^ Suc h" "tot = sum_list (map total_stakes ch)" "tot < u256_limit"
      "length ch = 3" "\<And>i. i < 3 \<Longrightarrow> packed env h (child_keys h n i) (ch ! i)"
      by (auto simp: packed_Branch)
    obtain x y z where ch: "ch = [x, y, z]" using p(5) by (auto simp: length_three)
    have ih: "length (entries (ch ! i)) = child_keys h n i \<and> total_stakes (ch ! i) = sum_list (map snd (entries (ch ! i)))"
      if "i < 3" for i using Suc.IH [OF p(6) [OF that]] by simp
    have "child_keys h n 0 + child_keys h n 1 + child_keys h n 2 = n"
      using p(2) by (auto simp: child_keys_def)
    then show ?thesis using ih [of 0] ih [of 1] ih [of 2] p(3,4) Branch ch by simp
  qed (use Suc.prems in auto)
qed

text \<open>Position \<open>j\<close> of a node of height \<open>Suc h\<close> is position \<open>j mod 3 ^ h\<close> of child \<open>j div 3 ^ h\<close>.\<close>

lemma packed_split:
  assumes "packed env (Suc h) n (Branch c ch nk t)" and "j < 3 ^ Suc h"
  shows "j div 3 ^ h < 3" and "length ch = 3"
    and "packed env h (child_keys h n (j div 3 ^ h)) (ch ! (j div 3 ^ h))"
    and "j < n \<longleftrightarrow> j mod 3 ^ h < child_keys h n (j div 3 ^ h)"
    and "\<exists>xs ys. entries (Branch c ch nk t) = xs @ entries (ch ! (j div 3 ^ h)) @ ys \<and>
           (j \<le> n \<longrightarrow> length xs = j div 3 ^ h * 3 ^ h) \<and>
           (\<forall>child'. entries (Branch c (ch[j div 3 ^ h := child']) nk t) = xs @ entries child' @ ys) \<and>
           (n \<le> j \<longrightarrow> ys = [])"
proof -
  let ?q = "3 ^ h :: nat"
  have q: "0 < ?q" by simp
  define r where "r = j mod ?q"
  have j: "j = j div ?q * ?q + r" "r < ?q" by (simp_all only: r_def div_mult_mod_eq) simp
  show i3: "j div ?q < 3" using assms(2) by (simp add: less_mult_imp_div_less)
  from assms(1) show len: "length ch = 3" by (simp add: packed_Branch)
  have pk: "packed env h (child_keys h n i) (ch ! i)" if "i < 3" for i
    using assms(1) that by (simp add: packed_Branch)
  show "packed env h (child_keys h n (j div ?q)) (ch ! (j div ?q))" using pk [OF i3] .
  show lt: "j < n \<longleftrightarrow> j mod ?q < child_keys h n (j div ?q)"
    using j(2) unfolding r_def [symmetric] child_keys_def by (subst j(1)) linarith
  have lens: "length (entries (ch ! i)) = child_keys h n i" if "i < 3" for i
    using packed_entries [OF pk [OF that]] by simp
  obtain x y z where ch: "ch = [x, y, z]" using len by (auto simp: length_three)
  have nb: "n \<le> 3 * ?q" using assms(1) by (simp add: packed_Branch)
  consider "j div ?q = 0" | "j div ?q = 1" | "j div ?q = 2" using i3 by linarith
  then show "\<exists>xs ys. entries (Branch c ch nk t) = xs @ entries (ch ! (j div ?q)) @ ys \<and>
           (j \<le> n \<longrightarrow> length xs = j div ?q * ?q) \<and>
           (\<forall>child'. entries (Branch c (ch[j div ?q := child']) nk t) = xs @ entries child' @ ys) \<and>
           (n \<le> j \<longrightarrow> ys = [])"
  proof cases
    case 1
    then have "j = 0 * ?q + r" using j(1) by (simp only:)
    then have "j < ?q" using j(2) by simp
    then have "n \<le> j \<Longrightarrow> entries y @ entries z = []"
      using lens [of 1] lens [of 2] ch by (simp add: child_keys_def)
    then show ?thesis using 1 ch by (intro exI [of _ "[]"] exI [of _ "entries y @ entries z"]) auto
  next
    case 2
    then have "j = 1 * ?q + r" using j(1) by (simp only:)
    then have "?q \<le> j" "j < 2 * ?q" using j(2) by simp_all
    then have "n \<le> j \<Longrightarrow> entries z = []" "j \<le> n \<Longrightarrow> length (entries x) = ?q"
      using lens [of 0] lens [of 2] ch by (simp_all add: child_keys_def)
    then show ?thesis using 2 ch by (intro exI [of _ "entries x"] exI [of _ "entries z"]) auto
  next
    case 3
    then have "j = 2 * ?q + r" using j(1) by (simp only:)
    then have "2 * ?q \<le> j" by simp
    then have "j \<le> n \<Longrightarrow> length (entries x) = ?q \<and> length (entries y) = ?q"
      using lens [of 0] lens [of 1] ch by (simp add: child_keys_def)
    then show ?thesis using 3 ch by (intro exI [of _ "entries x @ entries y"] exI [of _ "[]"]) (auto simp: numeral_2_eq_2)
  qed
qed

lemma nth_entries_split:
  assumes "packed env (Suc h) n (Branch c ch nk t)" and "j < n"
  shows "entries (Branch c ch nk t) ! j = entries (ch ! (j div 3 ^ h)) ! (j mod 3 ^ h)"
proof -
  have j3: "j < 3 ^ Suc h" using packed_bound [OF assms(1)] assms(2) by simp
  note sp = packed_split [OF assms(1) j3]
  obtain xs ys where e: "entries (Branch c ch nk t) = xs @ entries (ch ! (j div 3 ^ h)) @ ys"
    "length xs = j div 3 ^ h * 3 ^ h" using sp(5) assms(2) by auto
  have "j mod 3 ^ h < length (entries (ch ! (j div 3 ^ h)))"
    using packed_entries [OF sp(3)] sp(4) assms(2) by simp
  then have "(xs @ entries (ch ! (j div 3 ^ h)) @ ys) ! (length xs + j mod 3 ^ h) =
      entries (ch ! (j div 3 ^ h)) ! (j mod 3 ^ h)"
    by (simp add: nth_append)
  moreover have "length xs + j mod 3 ^ h = j" by (simp only: e(2) div_mult_mod_eq)
  ultimately show ?thesis using e(1) by simp
qed

text \<open>Replacing the child that holds position \<open>j\<close>.\<close>

lemma packed_replace:
  assumes "packed env (Suc h) n (Branch c ch nk t)" and "j < n"
    and "packed env h (child_keys h n (j div 3 ^ h)) child'"
    and "entries child' = (entries (ch ! (j div 3 ^ h)))[j mod 3 ^ h := e]"
    and "mk_branch env (ch[j div 3 ^ h := child']) = Ok t'"
  shows "packed env (Suc h) n t' \<and> entries t' = (entries (Branch c ch nk t))[j := e]"
proof -
  have j3: "j < 3 ^ Suc h" using packed_bound [OF assms(1)] assms(2) by simp
  note sp = packed_split [OF assms(1) j3]
  let ?i = "j div 3 ^ h" and ?ch = "ch[j div 3 ^ h := child']"
  obtain c' where t': "t' = Branch c' ?ch (sum_list (map num_keys ?ch)) (sum_list (map total_stakes ?ch))"
    "digest_evaluate env (map (commitment env) ?ch) = Some c'" "sum_list (map total_stakes ?ch) < u256_limit"
    using assms(5) by (auto simp: mk_branch_def result_simps)
  have kid: "packed env h (child_keys h n i) (?ch ! i)" if "i < 3" for i
    using assms(1,3) that sp(2) by (cases "i = ?i") (auto simp: packed_Branch)
  have n3: "0 < n" "n \<le> 3 ^ Suc h" using assms(1) by (auto simp: packed_Branch)
  obtain x y z where ch': "?ch = [x, y, z]"
    using length_three [of ?ch] sp(2) by auto
  have "sum_list (map num_keys ?ch) = child_keys h n 0 + child_keys h n 1 + child_keys h n 2"
    using packed_num_keys [OF kid [of 0]] packed_num_keys [OF kid [of 1]] packed_num_keys [OF kid [of 2]] ch' by simp
  also have "\<dots> = n" using n3 by (auto simp: child_keys_def)
  finally have nk: "sum_list (map num_keys ?ch) = n" .
  have "packed env (Suc h) n t'"
    using t' nk n3 kid sp(2) by (auto simp: packed_Branch)
  moreover have "entries t' = (entries (Branch c ch nk t))[j := e]"
  proof -
    obtain xs ys where e: "entries (Branch c ch nk t) = xs @ entries (ch ! ?i) @ ys" "length xs = ?i * 3 ^ h"
      "\<And>child'. entries (Branch c (ch[?i := child']) nk t) = xs @ entries child' @ ys"
      using sp(5) assms(2) by auto
    have "j mod 3 ^ h < length (entries (ch ! ?i))"
      using packed_entries [OF sp(3)] sp(4) assms(2) by simp
    then have "(xs @ entries (ch ! ?i) @ ys)[length xs + j mod 3 ^ h := e] =
        xs @ (entries (ch ! ?i))[j mod 3 ^ h := e] @ ys"
      by (simp add: list_update_append)
    moreover have "length xs + j mod 3 ^ h = j" by (simp only: e(2) div_mult_mod_eq)
    ultimately have "(xs @ entries (ch ! ?i) @ ys)[j := e] = xs @ (entries (ch ! ?i))[j mod 3 ^ h := e] @ ys"
      by simp
    then show ?thesis using e assms(4) t'(1) e(3) [of child'] by simp
  qed
  ultimately show ?thesis by simp
qed

section \<open>Paths\<close>

definition path_for :: "nat \<Rightarrow> nat list \<Rightarrow> nat \<Rightarrow> bool" where
  "path_for h p j \<longleftrightarrow> h \<le> length p \<and> (\<forall>k < h. p ! k = (j div 3 ^ k) mod 3)"

lemma to_merkle_path_nth:
  "length (to_merkle_path i h) = h \<and> (\<forall>k < h. to_merkle_path i h ! k = (i div 3 ^ k) mod 3)"
proof (induction h arbitrary: i)
  case (Suc h)
  have "(i div 3) div 3 ^ k = i div (3 * 3 ^ k)" for k by (simp add: div_mult2_eq)
  with Suc [of "i div 3"] show ?case
    by (auto simp: TREE_BRANCH_def nth_Cons split: nat.splits)
qed simp

lemma path_for_to_merkle_path: "path_for h (to_merkle_path j h) j"
  using to_merkle_path_nth by (simp add: path_for_def)

lemma mod_power_digit:
  assumes "k < h" shows "(j mod 3 ^ h) div 3 ^ k mod 3 = j div 3 ^ k mod (3 :: nat)"
proof -
  obtain d where d: "h = k + Suc d" using assms less_imp_Suc_add by (metis add_Suc_right)
  have "j mod 3 ^ h = 3 ^ k * (j div 3 ^ k mod 3 ^ Suc d) + j mod 3 ^ k"
    unfolding d power_add by (rule mod_mult2_eq)
  then have "(j mod 3 ^ h) div 3 ^ k = j div 3 ^ k mod 3 ^ Suc d" by simp
  then show ?thesis by (simp add: mod_mod_cancel)
qed

lemma path_for_step:
  assumes "path_for (Suc h) p j" and "j < 3 ^ Suc h"
  shows "h < length p \<and> p ! h = j div 3 ^ h" and "path_for h p (j mod 3 ^ h)"
proof -
  have "j div 3 ^ h < 3" using assms(2) by (simp add: less_mult_imp_div_less)
  then show "h < length p \<and> p ! h = j div 3 ^ h" using assms(1) by (simp add: path_for_def)
  show "path_for h p (j mod 3 ^ h)" using assms(1) by (auto simp: path_for_def mod_power_digit)
qed

lemma fold_merkle_path:
  "fold (\<lambda>branch (pos, mul). (pos + mul * branch, mul * TREE_BRANCH)) (to_merkle_path i h) (a, m) =
     (a + m * (i mod 3 ^ h), m * 3 ^ h)"
proof (induction h arbitrary: i a m)
  case (Suc h)
  have "i mod (3 * 3 ^ h) = 3 * (i div 3 mod 3 ^ h) + i mod 3" by (rule mod_mult2_eq)
  then have "a + m * (i mod 3) + m * 3 * (i div 3 mod 3 ^ h) = a + m * (i mod (3 * 3 ^ h))"
    by (simp add: algebra_simps del: mod_mult2_eq)
  then show ?case using Suc [of "i div 3" "a + m * (i mod 3)" "m * 3"] by (simp add: TREE_BRANCH_def)
qed simp

lemma from_to_merkle_path: "from_merkle_path (to_merkle_path i h) = i mod 3 ^ h"
  by (simp add: from_merkle_path_def fold_merkle_path)

section \<open>The tree operations on entries\<close>

lemma simple_lookup_packed:
  "packed env h n t \<Longrightarrow> path_for h p j \<Longrightarrow> j < 3 ^ h \<Longrightarrow>
   simple_lookup h p t = (if j < n then Ok (snd (entries t ! j)) else Err KeyNotFound)"
proof (induction h arbitrary: n t j)
  case 0
  then show ?case by (cases t) auto
next
  case (Suc h)
  show ?case
  proof (cases t)
    case (Branch c ch nk tot)
    note sp = packed_split [OF Suc.prems(1) [unfolded Branch] Suc.prems(3)]
    have "simple_lookup h p (ch ! (j div 3 ^ h)) =
        (if j mod 3 ^ h < child_keys h n (j div 3 ^ h) then Ok (snd (entries (ch ! (j div 3 ^ h)) ! (j mod 3 ^ h)))
         else Err KeyNotFound)"
      by (rule Suc.IH [OF sp(3) path_for_step(2) [OF Suc.prems(2,3)]]) simp
    then show ?thesis
      using Branch sp(1,2,4) path_for_step(1) [OF Suc.prems(2,3)]
        nth_entries_split [OF Suc.prems(1) [unfolded Branch]]
      by (simp add: index_at_def)
  qed (use Suc.prems in auto)
qed

lemma child_keys_cases:
  "r \<le> 3 ^ h \<Longrightarrow> child_keys h (i * 3 ^ h + r) k = (if k < i then 3 ^ h else if k = i then r else 0)"
proof -
  assume r: "r \<le> 3 ^ h"
  show ?thesis
  proof (cases k i rule: linorder_cases)
    case less
    then obtain d where "i = Suc (k + d)" using less_imp_Suc_add by blast
    then show ?thesis by (simp add: child_keys_def algebra_simps)
  next
    case greater
    then obtain d where "k = Suc (i + d)" using less_imp_Suc_add by blast
    then show ?thesis using r greater by (simp add: child_keys_def algebra_simps)
  qed (use r in \<open>simp add: child_keys_def\<close>)
qed

text \<open>The children a registration starts from.\<close>

definition kids :: "('k, 'f) PersistentMerkleNode \<Rightarrow> ('k, 'f) PersistentMerkleNode list" where
  "kids node = (case node of Branch c ch n t \<Rightarrow> ch | _ \<Rightarrow> replicate TREE_BRANCH Empty)"

lemma replicate_TREE_BRANCH: "replicate TREE_BRANCH x = [x, x, x]"
  by (simp add: TREE_BRANCH_def numeral_3_eq_3)

lemma packed_kids:
  assumes "packed env (Suc h) n t"
  shows "length (kids t) = 3" and "i < 3 \<Longrightarrow> packed env h (child_keys h n i) (kids t ! i)"
    and "entries t = concat (map entries (kids t))"
proof -
  have "length (kids t) = 3 \<and> (\<forall>i < 3. packed env h (child_keys h n i) (kids t ! i)) \<and>
      entries t = concat (map entries (kids t))"
  proof (cases t)
    case Empty
    then have "kids t ! i = Empty" if "i < 3" for i
      using that by (auto simp: kids_def replicate_TREE_BRANCH less_three)
    then show ?thesis using assms Empty by (simp add: kids_def replicate_TREE_BRANCH child_keys_def)
  qed (use assms in \<open>simp_all add: kids_def packed_Branch\<close>)
  then show "length (kids t) = 3" and "i < 3 \<Longrightarrow> packed env h (child_keys h n i) (kids t ! i)"
    and "entries t = concat (map entries (kids t))" by simp_all
qed

lemma tree_register_packed:
  "packed env h n t \<Longrightarrow> n < 3 ^ h \<Longrightarrow> path_for h p n \<Longrightarrow>
   tree_register env h p key v t = Ok t' \<Longrightarrow>
   packed env h (Suc n) t' \<and> entries t' = entries t @ [(key, v)]"
proof (induction h arbitrary: n t t')
  case 0
  then show ?case by (auto simp: packed_zero result_simps)
next
  case (Suc h)
  let ?q = "3 ^ h :: nat" and ?i = "n div 3 ^ h" and ?r = "n mod 3 ^ h"
  note pk = packed_kids [OF Suc.prems(1)]
  have i3: "?i < 3" using Suc.prems(2) by (simp add: less_mult_imp_div_less)
  have n: "n = ?i * ?q + ?r" "Suc n = ?i * ?q + Suc ?r" "?r < ?q" by (simp_all only: div_mult_mod_eq add_Suc_right) simp
  have ck: "child_keys h n k = (if k < ?i then ?q else if k = ?i then ?r else 0)" for k
    using child_keys_cases [of ?r h ?i k] n(3) by (simp only: n(1) [symmetric] less_imp_le)
  have ck': "child_keys h (Suc n) k = (if k < ?i then ?q else if k = ?i then Suc ?r else 0)" for k
    using child_keys_cases [of "Suc ?r" h ?i k] n(3) by (simp only: n(2) [symmetric] Suc_le_eq)
  obtain child' c where child': "tree_register env h p key v (kids t ! ?i) = Ok child'"
    and t': "t' = Branch c ((kids t)[?i := child']) (sum_list (map num_keys ((kids t)[?i := child'])))
        (sum_list (map total_stakes ((kids t)[?i := child'])))"
    and dg: "digest_evaluate env (map (commitment env) ((kids t)[?i := child'])) = Some c"
    and lim: "sum_list (map total_stakes ((kids t)[?i := child'])) < u256_limit"
    using Suc.prems(4) pk(1) i3 path_for_step(1) [OF Suc.prems(3,2)]
    by (auto simp: kids_def [symmetric] Let_def index_at_def mk_branch_def result_simps)
  have ih: "packed env h (Suc ?r) child' \<and> entries child' = entries (kids t ! ?i) @ [(key, v)]"
    using Suc.IH [OF _ n(3) path_for_step(2) [OF Suc.prems(3,2)] child'] pk(2) [OF i3] ck by simp
  have kid: "packed env h (child_keys h (Suc n) k) ((kids t)[?i := child'] ! k)" if "k < 3" for k
    using pk(1) pk(2) [OF that] ih that by (cases "k = ?i") (auto simp: ck ck')
  have "sum_list (map num_keys ((kids t)[?i := child'])) = Suc n \<and> entries t' = entries t @ [(key, v)]"
  proof -
    obtain x y z where xyz: "kids t = [x, y, z]" using pk(1) by (auto simp: length_three)
    have "entries w = []" if "packed env h 0 w" for w using that by (simp add: packed_zero)
    then have rest: "?i < 1 \<Longrightarrow> entries y = []" "?i < 2 \<Longrightarrow> entries z = []"
      using pk(2) [of 1] pk(2) [of 2] xyz by (auto simp: ck)
    note nk = packed_num_keys [OF kid [of 0]] packed_num_keys [OF kid [of 1]] packed_num_keys [OF kid [of 2]]
    consider "?i = 0" | "?i = 1" | "?i = 2" using i3 by linarith
    then show ?thesis
      using rest ih n(2) nk xyz pk(3) t' by cases (auto simp: ck')
  qed
  then show ?case
    using t' kid pk(1) dg lim Suc.prems(2) by (auto simp: packed_Branch)
qed

text \<open>A registration in a full tree goes to an occupied leaf and is refused.\<close>

lemma tree_register_occupied:
  "packed env h n t \<Longrightarrow> path_for h p j \<Longrightarrow> j < n \<Longrightarrow> tree_register env h p key v t = Err ExistingKey"
proof (induction h arbitrary: n t j)
  case 0
  then show ?case by (cases t) auto
next
  case (Suc h)
  have j3: "j < 3 ^ Suc h" using packed_bound [OF Suc.prems(1)] Suc.prems(3) by simp
  show ?case
  proof (cases t)
    case (Branch c ch nk tot)
    note sp = packed_split [OF Suc.prems(1) [unfolded Branch] j3]
    have "tree_register env h p key v (ch ! (j div 3 ^ h)) = Err ExistingKey"
      by (rule Suc.IH [OF sp(3) path_for_step(2) [OF Suc.prems(2) j3]]) (use sp(4) Suc.prems(3) in blast)
    then show ?thesis
      using Branch sp(1,2) path_for_step(1) [OF Suc.prems(2) j3] by (simp add: index_at_def)
  qed (use Suc.prems in auto)
qed

lemma tree_update_packed:
  "packed env h n t \<Longrightarrow> path_for h p j \<Longrightarrow> j < 3 ^ h \<Longrightarrow> tree_update env h p key d neg t = Ok (t', v) \<Longrightarrow>
   j < n \<and> (\<exists>old. entries t ! j = (key, old) \<and> (if neg then d \<le> old \<and> v = old - d else v = old + d)) \<and>
   packed env h n t' \<and> entries t' = (entries t)[j := (key, v)]"
proof (induction h arbitrary: n t t' j)
  case 0
  then show ?case
    by (cases t) (auto simp: result_simps u256_checked_sub_def u256_checked_add_def split: if_splits)
next
  case (Suc h)
  show ?case
  proof (cases t)
    case (Branch c ch nk tot)
    note pk = Suc.prems(1) [unfolded Branch]
    note sp = packed_split [OF pk Suc.prems(3)]
    obtain child' where child': "tree_update env h p key d neg (ch ! (j div 3 ^ h)) = Ok (child', v)"
      and mk: "mk_branch env (ch[j div 3 ^ h := child']) = Ok t'"
      using Suc.prems(4) Branch sp(1,2) path_for_step(1) [OF Suc.prems(2,3)]
      by (auto simp: index_at_def result_simps)
    have ih: "j mod 3 ^ h < child_keys h n (j div 3 ^ h) \<and>
        (\<exists>old. entries (ch ! (j div 3 ^ h)) ! (j mod 3 ^ h) = (key, old) \<and>
           (if neg then d \<le> old \<and> v = old - d else v = old + d)) \<and>
        packed env h (child_keys h n (j div 3 ^ h)) child' \<and>
        entries child' = (entries (ch ! (j div 3 ^ h)))[j mod 3 ^ h := (key, v)]"
      by (rule Suc.IH [OF sp(3) path_for_step(2) [OF Suc.prems(2,3)] _ child']) simp
    then have jn: "j < n" using sp(4) by simp
    show ?thesis
      using packed_replace [OF pk jn _ _ mk] ih nth_entries_split [OF pk jn] jn Branch by simp
  qed (use Suc.prems in auto)
qed

lemma tree_set_value_packed:
  "packed env h n t \<Longrightarrow> path_for h p j \<Longrightarrow> j < 3 ^ h \<Longrightarrow>
   tree_set_value env h p key v t = Ok (t', old) \<Longrightarrow>
   j < n \<and> entries t ! j = (key, old) \<and> packed env h n t' \<and> entries t' = (entries t)[j := (key, v)]"
proof (induction h arbitrary: n t t' j old)
  case 0
  then show ?case by (cases t) (auto simp: result_simps split: if_splits)
next
  case (Suc h)
  show ?case
  proof (cases t)
    case (Branch c ch nk tot)
    note pk = Suc.prems(1) [unfolded Branch]
    note sp = packed_split [OF pk Suc.prems(3)]
    obtain child' old' where child': "tree_set_value env h p key v (ch ! (j div 3 ^ h)) = Ok (child', old')"
      and res: "(if sum_list (map num_keys (ch[j div 3 ^ h := child'])) = 0 then Ok (Empty, v)
         else and_then (mk_branch env (ch[j div 3 ^ h := child'])) (\<lambda>node. Ok (node, old'))) = Ok (t', old)"
      using Suc.prems(4) Branch sp(1,2) path_for_step(1) [OF Suc.prems(2,3)]
      by (auto simp: index_at_def and_then_eq_Ok simp del: sum_list_eq_0_iff)
    have ih: "j mod 3 ^ h < child_keys h n (j div 3 ^ h) \<and>
        entries (ch ! (j div 3 ^ h)) ! (j mod 3 ^ h) = (key, old') \<and>
        packed env h (child_keys h n (j div 3 ^ h)) child' \<and>
        entries child' = (entries (ch ! (j div 3 ^ h)))[j mod 3 ^ h := (key, v)]"
      by (rule Suc.IH [OF sp(3) path_for_step(2) [OF Suc.prems(2,3)] _ child']) simp
    then have jn: "j < n" using sp(4) by simp
    have "num_keys child' \<noteq> 0" using ih packed_num_keys by fastforce
    moreover have "child' \<in> set (ch[j div 3 ^ h := child'])" using sp(1,2) by (simp add: set_update_memI)
    ultimately have "sum_list (map num_keys (ch[j div 3 ^ h := child'])) \<noteq> 0"
      by (auto simp: sum_list_eq_0_iff)
    with res have mk: "mk_branch env (ch[j div 3 ^ h := child']) = Ok t'" and "old' = old"
      by (auto simp: result_simps simp del: sum_list_eq_0_iff)
    then show ?thesis
      using packed_replace [OF pk jn _ _ mk] ih nth_entries_split [OF pk jn] jn Branch by simp
  qed (use Suc.prems in auto)
qed

section \<open>Iteration\<close>

function gapfree :: "('k, 'f) PersistentMerkleNode list \<Rightarrow> bool" where
  "gapfree [] = True"
| "gapfree (Empty # st) = (\<forall>x \<in> set st. entries x = [])"
| "gapfree (Branch c ch n t # st) = gapfree (ch @ st)"
| "gapfree (Leaf c k v # st) = gapfree st"
  by pat_completeness auto
termination
  by (relation "measure (size_list size)") (auto simp: size_list_append)

lemma iter_collect_unfold:
  "iter_collect [] = []"
  "iter_collect (Empty # st) = []"
  "iter_collect (Branch c ch n t # st) = iter_collect (ch @ st)"
  "iter_collect (Leaf c k v # st) = (k, v) # iter_collect st"
  by (simp_all add: iter_collect.simps [of "[]"] iter_collect.simps [of "Empty # st"]
      iter_collect.simps [of "Branch c ch n t # st"] iter_collect.simps [of "Leaf c k v # st"]
      iter_collect.simps [of "ch @ st"])

lemma iter_collect_gapfree: "gapfree st \<Longrightarrow> iter_collect st = concat (map entries st)"
  by (induction st rule: gapfree.induct) (auto simp: iter_collect_unfold)

lemma packed_gapfree:
  "packed env h n t \<Longrightarrow> (n = 3 ^ h \<longrightarrow> gapfree st) \<Longrightarrow> (n < 3 ^ h \<longrightarrow> (\<forall>x \<in> set st. entries x = [])) \<Longrightarrow>
   gapfree (t # st)"
proof (induction h arbitrary: n t st)
  case 0
  then show ?case by (cases t) auto
next
  case (Suc h)
  show ?case
  proof (cases t)
    case (Branch c ch nk tot)
    obtain x y z where ch: "ch = [x, y, z]" using Suc.prems(1) Branch by (auto simp: packed_Branch length_three)
    have pk: "packed env h (child_keys h n 0) x" "packed env h (child_keys h n 1) y" "packed env h (child_keys h n 2) z"
      and n3: "n \<le> 3 * 3 ^ h"
      using Suc.prems(1) Branch ch by (auto simp: packed_Branch less_three)
    have gz: "gapfree (z # st)"
      by (rule Suc.IH [OF pk(3)]) (use Suc.prems(2,3) n3 in \<open>auto simp: child_keys_def min_def split: if_splits\<close>)
    have z0: "entries z = []" if "n \<le> 2 * 3 ^ h"
      using packed_entries [OF pk(3)] that by (simp add: child_keys_def)
    have y0: "entries y = []" if "n \<le> 3 ^ h"
      using packed_entries [OF pk(2)] that by (simp add: child_keys_def)
    have gy: "gapfree (y # z # st)"
      by (rule Suc.IH [OF pk(2)])
        (use gz z0 Suc.prems(3) in \<open>auto simp: child_keys_def min_def split: if_splits\<close>)
    have "gapfree (x # y # z # st)"
      by (rule Suc.IH [OF pk(1)])
        (use gy y0 z0 Suc.prems(3) in \<open>auto simp: child_keys_def min_def split: if_splits\<close>)
    then show ?thesis using Branch ch by simp
  qed (use Suc.prems in auto)
qed

lemma iter_collect_packed: "packed env h n t \<Longrightarrow> iter_collect [t] = entries t"
  using iter_collect_gapfree [OF packed_gapfree [of env h n t "[]"]] by simp

section \<open>Selecting a key by stake\<close>

fun pick_entry :: "('k \<times> u256) list \<Rightarrow> u256 \<Rightarrow> ('k \<times> u256) option" where
  "pick_entry [] s = None"
| "pick_entry ((k, v) # es) s = (if v \<le> s then pick_entry es (s - v) else Some (k, v))"

lemma pick_entry_append:
  "pick_entry (xs @ ys) s =
     (if sum_list (map snd xs) \<le> s then pick_entry ys (s - sum_list (map snd xs)) else pick_entry xs s)"
  by (induction xs s rule: pick_entry.induct) auto

lemma pick_entry_None: "pick_entry es s = None \<longleftrightarrow> sum_list (map snd es) \<le> s"
  by (induction es s rule: pick_entry.induct) auto

lemma key_by_stake_packed: "packed env h n t \<Longrightarrow> key_by_stake t s = Ok (pick_entry (entries t) s)"
proof (induction h arbitrary: n t s)
  case 0
  then show ?case by (cases t) auto
next
  case (Suc h)
  show ?case
  proof (cases t)
    case (Branch c ch nk tot)
    obtain x y z where ch: "ch = [x, y, z]" using Suc.prems(1) Branch by (auto simp: packed_Branch length_three)
    have pk: "packed env h (child_keys h n 0) x" "packed env h (child_keys h n 1) y" "packed env h (child_keys h n 2) z"
      and tot: "tot = total_stakes x + total_stakes y + total_stakes z"
      using Suc.prems(1) Branch ch by (auto simp: packed_Branch less_three)
    note es = packed_entries [OF pk(1)] packed_entries [OF pk(2)] packed_entries [OF pk(3)]
    show ?thesis
    proof (cases "tot \<le> s")
      case True
      then have "pick_entry (entries t) s = None"
        using Branch ch tot es by (simp add: pick_entry_None)
      then show ?thesis using True Branch by simp
    next
      case False
      then show ?thesis
        using Branch ch tot es Suc.IH [OF pk(1)] Suc.IH [OF pk(2)] Suc.IH [OF pk(3)]
        by (auto simp: pick_entry_append)
    qed
  qed (use Suc.prems in auto)
qed

section \<open>Membership proofs\<close>

lemma fold_path_append:
  "fold_path env c (es @ es') = and_then (fold_path env c es) (\<lambda>c'. fold_path env c' es')"
  by (induction env c es rule: fold_path.induct) (auto simp: and_then_assoc)

lemma tree_lookup_packed:
  "packed env h n t \<Longrightarrow> path_for h p j \<Longrightarrow> j < n \<Longrightarrow>
   \<exists>es k v c. tree_lookup env h p t = Ok \<lparr>index = from_merkle_path p, path = PathLeaf k v # es\<rparr> \<and>
     entries t ! j = (k, v) \<and> length es = h \<and> leaf_comm env k v = Ok c \<and>
     fold_path env c es = Ok (commitment env t)"
proof (induction h arbitrary: n t j)
  case 0
  then show ?case by (cases t) auto
next
  case (Suc h)
  have j3: "j < 3 ^ Suc h" using packed_bound [OF Suc.prems(1)] Suc.prems(3) by simp
  show ?case
  proof (cases t)
    case (Branch c ch nk tot)
    note pk = Suc.prems(1) [unfolded Branch]
    note sp = packed_split [OF pk j3] and st = path_for_step [OF Suc.prems(2) j3]
    let ?i = "j div 3 ^ h"
    obtain es k v c' where ih: "tree_lookup env h p (ch ! ?i) = Ok \<lparr>index = from_merkle_path p, path = PathLeaf k v # es\<rparr>"
      "entries (ch ! ?i) ! (j mod 3 ^ h) = (k, v)" "length es = h" "leaf_comm env k v = Ok c'"
      "fold_path env c' es = Ok (commitment env (ch ! ?i))"
      using Suc.IH [OF sp(3) st(2)] sp(4) Suc.prems(3) by auto
    define sib where "sib = map (\<lambda>(i, node). commitment env node) (filter (\<lambda>(i, _). i \<noteq> ?i) (enumerate 0 ch))"
    have sib: "length sib = 2" "take ?i sib @ commitment env (ch ! ?i) # drop ?i sib = map (commitment env) ch"
      using sp(1,2) by (auto simp: sib_def length_three less_three)
    have "tree_lookup env (Suc h) p t =
        Ok \<lparr>index = from_merkle_path p, path = PathLeaf k v # (es @ [PathBranch ?i sib])\<rparr>"
      using Branch ih(1) st(1) sp(1,2) sib(1) [unfolded sib_def]
      by (simp add: index_at_def sib_def TREE_BRANCH_def Let_def)
    moreover have "fold_path env c' (es @ [PathBranch ?i sib]) = Ok (commitment env t)"
      using ih(5) sib sp(1) pk Branch by (simp add: fold_path_append packed_Branch)
    ultimately show ?thesis
      using ih(2,3,4) nth_entries_split [OF pk Suc.prems(3)] Branch by (intro exI conjI) auto
  qed (use Suc.prems in auto)
qed

lemma tree_lookup_absent:
  "packed env h n t \<Longrightarrow> path_for h p j \<Longrightarrow> j < 3 ^ h \<Longrightarrow> \<not> j < n \<Longrightarrow> tree_lookup env' h p t = Err KeyNotFound"
proof (induction h arbitrary: n t j)
  case 0
  then show ?case by (cases t) auto
next
  case (Suc h)
  show ?case
  proof (cases t)
    case (Branch c ch nk tot)
    note sp = packed_split [OF Suc.prems(1) [unfolded Branch] Suc.prems(3)]
    have "tree_lookup env' h p (ch ! (j div 3 ^ h)) = Err KeyNotFound"
      by (rule Suc.IH [OF sp(3) path_for_step(2) [OF Suc.prems(2,3)]]) (use sp(4) Suc.prems(4) in simp_all)
    then show ?thesis
      using Branch sp(1,2) path_for_step(1) [OF Suc.prems(2,3)] by (simp add: index_at_def)
  qed (use Suc.prems in auto)
qed

text \<open>
  Soundness.  The hash is taken to be free of collisions and never zero, zero being the
  commitment of the empty tree.
\<close>

definition collision_free :: "('k, 'f) mt_env \<Rightarrow> bool" where
  "collision_free env \<longleftrightarrow>
     (\<forall>xs ys c. digest_evaluate env xs = Some c \<longrightarrow> digest_evaluate env ys = Some c \<longrightarrow> xs = ys) \<and>
     (\<forall>xs. digest_evaluate env xs \<noteq> Some (field_zero env))"

lemma proof_verify_eq_Ok:
  "proof_verify env pr c = Ok u \<longleftrightarrow> proof_tree_height pr = height c \<and> compute_root env pr = Ok (comm c)"
  by (auto simp: proof_verify_def result_simps)

lemma compute_root_eq_Ok:
  "compute_root env pr = Ok r \<longleftrightarrow>
     (\<exists>k v es d. path pr = PathLeaf k v # es \<and> leaf_comm env k v = Ok d \<and> fold_path env d es = Ok r)"
proof (cases "path pr")
  case (Cons e es)
  then show ?thesis by (cases e) (auto simp: compute_root_def result_simps)
qed (simp add: compute_root_def)

lemma leaf_comm_nonzero: "collision_free env \<Longrightarrow> leaf_comm env k v \<noteq> Ok (field_zero env)"
  by (auto simp: leaf_comm_def collision_free_def Let_def result_simps split: if_splits)

lemma leaf_comm_inj:
  assumes "collision_free env" and "key_SIZE env \<le> 2" and "leaf_comm env k v = Ok d" and "leaf_comm env k' v' = Ok d"
  shows "key_to_fields env k' = key_to_fields env k \<and>
    u256_to_field (field_from_le_bytes env) v' = u256_to_field (field_from_le_bytes env) v"
proof -
  let ?in = "\<lambda>k v. (key_to_fields env k @ replicate (3 - key_SIZE env) (field_zero env))
      [2 := u256_to_field (field_from_le_bytes env) v]"
  have len: "length (key_to_fields env k) = key_SIZE env" "length (key_to_fields env k') = key_SIZE env"
    using assms(3,4) by (auto simp: leaf_comm_def Let_def split: if_splits)
  have eq: "?in k v = ?in k' v'"
    using assms(1,3,4) by (auto simp: leaf_comm_def Let_def result_simps collision_free_def split: if_splits)
  have "?in k v ! 2 = u256_to_field (field_from_le_bytes env) v" "?in k' v' ! 2 = u256_to_field (field_from_le_bytes env) v'"
    using len assms(2) by simp_all
  moreover have "take (key_SIZE env) (?in k v) = key_to_fields env k" "take (key_SIZE env) (?in k' v') = key_to_fields env k'"
    using len assms(2) by simp_all
  ultimately show ?thesis using eq by metis
qed

lemma fold_path_sound:
  assumes "collision_free env"
  shows "packed env h n t \<Longrightarrow> leaf_comm env k v = Ok c \<Longrightarrow> length es = h \<Longrightarrow>
   fold_path env c es = Ok (commitment env t) \<Longrightarrow>
   \<exists>(k', v') \<in> set (entries t). leaf_comm env k' v' = leaf_comm env k v"
proof (induction h arbitrary: n t es)
  case 0
  then show ?case using leaf_comm_nonzero [OF assms, of k v] by (cases t) auto
next
  case (Suc h)
  obtain es' e where es: "es = es' @ [e]" "length es' = h"
    using Suc.prems(3) by (metis length_Suc_conv_rev)
  obtain c' where c': "fold_path env c es' = Ok c'" "fold_path env c' [e] = Ok (commitment env t)"
    using Suc.prems(4) es by (auto simp: fold_path_append result_simps)
  obtain pos sib where e: "e = PathBranch pos sib" "pos \<le> 2" "length sib = 2"
      "digest_evaluate env (take pos sib @ c' # drop pos sib) = Some (commitment env t)"
    using c'(2) by (cases e) (auto simp: result_simps split: if_splits)
  show ?case
  proof (cases t)
    case Empty
    then show ?thesis using e(4) assms by (simp add: collision_free_def)
  next
    case (Branch cc ch nk tot)
    note pk = Suc.prems(1) [unfolded Branch]
    have eq: "take pos sib @ c' # drop pos sib = map (commitment env) ch"
      using e(4) pk assms Branch by (auto simp: packed_Branch collision_free_def)
    then have "(take pos sib @ c' # drop pos sib) ! pos = map (commitment env) ch ! pos" by simp
    then have child: "c' = commitment env (ch ! pos)"
      using e(2,3) pk by (simp add: nth_append packed_Branch)
    have "packed env h (child_keys h n pos) (ch ! pos)" "ch ! pos \<in> set ch"
      using pk e(2) by (auto simp: packed_Branch)
    then show ?thesis
      using Suc.IH [of "child_keys h n pos" "ch ! pos" es'] Suc.prems(2) es(2) c'(1) child Branch by fastforce
  qed (use Suc.prems(1) in simp)
qed

section \<open>The table\<close>

record ('k, 'f) mt_table =
  mt_head :: "('k, 'f) PersistentMerkleNode"
  mt_epoch_start :: "('k, 'f) PersistentMerkleNode"
  mt_last_epoch_start :: "('k, 'f) PersistentMerkleNode"
  mt_height :: nat
  mt_mapping :: "('k \<times> nat) list"

definition mt_new :: "nat \<Rightarrow> ('k, 'f) mt_table" where
  "mt_new h = \<lparr>mt_head = Empty, mt_epoch_start = Empty, mt_last_epoch_start = Empty,
     mt_height = h, mt_mapping = []\<rparr>"

definition mt_root ::
  "('k, 'f) mt_table \<Rightarrow> SnapshotVersion \<Rightarrow> (('k, 'f) PersistentMerkleNode, StakeTableError) result" where
  "mt_root st ver =
     (case ver of
        Head \<Rightarrow> Ok (mt_head st)
      | EpochStart \<Rightarrow> Ok (mt_epoch_start st)
      | LastEpochStart \<Rightarrow> Ok (mt_last_epoch_start st)
      | BlockNum _ \<Rightarrow> Err SnapshotUnsupported)"

definition mt_register ::
  "('k, 'f) mt_env \<Rightarrow> 'k \<Rightarrow> u256 \<Rightarrow> unit \<Rightarrow> ('k, 'f) mt_table \<Rightarrow> (('k, 'f) mt_table, StakeTableError) result" where
  "mt_register env new_key amount aux st =
     (if map_of (mt_mapping st) new_key \<noteq> None then Err ExistingKey
      else
        let pos = length (mt_mapping st)
        in and_then (tree_register env (mt_height st) (to_merkle_path pos (mt_height st)) new_key amount (mt_head st))
             (\<lambda>t. Ok (st\<lparr>mt_head := t, mt_mapping := (new_key, pos) # mt_mapping st\<rparr>)))"

text \<open>\<open>deregister\<close> is \<open>unimplemented!()\<close>.\<close>

definition mt_deregister :: "'k \<Rightarrow> ('k, 'f) mt_table \<Rightarrow> (('k, 'f) mt_table, StakeTableError) result" where
  "mt_deregister existing_key st = Panic"

definition mt_commitment ::
  "('k, 'f) mt_env \<Rightarrow> ('k, 'f) mt_table \<Rightarrow> SnapshotVersion \<Rightarrow> ('f MerkleCommitment, StakeTableError) result" where
  "mt_commitment env st ver =
     and_then (mt_root st ver) (\<lambda>root.
     Ok \<lparr>comm = commitment env root, height = mt_height st, size_of = num_keys root\<rparr>)"

definition mt_total_stake :: "('k, 'f) mt_table \<Rightarrow> SnapshotVersion \<Rightarrow> (u256, StakeTableError) result" where
  "mt_total_stake st ver = and_then (mt_root st ver) (\<lambda>root. Ok (total_stakes root))"

definition mt_len :: "('k, 'f) mt_table \<Rightarrow> SnapshotVersion \<Rightarrow> (nat, StakeTableError) result" where
  "mt_len st ver = and_then (mt_root st ver) (\<lambda>root. Ok (num_keys root))"

definition mt_contains_key :: "('k, 'f) mt_table \<Rightarrow> 'k \<Rightarrow> bool" where
  "mt_contains_key st k = (map_of (mt_mapping st) k \<noteq> None)"

definition mt_lookup :: "('k, 'f) mt_table \<Rightarrow> SnapshotVersion \<Rightarrow> 'k \<Rightarrow> (u256, StakeTableError) result" where
  "mt_lookup st ver k =
     and_then (mt_root st ver) (\<lambda>root.
     case map_of (mt_mapping st) k of
       Some idx \<Rightarrow> simple_lookup (mt_height st) (to_merkle_path idx (mt_height st)) root
     | None \<Rightarrow> Err KeyNotFound)"

definition mt_lookup_with_proof ::
  "('k, 'f) mt_env \<Rightarrow> ('k, 'f) mt_table \<Rightarrow> SnapshotVersion \<Rightarrow> 'k \<Rightarrow>
   (u256 \<times> ('k, 'f) MerkleProof, StakeTableError) result" where
  "mt_lookup_with_proof env st ver k =
     and_then (mt_root st ver) (\<lambda>root.
     and_then (case map_of (mt_mapping st) k of
                 Some idx \<Rightarrow> tree_lookup env (mt_height st) (to_merkle_path idx (mt_height st)) root
               | None \<Rightarrow> Err KeyNotFound) (\<lambda>pr.
     and_then (ok_or (proof_value pr) KeyNotFound) (\<lambda>amount. Ok (amount, pr))))"

definition mt_lookup_with_aux_and_proof ::
  "('k, 'f) mt_env \<Rightarrow> ('k, 'f) mt_table \<Rightarrow> SnapshotVersion \<Rightarrow> 'k \<Rightarrow>
   (u256 \<times> unit \<times> ('k, 'f) MerkleProof, StakeTableError) result" where
  "mt_lookup_with_aux_and_proof env st ver k =
     and_then (mt_lookup_with_proof env st ver k) (\<lambda>(amount, pr). Ok (amount, (), pr))"

definition mt_update ::
  "('k, 'f) mt_env \<Rightarrow> 'k \<Rightarrow> u256 \<Rightarrow> bool \<Rightarrow> ('k, 'f) mt_table \<Rightarrow> (('k, 'f) mt_table \<times> u256, StakeTableError) result" where
  "mt_update env k delta negative st =
     (case map_of (mt_mapping st) k of
        Some pos \<Rightarrow>
          and_then (tree_update env (mt_height st) (to_merkle_path pos (mt_height st)) k delta negative (mt_head st))
            (\<lambda>(t, v). Ok (st\<lparr>mt_head := t\<rparr>, v))
      | None \<Rightarrow> Err KeyNotFound)"

text \<open>\<open>r\<close> is the 512-bit number read from the generator; the remainder by a zero total panics.\<close>

definition mt_sample :: "('k, 'f) mt_table \<Rightarrow> nat \<Rightarrow> (('k \<times> u256) option, StakeTableError) result" where
  "mt_sample st r =
     (let m = total_stakes (mt_last_epoch_start st)
      in if m = 0 then Panic else key_by_stake (mt_last_epoch_start st) (r mod m))"

definition mt_try_iter :: "('k, 'f) mt_table \<Rightarrow> SnapshotVersion \<Rightarrow> (('k \<times> u256) list, StakeTableError) result" where
  "mt_try_iter st ver = and_then (mt_root st ver) (\<lambda>root. Ok (iter_collect [root]))"

definition mt_advance :: "('k, 'f) mt_table \<Rightarrow> (('k, 'f) mt_table, StakeTableError) result" where
  "mt_advance st = Ok (st\<lparr>mt_last_epoch_start := mt_epoch_start st, mt_epoch_start := mt_head st\<rparr>)"

definition mt_set_value ::
  "('k, 'f) mt_env \<Rightarrow> 'k \<Rightarrow> u256 \<Rightarrow> ('k, 'f) mt_table \<Rightarrow> (('k, 'f) mt_table \<times> u256, StakeTableError) result" where
  "mt_set_value env k v st =
     (case map_of (mt_mapping st) k of
        Some pos \<Rightarrow>
          and_then (tree_set_value env (mt_height st) (to_merkle_path pos (mt_height st)) k v (mt_head st))
            (\<lambda>(t, old_value). Ok (st\<lparr>mt_head := t\<rparr>, old_value))
      | None \<Rightarrow> Err KeyNotFound)"

section \<open>The table implements the contract\<close>

definition mt_inv :: "('k, 'f) mt_env \<Rightarrow> ('k, 'f) mt_table \<Rightarrow> bool" where
  "mt_inv env st \<longleftrightarrow>
     packed env (mt_height st) (length (mt_mapping st)) (mt_head st) \<and>
     distinct (map fst (entries (mt_head st))) \<and>
     mt_mapping st = rev (zip (map fst (entries (mt_head st))) [0..<length (entries (mt_head st))]) \<and>
     (\<forall>t \<in> {mt_epoch_start st, mt_last_epoch_start st}.
        packed env (mt_height st) (num_keys t) t \<and> prefix (map fst (entries t)) (map fst (entries (mt_head st))))"

lemma mt_inv_root:
  assumes "mt_inv env st" and "mt_root st ver = Ok t"
  shows "packed env (mt_height st) (num_keys t) t" and "prefix (map fst (entries t)) (map fst (entries (mt_head st)))"
    and "distinct (map fst (entries t))" and "length (entries t) = num_keys t"
proof -
  have p: "packed env (mt_height st) (num_keys t) t \<and> prefix (map fst (entries t)) (map fst (entries (mt_head st)))"
    using assms packed_num_keys [of env "mt_height st" "length (mt_mapping st)" "mt_head st"]
    by (auto simp: mt_inv_def mt_root_def split: SnapshotVersion.splits)
  then show "packed env (mt_height st) (num_keys t) t" "prefix (map fst (entries t)) (map fst (entries (mt_head st)))"
    by simp_all
  moreover have "distinct (map fst (entries (mt_head st)))" using assms(1) by (simp add: mt_inv_def)
  ultimately show "distinct (map fst (entries t))" by (auto elim!: prefixE)
  show "length (entries t) = num_keys t" using p packed_entries by blast
qed

lemma mt_inv_mapping:
  assumes "mt_inv env st"
  shows "map_of (mt_mapping st) k = Some i \<longleftrightarrow>
           i < length (entries (mt_head st)) \<and> fst (entries (mt_head st) ! i) = k"
    and "map_of (mt_mapping st) k = None \<longleftrightarrow> k \<notin> fst ` set (entries (mt_head st))"
    and "length (mt_mapping st) = length (entries (mt_head st))"
proof -
  let ?ks = "map fst (entries (mt_head st))"
  have m: "distinct ?ks" "mt_mapping st = rev (zip ?ks [0..<length ?ks])" using assms by (simp_all add: mt_inv_def)
  show "map_of (mt_mapping st) k = Some i \<longleftrightarrow>
           i < length (entries (mt_head st)) \<and> fst (entries (mt_head st) ! i) = k"
    using map_of_rev_zip [OF m(1), of k i] m(2) by auto
  have "fst ` set (mt_mapping st) = set ?ks"
    unfolding m(2) by (simp flip: set_map)
  then show "map_of (mt_mapping st) k = None \<longleftrightarrow> k \<notin> fst ` set (entries (mt_head st))"
    by (simp add: map_of_eq_None_iff)
  show "length (mt_mapping st) = length (entries (mt_head st))" using m(2) by simp
qed

lemma map_of_nth_distinct:
  "distinct (map fst es) \<Longrightarrow> i < length es \<Longrightarrow> map_of es (fst (es ! i)) = Some (snd (es ! i))"
  by (simp add: map_of_eq_Some_iff)

lemma map_of_list_update:
  "distinct (map fst es) \<Longrightarrow> j < length es \<Longrightarrow> fst (es ! j) = k \<Longrightarrow> map_of (es[j := (k, v)]) = (map_of es)(k \<mapsto> v)"
proof (induction es arbitrary: j)
  case (Cons e es)
  show ?case
  proof (cases j)
    case (Suc i)
    then have "fst (es ! i) \<in> fst ` set es" using Cons.prems nth_mem [of i es] by auto
    then have "fst e \<noteq> k" using Cons.prems Suc by auto
    then show ?thesis using Cons Suc by (cases e) (auto simp: fun_eq_iff)
  qed (use Cons.prems in \<open>cases e; auto simp: fun_eq_iff\<close>)
qed simp

lemma mt_lookup_refines:
  assumes "mt_inv env st"
  shows "mt_lookup st ver k = and_then (mt_root st ver) (\<lambda>t. ok_or (map_of (entries t) k) KeyNotFound)"
proof (cases "mt_root st ver")
  case (Ok t)
  note rt = mt_inv_root [OF assms Ok] and mp = mt_inv_mapping [OF assms]
  obtain zs where zs: "map fst (entries (mt_head st)) = map fst (entries t) @ zs" using rt(2) by (auto elim: prefixE)
  show ?thesis
  proof (cases "map_of (mt_mapping st) k")
    case None
    then have "k \<notin> set (map fst (entries (mt_head st)))" using mp(2) by simp
    then have "map_of (entries t) k = None" unfolding zs by (simp add: map_of_eq_None_iff)
    then show ?thesis using Ok None by (simp add: mt_lookup_def)
  next
    case (Some i)
    then have i: "i < length (entries (mt_head st))" "fst (entries (mt_head st) ! i) = k" using mp(1) by auto
    have "i < 3 ^ mt_height st"
      using i(1) mp(3) packed_bound [of env "mt_height st" "length (mt_mapping st)" "mt_head st"] assms
      by (simp add: mt_inv_def)
    then have sl: "mt_lookup st ver k = (if i < num_keys t then Ok (snd (entries t ! i)) else Err KeyNotFound)"
      using simple_lookup_packed [OF rt(1) path_for_to_merkle_path] Ok Some by (simp add: mt_lookup_def)
    have nth: "map fst (entries (mt_head st)) ! i = k" using i by simp
    show ?thesis
    proof (cases "i < num_keys t")
      case True
      then have "fst (entries t ! i) = k" using nth rt(4) by (simp add: zs nth_append)
      then have "map_of (entries t) k = Some (snd (entries t ! i))"
        using map_of_nth_distinct [OF rt(3), of i] True rt(4) by simp
      then show ?thesis using sl True Ok by simp
    next
      case False
      have "distinct (map fst (entries t) @ zs)" using assms by (simp add: mt_inv_def flip: zs)
      moreover have "length (entries (mt_head st)) = length (entries t) + length zs"
        using arg_cong [OF zs, of length] by simp
      then have "i - num_keys t < length zs" "zs ! (i - num_keys t) = k"
        using nth False rt(4) i(1) by (auto simp: zs nth_append)
      then have "k \<in> set zs" using nth_mem by fastforce
      ultimately have "map_of (entries t) k = None" by (auto simp: map_of_eq_None_iff)
      then show ?thesis using sl False Ok by simp
    qed
  qed
qed (simp_all add: mt_lookup_def)

lemma mt_inv_new: "mt_inv env (mt_new h)"
  by (simp add: mt_inv_def mt_new_def)

lemma mt_register_effect:
  assumes "mt_inv env st" and "mt_register env k a x st = Ok st'"
  shows "k \<notin> fst ` set (entries (mt_head st))" and "mt_inv env st'"
    and "entries (mt_head st') = entries (mt_head st) @ [(k, a)]"
    and "mt_root st' ver = (if ver = Head then Ok (mt_head st') else mt_root st ver)"
proof -
  note mp = mt_inv_mapping [OF assms(1)]
  let ?n = "length (mt_mapping st)"
  have pk: "packed env (mt_height st) ?n (mt_head st)"
    using assms(1) unfolding mt_inv_def by blast
  obtain t where new: "map_of (mt_mapping st) k = None"
    and t: "tree_register env (mt_height st) (to_merkle_path ?n (mt_height st)) k a (mt_head st) = Ok t"
    and st': "st' = st\<lparr>mt_head := t, mt_mapping := (k, ?n) # mt_mapping st\<rparr>"
    using assms(2) by (auto simp: mt_register_def Let_def result_simps split: if_splits)
  show fresh: "k \<notin> fst ` set (entries (mt_head st))" using new mp(2) by simp
  have lt: "?n < 3 ^ mt_height st"
  proof (rule ccontr)
    assume "\<not> ?n < 3 ^ mt_height st"
    then have "?n = 3 ^ mt_height st" using packed_bound [OF pk] by simp
    then have "path_for (mt_height st) (to_merkle_path ?n (mt_height st)) 0"
      using path_for_to_merkle_path [of "mt_height st" ?n] mod_power_digit [of _ "mt_height st" ?n]
      by (auto simp: path_for_def)
    then show False using tree_register_occupied [OF pk, of _ 0 k a] t \<open>?n = 3 ^ mt_height st\<close> by simp
  qed
  have reg: "packed env (mt_height st) (Suc ?n) t \<and> entries t = entries (mt_head st) @ [(k, a)]"
    using tree_register_packed [OF pk lt path_for_to_merkle_path t] .
  then show "entries (mt_head st') = entries (mt_head st) @ [(k, a)]" using st' by simp
  show "mt_inv env st'" using assms(1) reg st' fresh mp(3) by (auto simp: mt_inv_def)
  show "mt_root st' ver = (if ver = Head then Ok (mt_head st') else mt_root st ver)"
    using st' by (auto simp: mt_root_def split: SnapshotVersion.splits)
qed

text \<open>Writing one amount of the head.\<close>

lemma mt_put_effect:
  assumes "mt_inv env st" and "st' = st\<lparr>mt_head := t\<rparr>" and "j < length (entries (mt_head st))"
    and "fst (entries (mt_head st) ! j) = k" and "packed env (mt_height st) (length (mt_mapping st)) t"
    and "entries t = (entries (mt_head st))[j := (k, v)]"
  shows "mt_inv env st'" and "mt_root st' ver = (if ver = Head then Ok t else mt_root st ver)"
    and "map_of (entries t) = (map_of (entries (mt_head st)))(k \<mapsto> v)"
proof -
  have keys: "map fst (entries t) = map fst (entries (mt_head st))"
    using assms(3,4,6) by (auto simp: map_update intro!: list_update_same_conv [THEN iffD2])
  then have len: "length (entries t) = length (entries (mt_head st))" using map_eq_imp_length_eq by blast
  show "mt_inv env st'" using assms(1,2,5) by (simp add: mt_inv_def keys len)
  show "mt_root st' ver = (if ver = Head then Ok t else mt_root st ver)"
    using assms(2) by (auto simp: mt_root_def split: SnapshotVersion.splits)
  have d: "distinct (map fst (entries (mt_head st)))" "distinct (map fst (entries t))"
    using assms(1) keys by (simp_all add: mt_inv_def)
  show "map_of (entries t) = (map_of (entries (mt_head st)))(k \<mapsto> v)"
    using map_of_list_update [OF d(1) assms(3,4)] assms(6) by simp
qed

lemma mt_update_effect:
  assumes "mt_update env k d n st = Ok (st', v)" and "mt_inv env st"
  obtains t old where "st' = st\<lparr>mt_head := t\<rparr>" "map_of (entries (mt_head st)) k = Some old"
    "if n then d \<le> old \<and> v = old - d else v = old + d" "mt_inv env st'"
    "\<And>ver. mt_root st' ver = (if ver = Head then Ok t else mt_root st ver)"
    "map_of (entries t) = (map_of (entries (mt_head st)))(k \<mapsto> v)"
proof -
  note mp = mt_inv_mapping [OF assms(2)]
  have pk: "packed env (mt_height st) (length (mt_mapping st)) (mt_head st)"
    and d: "distinct (map fst (entries (mt_head st)))"
    using assms(2) unfolding mt_inv_def by blast+
  obtain j t where j: "map_of (mt_mapping st) k = Some j" and st': "st' = st\<lparr>mt_head := t\<rparr>"
    and up: "tree_update env (mt_height st) (to_merkle_path j (mt_height st)) k d n (mt_head st) = Ok (t, v)"
    using assms(1) by (auto simp: mt_update_def result_simps split: option.splits)
  have jl: "j < length (entries (mt_head st))" "fst (entries (mt_head st) ! j) = k" using j mp(1) by auto
  have j3: "j < 3 ^ mt_height st" using jl(1) mp(3) packed_bound [OF pk] by simp
  from tree_update_packed [OF pk path_for_to_merkle_path j3 up]
  obtain old where up': "entries (mt_head st) ! j = (k, old)" "if n then d \<le> old \<and> v = old - d else v = old + d"
    "packed env (mt_height st) (length (mt_mapping st)) t" "entries t = (entries (mt_head st))[j := (k, v)]" by blast
  have "map_of (entries (mt_head st)) k = Some old" using map_of_nth_distinct [OF d jl(1)] up'(1) by simp
  then show ?thesis
    using that [of t old] st' up'(2) mt_put_effect [OF assms(2) st' jl up'(3,4)] by blast
qed

lemma mt_set_value_effect:
  assumes "mt_set_value env k v st = Ok (st', old)" and "mt_inv env st"
  obtains t where "st' = st\<lparr>mt_head := t\<rparr>" "map_of (entries (mt_head st)) k = Some old" "mt_inv env st'"
    "\<And>ver. mt_root st' ver = (if ver = Head then Ok t else mt_root st ver)"
    "map_of (entries t) = (map_of (entries (mt_head st)))(k \<mapsto> v)"
proof -
  note mp = mt_inv_mapping [OF assms(2)]
  have pk: "packed env (mt_height st) (length (mt_mapping st)) (mt_head st)"
    and d: "distinct (map fst (entries (mt_head st)))"
    using assms(2) unfolding mt_inv_def by blast+
  obtain j t where j: "map_of (mt_mapping st) k = Some j" and st': "st' = st\<lparr>mt_head := t\<rparr>"
    and up: "tree_set_value env (mt_height st) (to_merkle_path j (mt_height st)) k v (mt_head st) = Ok (t, old)"
    using assms(1) by (auto simp: mt_set_value_def result_simps split: option.splits)
  have jl: "j < length (entries (mt_head st))" "fst (entries (mt_head st) ! j) = k" using j mp(1) by auto
  have j3: "j < 3 ^ mt_height st" using jl(1) mp(3) packed_bound [OF pk] by simp
  from tree_set_value_packed [OF pk path_for_to_merkle_path j3 up]
  have up': "entries (mt_head st) ! j = (k, old)"
    "packed env (mt_height st) (length (mt_mapping st)) t" "entries t = (entries (mt_head st))[j := (k, v)]" by blast+
  have "map_of (entries (mt_head st)) k = Some old" using map_of_nth_distinct [OF d jl(1)] up'(1) by simp
  then show ?thesis
    using that [of t] st' mt_put_effect [OF assms(2) st' jl up'(2,3)] by blast
qed

lemma map_of_snoc_new:
  "k \<notin> fst ` set es \<Longrightarrow> map_of (es @ [(k, v)]) = (map_of es)(k \<mapsto> v)"
  by (auto simp: map_add_def map_of_eq_None_iff [symmetric] fun_eq_iff split: option.splits)

lemma mt_inv_advance: "mt_inv env st \<Longrightarrow> mt_advance st = Ok st' \<Longrightarrow> mt_inv env st'"
  using packed_num_keys [of env "mt_height st" "length (mt_mapping st)" "mt_head st"]
  by (auto simp: mt_advance_def mt_inv_def)

lemma mt_root_Head: "mt_root st Head = Ok (mt_head st)"
  by (simp add: mt_root_def)

lemma mt_total_stake_root: "mt_root s' ver = mt_root s ver \<Longrightarrow> mt_total_stake s' ver = mt_total_stake s ver"
  by (simp add: mt_total_stake_def)

interpretation mt: stake_table_scheme "mt_inv env" mt_lookup mt_total_stake "mt_register env" "mt_update env"
  "mt_set_value env" mt_advance
proof (unfold_locales, goal_cases)
  case (1 s k a x s') then show ?case by (rule mt_register_effect(2))
next
  case (2 s k d n s' v) then show ?case by (auto elim: mt_update_effect)
next
  case (3 s k a s' v) then show ?case by (auto elim: mt_set_value_effect)
next
  case (4 s s') then show ?case by (rule mt_inv_advance)
next
  case (5 s k a x s')
  have "map_of (entries (mt_head s)) k = None" using mt_register_effect(1) [OF 5] by (simp add: map_of_eq_None_iff)
  then show ?case using mt_lookup_refines [OF 5(1), of Head k] by (simp add: mt_root_Head)
next
  case (6 s k a x s' j)
  note eff = mt_register_effect [OF 6]
  have "map_of (entries (mt_head s')) = (map_of (entries (mt_head s)))(k \<mapsto> a)"
    unfolding eff(3) by (rule map_of_snoc_new [OF eff(1)])
  then show ?case
    using mt_lookup_refines [OF 6(1), of Head j] mt_lookup_refines [OF eff(2), of Head j] by (simp add: mt_root_Head)
next
  case (7 s k d n s' v j)
  obtain t where "mt_inv env s'" "mt_root s' Head = Ok t" "map_of (entries t) = (map_of (entries (mt_head s)))(k \<mapsto> v)"
    using 7 by (auto elim: mt_update_effect)
  then show ?case using mt_lookup_refines [of env s' Head j] mt_lookup_refines [OF 7(1), of Head j]
    by (simp add: mt_root_Head)
next
  case (8 s k d n s' v)
  obtain old where "map_of (entries (mt_head s)) k = Some old" "if n then d \<le> old \<and> v = old - d else v = old + d"
    using 8 by (auto elim: mt_update_effect)
  then show ?case using mt_lookup_refines [OF 8(1), of Head k] by (simp add: mt_root_Head)
next
  case (9 s k a s' old j)
  obtain t where "mt_inv env s'" "mt_root s' Head = Ok t" "map_of (entries t) = (map_of (entries (mt_head s)))(k \<mapsto> a)"
    "map_of (entries (mt_head s)) k = Some old"
    using 9 by (auto elim: mt_set_value_effect)
  then show ?case using mt_lookup_refines [of env s' Head j] mt_lookup_refines [OF 9(1), of Head]
    by (simp add: mt_root_Head)
next
  case (10 s k a x s' ver j)
  then show ?case
    using mt_register_effect(4) [OF 10(1,2), of ver] mt_total_stake_root [of s' ver s]
      mt_lookup_refines [OF 10(1), of ver j] mt_lookup_refines [OF mt_register_effect(2) [OF 10(1,2)], of ver j]
    by simp
next
  case (11 s k d n s' v ver j)
  have "mt_inv env s' \<and> mt_root s' ver = mt_root s ver" using 11 by (auto elim: mt_update_effect)
  then show ?case
    using mt_total_stake_root [of s' ver s] mt_lookup_refines [OF 11(1), of ver j] mt_lookup_refines [of env s' ver j]
    by simp
next
  case (12 s k a s' v ver j)
  have "mt_inv env s' \<and> mt_root s' ver = mt_root s ver" using 12 by (auto elim: mt_set_value_effect)
  then show ?case
    using mt_total_stake_root [of s' ver s] mt_lookup_refines [OF 12(1), of ver j] mt_lookup_refines [of env s' ver j]
    by simp
next
  case (13 s s' j)
  have "mt_root s' LastEpochStart = mt_root s EpochStart" "mt_root s' EpochStart = mt_root s Head"
    "mt_root s' Head = mt_root s Head" using 13(2) by (auto simp: mt_advance_def mt_root_def)
  then show ?case
    using mt_lookup_refines [OF 13(1)] mt_lookup_refines [OF mt_inv_advance [OF 13]] by simp
next
  case (14 s s')
  then show ?case by (auto simp: mt_advance_def mt_total_stake_def mt_root_def)
next
  case (15 s e)
  then show ?case by (simp add: mt_advance_def)
qed

abbreviation mt_step where
  "mt_step env \<equiv> step_op (mt_register env) (mt_update env) (mt_set_value env) mt_advance"

lemma pick_entry_Some:
  "pick_entry es s = Some e \<Longrightarrow>
   \<exists>j < length es. es ! j = e \<and> sum_list (map snd (take j es)) \<le> s \<and> s < sum_list (map snd (take j es)) + snd e"
proof (induction es s rule: pick_entry.induct)
  case (2 k v es s)
  show ?case
  proof (cases "v \<le> s")
    case True
    then obtain j where "j < length es" "es ! j = e" "sum_list (map snd (take j es)) \<le> s - v"
      "s - v < sum_list (map snd (take j es)) + snd e" using 2 by auto
    then show ?thesis using True by (intro exI [of _ "Suc j"]) auto
  next
    case False
    then show ?thesis using 2 by (intro exI [of _ 0]) auto
  qed
qed simp

lemma pick_entry_nth:
  assumes "j < length es" and "sum_list (map snd (take j es)) \<le> s"
    and "s < sum_list (map snd (take j es)) + snd (es ! j)"
  shows "pick_entry es s = Some (es ! j)"
proof -
  have "es = take j es @ es ! j # drop (Suc j) es" using assms(1) by (simp add: id_take_nth_drop)
  then have "pick_entry es s = pick_entry (take j es @ es ! j # drop (Suc j) es) s" by simp
  also have "\<dots> = Some (es ! j)" using assms(2,3) by (cases "es ! j") (simp add: pick_entry_append)
  finally show ?thesis .
qed

section \<open>A concrete table\<close>

definition toy_env :: "(nat, nat) mt_env" where
  "toy_env = \<lparr>key_to_fields = (\<lambda>k. [k]), key_SIZE = 1, field_zero = 0,
     field_from_le_bytes = (\<lambda>bs. foldr (\<lambda>b v. b + 256 * v) bs 0 mod 101),
     digest_evaluate = (\<lambda>xs. Some (Suc (to_nat xs)))\<rparr>"

lemma toy_env_collision_free: "collision_free toy_env"
  by (auto simp: collision_free_def toy_env_def)

definition toy_tree :: "(nat, nat) PersistentMerkleNode" where
  "toy_tree = Branch (Suc (to_nat [Suc (to_nat [7, 0, 30 :: nat]), 0, 0]))
     [Leaf (Suc (to_nat [7, 0, 30 :: nat])) 7 30, Empty, Empty] 1 30"

definition toy_table :: "(nat, nat) mt_table" where
  "toy_table = \<lparr>mt_head = toy_tree, mt_epoch_start = toy_tree, mt_last_epoch_start = toy_tree,
     mt_height = 1, mt_mapping = [(7, 0)]\<rparr>"

definition toy_proof :: "u256 \<Rightarrow> (nat, nat) MerkleProof" where
  "toy_proof v = \<lparr>index = 0, path = [PathLeaf 7 v, PathBranch 0 [0, 0]]\<rparr>"

definition toy_comm :: "nat MerkleCommitment" where
  "toy_comm = \<lparr>comm = Suc (to_nat [Suc (to_nat [7, 0, 30 :: nat]), 0, 0]), height = 1, size_of = 1\<rparr>"

lemma replicate_two: "replicate 2 x = [x, x]"
  by (simp add: numeral_2_eq_2)

lemmas toy_simps = replicate_two toy_env_def toy_tree_def toy_table_def toy_proof_def toy_comm_def u256_to_field_def
  leaf_comm_def Let_def index_at_def TREE_BRANCH_def

lemma toy_run:
  "run_ops (mt_step toy_env) [Register 7 30 (), Advance, Advance] (mt_new 1) = Ok toy_table"
  by (simp add: toy_simps mt_new_def mt_register_def mt_advance_def mk_branch_def u256_add_def u256_limit_def
      replicate_TREE_BRANCH [unfolded TREE_BRANCH_def])

lemma toy_inv: "mt_inv toy_env toy_table"
  using mt.valid_run [OF mt_inv_new toy_run] .

lemma toy_lookup: "mt_lookup_with_proof toy_env toy_table Head 7 = Ok (30, toy_proof 30)"
  by (simp add: toy_simps mt_lookup_with_proof_def mt_root_def from_merkle_path_def)

lemma toy_commitment: "mt_commitment toy_env toy_table Head = Ok toy_comm"
  by (simp add: toy_simps mt_commitment_def mt_root_def)

lemma toy_root: "compute_root toy_env (toy_proof 30) = Ok (comm toy_comm)"
  apply (simp add: compute_root_def toy_proof_def)
  apply (simp add: leaf_comm_def toy_env_def)
  apply (simp add: u256_to_field_def replicate_two)
  apply (simp add: toy_comm_def)
  done

lemma toy_verify: "proof_verify toy_env (toy_proof 30) toy_comm = Ok ()"
  unfolding proof_verify_eq_Ok toy_root by (simp add: proof_tree_height_def toy_proof_def toy_comm_def)

section \<open>Properties\<close>

text \<open>
  C31. Every Merkle table reached from \<open>new\<close> satisfies the invariant: the tree is filled from the
  left with correct cached counts, totals and digests, and a lookup in a version returns what the
  list of its entries holds.
\<close>
theorem mt_table_reachable_inv:
  assumes "run_ops (mt_step env) ops (mt_new h) = Ok st"
  shows "mt_inv env st \<and>
         (\<forall>ver k. mt_lookup st ver k = and_then (mt_root st ver) (\<lambda>t. ok_or (map_of (entries t) k) KeyNotFound)) \<and>
         (\<forall>ver t. mt_root st ver = Ok t \<longrightarrow>
            total_stakes t = sum_list (map snd (entries t)) \<and> num_keys t = length (entries t) \<and>
            mt_try_iter st ver = Ok (entries t))"
proof -
  have inv: "mt_inv env st" using mt.valid_run [OF mt_inv_new assms] .
  moreover have "total_stakes t = sum_list (map snd (entries t)) \<and> num_keys t = length (entries t) \<and>
      mt_try_iter st ver = Ok (entries t)" if "mt_root st ver = Ok t" for ver t
    using mt_inv_root [OF inv that] packed_entries iter_collect_packed that by (fastforce simp: mt_try_iter_def)
  ultimately show ?thesis using mt_lookup_refines [OF inv] by blast
qed

theorem mt_table_reachable_inv_witness:
  "mt_lookup toy_table LastEpochStart 7 = Ok 30 \<and> mt_try_iter toy_table Head = Ok [(7, 30)]"
  using mt_table_reachable_inv [OF toy_run] by (simp add: toy_simps mt_root_def)


text \<open>
  C33. Completeness of membership proofs.  The proof that \<open>lookup_with_proof\<close> returns names the
  key and its amount, carries the key's position as its index, and verifies against the
  commitment of the same version.
\<close>
theorem mt_lookup_proof_verifies:
  assumes "mt_inv env st" and "mt_commitment env st ver = Ok c"
    and "mt_lookup_with_proof env st ver k = Ok (amount, pr)"
  shows "proof_verify env pr c = Ok () \<and> proof_key_value pr = Some (k, amount) \<and>
         mt_lookup st ver k = Ok amount \<and> map_of (mt_mapping st) k = Some (index pr)"
proof -
  obtain t where t: "mt_root st ver = Ok t" and c: "c = \<lparr>comm = commitment env t, height = mt_height st, size_of = num_keys t\<rparr>"
    using assms(2) by (auto simp: mt_commitment_def result_simps)
  obtain i where i: "map_of (mt_mapping st) k = Some i"
    and lk: "tree_lookup env (mt_height st) (to_merkle_path i (mt_height st)) t = Ok pr" "proof_value pr = Some amount"
    using assms(3) t by (auto simp: mt_lookup_with_proof_def result_simps split: option.splits)
  note rt = mt_inv_root [OF assms(1) t] and mp = mt_inv_mapping [OF assms(1)]
  have il: "i < length (entries (mt_head st))" "fst (entries (mt_head st) ! i) = k" using i mp(1) by auto
  have i3: "i < 3 ^ mt_height st"
    using il(1) mp(3) packed_bound [of env "mt_height st" "length (mt_mapping st)" "mt_head st"] assms(1)
    by (simp add: mt_inv_def)
  have "simple_lookup (mt_height st) (to_merkle_path i (mt_height st)) t =
      (if i < num_keys t then Ok (snd (entries t ! i)) else Err KeyNotFound)"
    by (rule simple_lookup_packed [OF rt(1) path_for_to_merkle_path i3])
  moreover have tl: "i < num_keys t"
  proof (rule ccontr)
    assume "\<not> i < num_keys t"
    then show False
      using tree_lookup_absent [OF rt(1) path_for_to_merkle_path i3, of env] lk(1) by simp
  qed
  ultimately have val: "mt_lookup st ver k = Ok (snd (entries t ! i))" using t i by (simp add: mt_lookup_def)
  obtain es k' v' c' where p: "pr = \<lparr>index = from_merkle_path (to_merkle_path i (mt_height st)), path = PathLeaf k' v' # es\<rparr>"
    "entries t ! i = (k', v')" "length es = mt_height st" "leaf_comm env k' v' = Ok c'"
    "fold_path env c' es = Ok (commitment env t)"
    using tree_lookup_packed [OF rt(1) path_for_to_merkle_path tl] lk(1) by auto
  have "map fst (entries t) ! i = map fst (entries (mt_head st)) ! i"
    using rt(2,4) tl by (auto elim!: prefixE simp: nth_append)
  then have "k' = k" using il p(2) tl rt(4) by simp
  then show ?thesis
    using p lk(2) val c i i3 from_to_merkle_path [of i "mt_height st"]
    by (simp add: proof_verify_def compute_root_def proof_tree_height_def)
qed

theorem mt_lookup_proof_verifies_witness:
  "proof_verify toy_env (toy_proof 30) toy_comm = Ok () \<and> proof_key_value (toy_proof 30) = Some (7, 30)"
  using mt_lookup_proof_verifies [OF toy_inv toy_commitment toy_lookup] by simp


text \<open>
  C32. Soundness of membership proofs.  With a collision-free hash and an injective key encoding of
  at most two field elements, a proof that verifies against the commitment of a version is for a
  registered key, and the amount it claims agrees as a field element with the key's amount.
\<close>
theorem mt_proof_sound:
  assumes "mt_inv env st" and "collision_free env" and "inj (key_to_fields env)" and "key_SIZE env \<le> 2"
    and "mt_commitment env st ver = Ok c" and "proof_verify env pr c = Ok ()"
  shows "\<exists>k v v'. proof_key_value pr = Some (k, v) \<and> mt_lookup st ver k = Ok v' \<and>
           u256_to_field (field_from_le_bytes env) v = u256_to_field (field_from_le_bytes env) v'"
proof -
  obtain t where t: "mt_root st ver = Ok t" and c: "c = \<lparr>comm = commitment env t, height = mt_height st, size_of = num_keys t\<rparr>"
    using assms(5) by (auto simp: mt_commitment_def result_simps)
  note rt = mt_inv_root [OF assms(1) t]
  obtain k v es d where p: "path pr = PathLeaf k v # es" "leaf_comm env k v = Ok d"
    "fold_path env d es = Ok (commitment env t)" "length es = mt_height st"
    using assms(6) c by (auto simp: proof_verify_eq_Ok compute_root_eq_Ok proof_tree_height_def)
  obtain k' v' where e: "(k', v') \<in> set (entries t)" "leaf_comm env k' v' = leaf_comm env k v"
    using fold_path_sound [OF assms(2) rt(1) p(2,4,3)] by auto
  have "leaf_comm env k' v' = Ok d" using e(2) p(2) by simp
  note eqs = leaf_comm_inj [OF assms(2,4) p(2) this]
  then have "k' = k" using assms(3) by (auto dest: injD)
  then have "mt_lookup st ver k = Ok v'"
    using mt_lookup_refines [OF assms(1), of ver k] t rt(3) e(1) by (simp add: map_of_eq_Some_iff)
  moreover have "proof_key_value pr = Some (k, v)" using p(1) by simp
  ultimately show ?thesis using eqs by metis
qed

theorem mt_proof_sound_witness:
  "\<exists>k v v'. proof_key_value (toy_proof 30) = Some (k, v) \<and> mt_lookup toy_table Head k = Ok v' \<and>
     u256_to_field (field_from_le_bytes toy_env) v = u256_to_field (field_from_le_bytes toy_env) v'"
  by (rule mt_proof_sound [OF toy_inv toy_env_collision_free _ _ toy_commitment toy_verify])
    (simp_all add: toy_env_def inj_def)


text \<open>
  The amount in a proof is only bound as a field element: replacing it by another amount with
  the same field element (one that differs by the field's modulus) gives a proof that verifies as well.
\<close>
theorem mt_proof_amount_not_bound:
  assumes "proof_verify env \<lparr>index = i, path = PathLeaf k v # es\<rparr> c = Ok ()"
    and "u256_to_field (field_from_le_bytes env) v' = u256_to_field (field_from_le_bytes env) v"
  shows "proof_verify env \<lparr>index = i, path = PathLeaf k v' # es\<rparr> c = Ok ()"
proof -
  have "leaf_comm env k v' = leaf_comm env k v" unfolding leaf_comm_def assms(2) ..
  then show ?thesis using assms(1) by (simp add: proof_verify_eq_Ok compute_root_eq_Ok proof_tree_height_def)
qed

theorem mt_proof_amount_not_bound_witness:
  "proof_verify toy_env (toy_proof 131) toy_comm = Ok () \<and> mt_lookup toy_table Head 7 = Ok 30"
proof -
  have "proof_verify toy_env (toy_proof 131) toy_comm = Ok ()"
    using toy_verify unfolding toy_proof_def
    by (rule mt_proof_amount_not_bound) (simp add: toy_env_def u256_to_field_def)
  then show ?thesis by (simp add: toy_table_def toy_tree_def mt_lookup_def mt_root_def TREE_BRANCH_def index_at_def)
qed





text \<open>
  A full table refuses every registration.  When \<open>3 ^ height\<close> keys are registered, registering
  one more, known or new, changes nothing and reports \<open>ExistingKey\<close>.
\<close>
theorem mt_register_full:
  assumes "mt_inv env st" and "length (mt_mapping st) = 3 ^ mt_height st"
  shows "mt_register env k a x st = Err ExistingKey"
proof -
  have pk: "packed env (mt_height st) (3 ^ mt_height st) (mt_head st)"
    using assms unfolding mt_inv_def by metis
  have "path_for (mt_height st) (to_merkle_path (3 ^ mt_height st) (mt_height st)) 0"
    using path_for_to_merkle_path [of "mt_height st" "3 ^ mt_height st"]
      mod_power_digit [of _ "mt_height st" "3 ^ mt_height st"]
    by (auto simp: path_for_def)
  then show ?thesis
    using tree_register_occupied [OF pk, of _ 0 k a] assms(2) by (simp add: mt_register_def)
qed

definition full_table :: "(nat, nat) mt_table" where
  "full_table = (mt_new 0)\<lparr>mt_head := Leaf (Suc (to_nat [7, 0, 30 :: nat])) 7 30, mt_mapping := [(7, 0)]\<rparr>"

theorem mt_register_full_witness:
  "mt_register toy_env 8 5 () full_table = Err ExistingKey"
  by (rule mt_register_full)
    (simp_all add: full_table_def mt_inv_def mt_new_def toy_env_def leaf_comm_def u256_to_field_def replicate_two)

end
