(* ===== verification/Anytrace.thy ===== *)
theory Anytrace
  imports Prelude
begin

text \<open>
  The error type of the workspace, \<open>crates/utils/src/anytrace.rs\<close>: a log level and a message.
  A message is kept as the list of its fixed texts, outermost first, one for each attached
  context; values interpolated into a text are not kept.  The lemmas show how attaching context
  changes level and message.
\<close>

section \<open>Levels and errors\<close>

datatype Level = Unspecified | Trace | Debug | Info | Warn | ErrorLevel

fun level_rank :: "Level \<Rightarrow> nat" where
  "level_rank Unspecified = 0"
| "level_rank Trace = 1"
| "level_rank Debug = 2"
| "level_rank Info = 3"
| "level_rank Warn = 4"
| "level_rank ErrorLevel = 5"

lemma level_rank_inj: "level_rank a = level_rank b \<longleftrightarrow> a = b"
  by (cases a; cases b) simp_all

instantiation Level :: linorder
begin

definition less_eq_Level :: "Level \<Rightarrow> Level \<Rightarrow> bool" where
  "a \<le> b \<longleftrightarrow> level_rank a \<le> level_rank b"

definition less_Level :: "Level \<Rightarrow> Level \<Rightarrow> bool" where
  "a < b \<longleftrightarrow> level_rank a < level_rank b"

instance
  by standard (auto simp: less_eq_Level_def less_Level_def level_rank_inj)

end

datatype error = Error (level: Level) (message: "string list")

definition DEFAULT_LOG_LEVEL :: Level where
  "DEFAULT_LOG_LEVEL = Debug"

text \<open>The level an error is printed at.\<close>

definition log_level :: "error \<Rightarrow> Level" where
  "log_level e = (if level e = Unspecified then DEFAULT_LOG_LEVEL else level e)"

definition wrap :: "string \<Rightarrow> ('a, 'e) result \<Rightarrow> ('a, error) result" where
  "wrap txt r = map_err (\<lambda>_. Error Unspecified [txt]) r"

definition with_context :: "error \<Rightarrow> ('a, error) result \<Rightarrow> ('a, error) result" where
  "with_context err r =
     map_err (\<lambda>cause. Error (max (level err) (level cause)) (message err @ message cause)) r"

definition opt_context :: "error \<Rightarrow> 'a option \<Rightarrow> ('a, error) result" where
  "opt_context err x = ok_or x err"

section \<open>Lemmas\<close>

lemma with_context_eq_Ok [result_simps]: "with_context err r = Ok x \<longleftrightarrow> r = Ok x"
  by (simp add: with_context_def result_simps)

lemma opt_context_eq_Ok [result_simps]: "opt_context err x = Ok y \<longleftrightarrow> x = Some y"
  by (simp add: opt_context_def result_simps)

lemma wrap_eq_Ok [result_simps]: "wrap txt r = Ok x \<longleftrightarrow> r = Ok x"
  by (simp add: wrap_def result_simps)

lemma with_context_Ok [simp]: "with_context err (Ok x) = Ok x"
  by (simp add: with_context_def)

lemma with_context_Panic [simp]: "with_context err Panic = Panic"
  by (simp add: with_context_def)

lemma opt_context_simps [simp]:
  "opt_context err (Some x) = Ok x"
  "opt_context err None = Err err"
  by (simp_all add: opt_context_def)

text \<open>Attaching context never hides the severity of the cause.\<close>

lemma with_context_level:
  "with_context err r = Err e' \<Longrightarrow> \<exists>e. r = Err e \<and> level e \<le> level e' \<and> level err \<le> level e'"
  by (cases r) (auto simp: with_context_def)

end
