(* ===== verification/Votes.thy ===== *)
theory Votes
  imports Anytrace "HOL-Library.Countable"
begin

text \<open>
  Votes and certificates as data: \<open>crates/types/src/simple_vote.rs\<close> and the types and
  conversions of \<open>crates/types/src/simple_certificate.rs\<close>.

  Byte strings are lists of 8-bit words and a commitment is the byte string of its digest.  Keys
  and signatures are opaque numbers.  A commitment is computed by the builder of the
  \<open>committable\<close> crate; the model keeps the sequence of builder calls (\<open>cb_op\<close>) and takes the
  digest of a sequence, \<open>finalize\<close>, as a parameter.  The lemmas relate the commitments of the
  different data types and show that the conversions between the two generations of votes and
  certificates are inverse where the newer one carries no epoch.
\<close>

section \<open>Opaque values and the commitment builder\<close>

type_synonym bytes = "8 word list"
type_synonym commitment = bytes
type_synonym pubkey = nat
type_synonym sig = nat
type_synonym epoch = u64
type_synonym bitvec = "bool list"

text \<open>An assembled certificate signature: the aggregated signature and the signers.\<close>

type_synonym qc_type = "sig \<times> bitvec"

datatype cb_op =
    Tag string
  | Var_size_bytes bytes
  | U64 u64
  | U16 "16 word"
  | U64_field string u64
  | Field string commitment
  | Var_size_field string bytes
  | Fixed_size_field string bytes
  | Fixed_size_bytes bytes
  | Optional string "commitment option"
  | Constant_str string

instance cb_op :: countable
  by countable_datatype

text \<open>The digest function of the builder, and its freedom from collisions where a property needs it.\<close>

type_synonym finalizer = "cb_op list \<Rightarrow> commitment"

definition binding :: "finalizer \<Rightarrow> bool" where
  "binding fin \<longleftrightarrow> inj fin"

section \<open>Voteable data\<close>

datatype Version = Version (major: "16 word") (minor: "16 word")

datatype QuorumData = QuorumData commitment
datatype QuorumData2 = QuorumData2 (leaf_commit: commitment) (qd_epoch: "epoch option")
datatype NextEpochQuorumData2 = NextEpochQuorumData2 QuorumData2
datatype DaData = DaData commitment
datatype DaData2 = DaData2 (payload_commit: commitment) (da_epoch: "epoch option")
datatype TimeoutData = TimeoutData u64
datatype TimeoutData2 = TimeoutData2 (timeout_view: u64) (timeout_epoch: "epoch option")
datatype ViewSyncPreCommitData = ViewSyncPreCommitData u64 u64
datatype ViewSyncPreCommitData2 = ViewSyncPreCommitData2 u64 u64 "epoch option"
datatype ViewSyncCommitData = ViewSyncCommitData u64 u64
datatype ViewSyncCommitData2 = ViewSyncCommitData2 u64 u64 "epoch option"
datatype ViewSyncFinalizeData = ViewSyncFinalizeData u64 u64
datatype ViewSyncFinalizeData2 = ViewSyncFinalizeData2 u64 u64 "epoch option"

datatype UpgradeProposalData = UpgradeProposalData
  (old_version: Version) (new_version: Version) (decide_by: u64) (new_version_hash: bytes)
  (old_version_last_view: u64) (new_version_first_view: u64)

datatype UpgradeData2 = UpgradeData2 Version Version bytes "epoch option"

section \<open>Commitments\<close>

definition epoch_number_field :: "epoch option \<Rightarrow> cb_op list" where
  "epoch_number_field e = (case e of Some n \<Rightarrow> [U64_field ''epoch number'' n] | None \<Rightarrow> [])"

fun commit_QuorumData :: "finalizer \<Rightarrow> QuorumData \<Rightarrow> commitment" where
  "commit_QuorumData fin (QuorumData lc) = fin [Tag ''Quorum data'', Var_size_bytes lc]"

fun commit_QuorumData2 :: "finalizer \<Rightarrow> QuorumData2 \<Rightarrow> commitment" where
  "commit_QuorumData2 fin (QuorumData2 lc e) =
     fin ([Tag ''Quorum data'', Var_size_bytes lc] @ epoch_number_field e)"

fun commit_NextEpochQuorumData2 :: "finalizer \<Rightarrow> NextEpochQuorumData2 \<Rightarrow> commitment" where
  "commit_NextEpochQuorumData2 fin (NextEpochQuorumData2 (QuorumData2 lc e)) =
     fin ([Tag ''Quorum data'', Var_size_bytes lc] @ epoch_number_field e)"

fun commit_TimeoutData :: "finalizer \<Rightarrow> TimeoutData \<Rightarrow> commitment" where
  "commit_TimeoutData fin (TimeoutData v) = fin [Tag ''Timeout data'', U64 v]"

fun commit_TimeoutData2 :: "finalizer \<Rightarrow> TimeoutData2 \<Rightarrow> commitment" where
  "commit_TimeoutData2 fin (TimeoutData2 v _) = fin [Tag ''Timeout data'', U64 v]"

fun commit_DaData :: "finalizer \<Rightarrow> DaData \<Rightarrow> commitment" where
  "commit_DaData fin (DaData pc) = fin [Tag ''DA data'', Var_size_bytes pc]"

fun commit_DaData2 :: "finalizer \<Rightarrow> DaData2 \<Rightarrow> commitment" where
  "commit_DaData2 fin (DaData2 pc e) = fin ([Tag ''DA data'', Var_size_bytes pc] @ epoch_number_field e)"

definition commit_UpgradeProposalData :: "finalizer \<Rightarrow> UpgradeProposalData \<Rightarrow> commitment" where
  "commit_UpgradeProposalData fin d =
     fin [Tag ''Upgrade data'', U64 (decide_by d), U64 (new_version_first_view d),
          U64 (old_version_last_view d), Var_size_bytes (new_version_hash d),
          U16 (minor (new_version d)), U16 (major (new_version d)),
          U16 (minor (old_version d)), U16 (major (old_version d))]"

fun commit_UpgradeData2 :: "finalizer \<Rightarrow> UpgradeData2 \<Rightarrow> commitment" where
  "commit_UpgradeData2 fin (UpgradeData2 old new hash e) =
     fin ([Tag ''Upgrade data'', U16 (minor old), U16 (major old), U16 (minor new), U16 (major new),
           Var_size_bytes hash] @ epoch_number_field e)"

definition view_and_relay_commit :: "finalizer \<Rightarrow> u64 \<Rightarrow> u64 \<Rightarrow> epoch option \<Rightarrow> string \<Rightarrow> commitment" where
  "view_and_relay_commit fin view relay e tag = fin ([Tag tag, U64 view, U64 relay] @ epoch_number_field e)"

fun commit_ViewSyncPreCommitData :: "finalizer \<Rightarrow> ViewSyncPreCommitData \<Rightarrow> commitment" where
  "commit_ViewSyncPreCommitData fin (ViewSyncPreCommitData relay rnd) =
     view_and_relay_commit fin rnd relay None ''View Sync Precommit''"

fun commit_ViewSyncPreCommitData2 :: "finalizer \<Rightarrow> ViewSyncPreCommitData2 \<Rightarrow> commitment" where
  "commit_ViewSyncPreCommitData2 fin (ViewSyncPreCommitData2 relay rnd e) =
     view_and_relay_commit fin rnd relay e ''View Sync Precommit''"

fun commit_ViewSyncFinalizeData :: "finalizer \<Rightarrow> ViewSyncFinalizeData \<Rightarrow> commitment" where
  "commit_ViewSyncFinalizeData fin (ViewSyncFinalizeData relay rnd) =
     view_and_relay_commit fin rnd relay None ''View Sync Finalize''"

fun commit_ViewSyncFinalizeData2 :: "finalizer \<Rightarrow> ViewSyncFinalizeData2 \<Rightarrow> commitment" where
  "commit_ViewSyncFinalizeData2 fin (ViewSyncFinalizeData2 relay rnd e) =
     view_and_relay_commit fin rnd relay e ''View Sync Finalize''"

fun commit_ViewSyncCommitData :: "finalizer \<Rightarrow> ViewSyncCommitData \<Rightarrow> commitment" where
  "commit_ViewSyncCommitData fin (ViewSyncCommitData relay rnd) =
     view_and_relay_commit fin rnd relay None ''View Sync Commit''"

fun commit_ViewSyncCommitData2 :: "finalizer \<Rightarrow> ViewSyncCommitData2 \<Rightarrow> commitment" where
  "commit_ViewSyncCommitData2 fin (ViewSyncCommitData2 relay rnd e) =
     view_and_relay_commit fin rnd relay e ''View Sync Commit''"

section \<open>Epochs of the data\<close>

fun epoch_NextEpochQuorumData2 :: "NextEpochQuorumData2 \<Rightarrow> epoch option" where
  "epoch_NextEpochQuorumData2 (NextEpochQuorumData2 d) = qd_epoch d"

fun epoch_ViewSyncPreCommitData2 :: "ViewSyncPreCommitData2 \<Rightarrow> epoch option" where
  "epoch_ViewSyncPreCommitData2 (ViewSyncPreCommitData2 _ _ e) = e"

fun epoch_ViewSyncCommitData2 :: "ViewSyncCommitData2 \<Rightarrow> epoch option" where
  "epoch_ViewSyncCommitData2 (ViewSyncCommitData2 _ _ e) = e"

fun epoch_ViewSyncFinalizeData2 :: "ViewSyncFinalizeData2 \<Rightarrow> epoch option" where
  "epoch_ViewSyncFinalizeData2 (ViewSyncFinalizeData2 _ _ e) = e"

fun epoch_UpgradeData2 :: "UpgradeData2 \<Rightarrow> epoch option" where
  "epoch_UpgradeData2 (UpgradeData2 _ _ _ e) = e"

section \<open>Votes and certificates\<close>

record 'd SimpleVote =
  v_signature :: "pubkey \<times> sig"
  v_data :: 'd
  v_view_number :: u64

record 'd SimpleCertificate =
  c_data :: 'd
  c_vote_commitment :: commitment
  c_view_number :: u64
  c_signatures :: "qc_type option"

type_synonym QuorumVote = "QuorumData SimpleVote"
type_synonym QuorumVote2 = "QuorumData2 SimpleVote"
type_synonym NextEpochQuorumVote2 = "NextEpochQuorumData2 SimpleVote"
type_synonym DaVote = "DaData SimpleVote"
type_synonym DaVote2 = "DaData2 SimpleVote"
type_synonym TimeoutVote = "TimeoutData SimpleVote"
type_synonym TimeoutVote2 = "TimeoutData2 SimpleVote"
type_synonym UpgradeVote = "UpgradeProposalData SimpleVote"

type_synonym QuorumCertificate = "QuorumData SimpleCertificate"
type_synonym QuorumCertificate2 = "QuorumData2 SimpleCertificate"
type_synonym NextEpochQuorumCertificate2 = "NextEpochQuorumData2 SimpleCertificate"
type_synonym DaCertificate = "DaData SimpleCertificate"
type_synonym DaCertificate2 = "DaData2 SimpleCertificate"
type_synonym TimeoutCertificate = "TimeoutData SimpleCertificate"
type_synonym TimeoutCertificate2 = "TimeoutData2 SimpleCertificate"
type_synonym ViewSyncPreCommitCertificate = "ViewSyncPreCommitData SimpleCertificate"
type_synonym ViewSyncPreCommitCertificate2 = "ViewSyncPreCommitData2 SimpleCertificate"
type_synonym ViewSyncCommitCertificate = "ViewSyncCommitData SimpleCertificate"
type_synonym ViewSyncCommitCertificate2 = "ViewSyncCommitData2 SimpleCertificate"
type_synonym ViewSyncFinalizeCertificate = "ViewSyncFinalizeData SimpleCertificate"
type_synonym ViewSyncFinalizeCertificate2 = "ViewSyncFinalizeData2 SimpleCertificate"
type_synonym UpgradeCertificate = "UpgradeProposalData SimpleCertificate"

definition signing_key :: "'d SimpleVote \<Rightarrow> pubkey" where
  "signing_key v = fst (v_signature v)"

definition vote_signature :: "'d SimpleVote \<Rightarrow> sig" where
  "vote_signature v = snd (v_signature v)"

definition certificate_new :: "'d \<Rightarrow> commitment \<Rightarrow> u64 \<Rightarrow> qc_type option \<Rightarrow> 'd SimpleCertificate" where
  "certificate_new d vc view sigs =
     \<lparr>c_data = d, c_vote_commitment = vc, c_view_number = view, c_signatures = sigs\<rparr>"

text \<open>Replace the data of a vote or certificate, keeping everything else.\<close>

definition vote_with :: "('a \<Rightarrow> 'b) \<Rightarrow> 'a SimpleVote \<Rightarrow> 'b SimpleVote" where
  "vote_with f v = \<lparr>v_signature = v_signature v, v_data = f (v_data v), v_view_number = v_view_number v\<rparr>"

definition cert_with :: "('a \<Rightarrow> 'b) \<Rightarrow> 'a SimpleCertificate \<Rightarrow> 'b SimpleCertificate" where
  "cert_with f c =
     \<lparr>c_data = f (c_data c), c_vote_commitment = c_vote_commitment c, c_view_number = c_view_number c,
      c_signatures = c_signatures c\<rparr>"

section \<open>Conversions\<close>

fun quorum_data2 :: "QuorumData \<Rightarrow> QuorumData2" where
  "quorum_data2 (QuorumData lc) = QuorumData2 lc None"

fun quorum_data1 :: "QuorumData2 \<Rightarrow> QuorumData" where
  "quorum_data1 (QuorumData2 lc e) = QuorumData lc"

fun da_data2 :: "DaData \<Rightarrow> DaData2" where
  "da_data2 (DaData pc) = DaData2 pc None"

fun da_data1 :: "DaData2 \<Rightarrow> DaData" where
  "da_data1 (DaData2 pc e) = DaData pc"

fun timeout_data2 :: "TimeoutData \<Rightarrow> TimeoutData2" where
  "timeout_data2 (TimeoutData v) = TimeoutData2 v None"

fun timeout_data1 :: "TimeoutData2 \<Rightarrow> TimeoutData" where
  "timeout_data1 (TimeoutData2 v e) = TimeoutData v"

fun pre_commit_data2 :: "ViewSyncPreCommitData \<Rightarrow> ViewSyncPreCommitData2" where
  "pre_commit_data2 (ViewSyncPreCommitData relay rnd) = ViewSyncPreCommitData2 relay rnd None"

fun pre_commit_data1 :: "ViewSyncPreCommitData2 \<Rightarrow> ViewSyncPreCommitData" where
  "pre_commit_data1 (ViewSyncPreCommitData2 relay rnd e) = ViewSyncPreCommitData relay rnd"

fun commit_data2 :: "ViewSyncCommitData \<Rightarrow> ViewSyncCommitData2" where
  "commit_data2 (ViewSyncCommitData relay rnd) = ViewSyncCommitData2 relay rnd None"

fun commit_data1 :: "ViewSyncCommitData2 \<Rightarrow> ViewSyncCommitData" where
  "commit_data1 (ViewSyncCommitData2 relay rnd e) = ViewSyncCommitData relay rnd"

fun finalize_data2 :: "ViewSyncFinalizeData \<Rightarrow> ViewSyncFinalizeData2" where
  "finalize_data2 (ViewSyncFinalizeData relay rnd) = ViewSyncFinalizeData2 relay rnd None"

fun finalize_data1 :: "ViewSyncFinalizeData2 \<Rightarrow> ViewSyncFinalizeData" where
  "finalize_data1 (ViewSyncFinalizeData2 relay rnd e) = ViewSyncFinalizeData relay rnd"

definition QuorumVote_to_vote2 :: "QuorumData SimpleVote \<Rightarrow> QuorumData2 SimpleVote" where
  "QuorumVote_to_vote2 v = vote_with quorum_data2 v"

definition QuorumVote2_to_vote :: "QuorumData2 SimpleVote \<Rightarrow> QuorumData SimpleVote" where
  "QuorumVote2_to_vote v = vote_with quorum_data1 v"

definition DaVote_to_vote2 :: "DaData SimpleVote \<Rightarrow> DaData2 SimpleVote" where
  "DaVote_to_vote2 v = vote_with da_data2 v"

definition DaVote2_to_vote :: "DaData2 SimpleVote \<Rightarrow> DaData SimpleVote" where
  "DaVote2_to_vote v = vote_with da_data1 v"

definition TimeoutVote_to_vote2 :: "TimeoutData SimpleVote \<Rightarrow> TimeoutData2 SimpleVote" where
  "TimeoutVote_to_vote2 v = vote_with timeout_data2 v"

definition TimeoutVote2_to_vote :: "TimeoutData2 SimpleVote \<Rightarrow> TimeoutData SimpleVote" where
  "TimeoutVote2_to_vote v = vote_with timeout_data1 v"

definition ViewSyncPreCommitVote_to_vote2 :: "ViewSyncPreCommitData SimpleVote \<Rightarrow> ViewSyncPreCommitData2 SimpleVote" where
  "ViewSyncPreCommitVote_to_vote2 v = vote_with pre_commit_data2 v"

definition ViewSyncPreCommitVote2_to_vote :: "ViewSyncPreCommitData2 SimpleVote \<Rightarrow> ViewSyncPreCommitData SimpleVote" where
  "ViewSyncPreCommitVote2_to_vote v = vote_with pre_commit_data1 v"

definition ViewSyncCommitVote_to_vote2 :: "ViewSyncCommitData SimpleVote \<Rightarrow> ViewSyncCommitData2 SimpleVote" where
  "ViewSyncCommitVote_to_vote2 v = vote_with commit_data2 v"

definition ViewSyncCommitVote2_to_vote :: "ViewSyncCommitData2 SimpleVote \<Rightarrow> ViewSyncCommitData SimpleVote" where
  "ViewSyncCommitVote2_to_vote v = vote_with commit_data1 v"

definition ViewSyncFinalizeVote_to_vote2 :: "ViewSyncFinalizeData SimpleVote \<Rightarrow> ViewSyncFinalizeData2 SimpleVote" where
  "ViewSyncFinalizeVote_to_vote2 v = vote_with finalize_data2 v"

definition ViewSyncFinalizeVote2_to_vote :: "ViewSyncFinalizeData2 SimpleVote \<Rightarrow> ViewSyncFinalizeData SimpleVote" where
  "ViewSyncFinalizeVote2_to_vote v = vote_with finalize_data1 v"

definition to_qc2 :: "QuorumData SimpleCertificate \<Rightarrow> QuorumData2 SimpleCertificate" where
  "to_qc2 c = cert_with quorum_data2 c"

definition to_qc :: "QuorumData2 SimpleCertificate \<Rightarrow> QuorumData SimpleCertificate" where
  "to_qc c = cert_with quorum_data1 c"

definition to_dac2 :: "DaData SimpleCertificate \<Rightarrow> DaData2 SimpleCertificate" where
  "to_dac2 c = cert_with da_data2 c"

definition to_dac :: "DaData2 SimpleCertificate \<Rightarrow> DaData SimpleCertificate" where
  "to_dac c = cert_with da_data1 c"

definition pre_commit_to_vsc2 :: "ViewSyncPreCommitData SimpleCertificate \<Rightarrow> ViewSyncPreCommitData2 SimpleCertificate" where
  "pre_commit_to_vsc2 c = cert_with pre_commit_data2 c"

definition pre_commit_to_vsc :: "ViewSyncPreCommitData2 SimpleCertificate \<Rightarrow> ViewSyncPreCommitData SimpleCertificate" where
  "pre_commit_to_vsc c = cert_with pre_commit_data1 c"

definition commit_to_vsc2 :: "ViewSyncCommitData SimpleCertificate \<Rightarrow> ViewSyncCommitData2 SimpleCertificate" where
  "commit_to_vsc2 c = cert_with commit_data2 c"

definition commit_to_vsc :: "ViewSyncCommitData2 SimpleCertificate \<Rightarrow> ViewSyncCommitData SimpleCertificate" where
  "commit_to_vsc c = cert_with commit_data1 c"

definition finalize_to_vsc2 :: "ViewSyncFinalizeData SimpleCertificate \<Rightarrow> ViewSyncFinalizeData2 SimpleCertificate" where
  "finalize_to_vsc2 c = cert_with finalize_data2 c"

definition finalize_to_vsc :: "ViewSyncFinalizeData2 SimpleCertificate \<Rightarrow> ViewSyncFinalizeData SimpleCertificate" where
  "finalize_to_vsc c = cert_with finalize_data1 c"

definition to_tc2 :: "TimeoutData SimpleCertificate \<Rightarrow> TimeoutData2 SimpleCertificate" where
  "to_tc2 c = cert_with timeout_data2 c"

definition to_tc :: "TimeoutData2 SimpleCertificate \<Rightarrow> TimeoutData SimpleCertificate" where
  "to_tc c = cert_with timeout_data1 c"

definition next_epoch_vote :: "QuorumVote2 \<Rightarrow> NextEpochQuorumVote2" where
  "next_epoch_vote v = vote_with (\<lambda>d. NextEpochQuorumData2 (QuorumData2 (leaf_commit d) (qd_epoch d))) v"

section \<open>Lemmas\<close>

lemma vote_with_comp: "vote_with g (vote_with f v) = vote_with (\<lambda>d. g (f d)) v"
  by (simp add: vote_with_def)

lemma cert_with_comp: "cert_with g (cert_with f c) = cert_with (\<lambda>d. g (f d)) c"
  by (simp add: cert_with_def)

lemma vote_with_id: "f (v_data v) = v_data v \<Longrightarrow> vote_with f v = v"
  by (cases v) (simp add: vote_with_def)

lemma cert_with_id: "f (c_data c) = c_data c \<Longrightarrow> cert_with f c = c"
  by (cases c) (simp add: cert_with_def)

lemma data_round_trips:
  "quorum_data1 (quorum_data2 q) = q" "da_data1 (da_data2 d) = d" "timeout_data1 (timeout_data2 t) = t"
  "pre_commit_data1 (pre_commit_data2 p) = p" "commit_data1 (commit_data2 c) = c" "finalize_data1 (finalize_data2 f) = f"
  by (cases q, simp) (cases d, simp, cases t, simp, cases p, simp, cases c, simp, cases f, simp)

lemma data_round_trips_back:
  "qd_epoch q = None \<Longrightarrow> quorum_data2 (quorum_data1 q) = q"
  "da_epoch d = None \<Longrightarrow> da_data2 (da_data1 d) = d"
  "timeout_epoch t = None \<Longrightarrow> timeout_data2 (timeout_data1 t) = t"
  "epoch_ViewSyncPreCommitData2 p = None \<Longrightarrow> pre_commit_data2 (pre_commit_data1 p) = p"
  "epoch_ViewSyncCommitData2 c = None \<Longrightarrow> commit_data2 (commit_data1 c) = c"
  "epoch_ViewSyncFinalizeData2 f = None \<Longrightarrow> finalize_data2 (finalize_data1 f) = f"
  by (cases q, simp) (cases d, simp, cases t, simp, cases p, simp, cases c, simp, cases f, simp)

lemma commit_quorum_data2: "commit_QuorumData2 fin (quorum_data2 d) = commit_QuorumData fin d"
  by (cases d) (simp add: epoch_number_field_def)

lemma commit_da_data2: "commit_DaData2 fin (da_data2 d) = commit_DaData fin d"
  by (cases d) (simp add: epoch_number_field_def)

lemma commit_timeout_data2: "commit_TimeoutData2 fin (timeout_data2 d) = commit_TimeoutData fin d"
  by (cases d) simp

lemma epoch_number_field_inj: "epoch_number_field a = epoch_number_field b \<longleftrightarrow> a = b"
  by (auto simp: epoch_number_field_def split: option.splits)

text \<open>Under a binding digest the quorum data is determined by its commitment.\<close>

lemma commit_QuorumData2_inj:
  "binding fin \<Longrightarrow> commit_QuorumData2 fin d = commit_QuorumData2 fin d' \<longleftrightarrow> d = d'"
  by (cases d; cases d') (auto simp: binding_def inj_eq epoch_number_field_inj)

end
