(* ===== verification/Versions.thy ===== *)
theory Versions
  imports Votes
begin

text \<open>
  Protocol versions: the \<open>Versions\<close> trait (\<open>crates/types/src/traits/node_implementation.rs\<close>), the
  upgrade lock and the versioned wire format (\<open>crates/types/src/message.rs\<close>, lines 605 to 744), the
  versioned vote data of \<open>simple_vote.rs\<close> and the relevance checks of upgrade certificates in
  \<open>simple_certificate.rs\<close>.  The comparison of versions and the serializer come from the \<open>vbs\<close> crate
  and are parameters.
\<close>

section \<open>Versions and the upgrade lock\<close>

record versions =
  V_Base :: Version
  V_Upgrade :: Version
  V_UPGRADE_HASH :: bytes
  V_Marketplace :: Version
  V_Epochs :: Version
  version_ge :: "Version \<Rightarrow> Version \<Rightarrow> bool"

datatype UpgradeLock = UpgradeLock (decided_upgrade_certificate: "UpgradeCertificate option")

definition upgrade_lock_new :: UpgradeLock where
  "upgrade_lock_new = UpgradeLock None"

definition from_certificate :: "UpgradeCertificate option \<Rightarrow> UpgradeLock" where
  "from_certificate certificate = UpgradeLock certificate"

definition version :: "versions \<Rightarrow> UpgradeLock \<Rightarrow> u64 \<Rightarrow> (Version, error) result" where
  "version V lock view =
     (case decided_upgrade_certificate lock of
        Some cert \<Rightarrow>
          (if new_version_first_view (c_data cert) \<le> view then
             (if new_version (c_data cert) = V_Upgrade V then Ok (V_Upgrade V)
              else Err (Error Unspecified
                [''The network has upgraded to a new version that we do not support!'']))
           else Ok (V_Base V))
      | None \<Rightarrow> Ok (V_Base V))"

definition version_infallible :: "versions \<Rightarrow> UpgradeLock \<Rightarrow> u64 \<Rightarrow> Version" where
  "version_infallible V lock view =
     (case decided_upgrade_certificate lock of
        Some cert \<Rightarrow>
          (if new_version_first_view (c_data cert) \<le> view then new_version (c_data cert)
           else old_version (c_data cert))
      | None \<Rightarrow> V_Base V)"

definition epochs_enabled :: "versions \<Rightarrow> UpgradeLock \<Rightarrow> u64 \<Rightarrow> bool" where
  "epochs_enabled V lock view = version_ge V (version_infallible V lock view) (V_Epochs V)"

definition genesis_epoch_from_version :: "versions \<Rightarrow> epoch option" where
  "genesis_epoch_from_version V = (if version_ge V (V_Base V) (V_Epochs V) then Some 1 else None)"

section \<open>The wire format\<close>

text \<open>
  The serializer for a version, its inverse, and the version read from the first bytes of a message.
\<close>

record 'm wire =
  wire_serialize :: "Version \<Rightarrow> 'm \<Rightarrow> bytes option"
  wire_deserialize :: "Version \<Rightarrow> bytes \<Rightarrow> 'm option"
  wire_version :: "bytes \<Rightarrow> Version option"
  wire_view_number :: "'m \<Rightarrow> u64"

definition lock_serialize :: "versions \<Rightarrow> 'm wire \<Rightarrow> UpgradeLock \<Rightarrow> 'm \<Rightarrow> (bytes, error) result" where
  "lock_serialize V w lock m =
     and_then (version V lock (wire_view_number w m)) (\<lambda>v.
     if v = V_Base V then
       with_context (Error Info [''Failed to serialize message!''])
         (ok_or (wire_serialize w (V_Base V) m) (Error Unspecified []))
     else if v = V_Upgrade V then
       with_context (Error Info [''Failed to serialize message!''])
         (ok_or (wire_serialize w (V_Upgrade V) m) (Error Unspecified []))
     else Err (Error Unspecified
       [''Attempted to serialize with an incompatible version. This should be impossible.'']))"

definition lock_deserialize :: "versions \<Rightarrow> 'm wire \<Rightarrow> UpgradeLock \<Rightarrow> bytes \<Rightarrow> ('m, error) result" where
  "lock_deserialize V w lock bs =
     and_then (with_context (Error Info [''Failed to read message version!''])
       (ok_or (wire_version w bs) (Error Unspecified []))) (\<lambda>actual_version.
     and_then (if actual_version = V_Base V then
                 with_context (Error Info [''Failed to deserialize message!''])
                   (ok_or (wire_deserialize w (V_Base V) bs) (Error Unspecified []))
               else if actual_version = V_Upgrade V then
                 with_context (Error Info [''Failed to deserialize message!''])
                   (ok_or (wire_deserialize w (V_Upgrade V) bs) (Error Unspecified []))
               else Err (Error Unspecified [''Cannot deserialize message with stated version''])) (\<lambda>m.
     and_then (version V lock (wire_view_number w m)) (\<lambda>expected_version.
     and_then (ensure (actual_version = expected_version)
       (Error Unspecified [''Message has invalid version number for its view.''])) (\<lambda>_.
     Ok m))))"

text \<open>What the documentation of the serializer promises.\<close>

definition wire_ok :: "'m wire \<Rightarrow> bool" where
  "wire_ok w \<longleftrightarrow>
     (\<forall>v m bs. wire_serialize w v m = Some bs \<longrightarrow>
        wire_version w bs = Some v \<and> wire_deserialize w v bs = Some m)"

section \<open>Versioned vote data\<close>

record 'd VersionedVoteData =
  vv_data :: 'd
  vv_view :: u64
  vv_version :: Version

definition versioned_new :: "versions \<Rightarrow> UpgradeLock \<Rightarrow> 'd \<Rightarrow> u64 \<Rightarrow> ('d VersionedVoteData, error) result" where
  "versioned_new V lock d view =
     and_then (version V lock view) (\<lambda>v. Ok \<lparr>vv_data = d, vv_view = view, vv_version = v\<rparr>)"

definition versioned_new_infallible :: "versions \<Rightarrow> UpgradeLock \<Rightarrow> 'd \<Rightarrow> u64 \<Rightarrow> 'd VersionedVoteData" where
  "versioned_new_infallible V lock d view =
     \<lparr>vv_data = d, vv_view = view, vv_version = version_infallible V lock view\<rparr>"

definition commit_versioned :: "finalizer \<Rightarrow> ('d \<Rightarrow> commitment) \<Rightarrow> 'd VersionedVoteData \<Rightarrow> commitment" where
  "commit_versioned fin commit_data d =
     fin [Tag ''Vote'', Var_size_bytes (commit_data (vv_data d)), U64 (vv_view d)]"

definition create_signed_vote ::
  "finalizer \<Rightarrow> versions \<Rightarrow> ('d \<Rightarrow> commitment) \<Rightarrow> (bytes \<Rightarrow> sig option) \<Rightarrow> 'd \<Rightarrow> u64 \<Rightarrow> pubkey \<Rightarrow> UpgradeLock \<Rightarrow>
   ('d SimpleVote, error) result" where
  "create_signed_vote fin V commit_data sign d view pub_key lock =
     and_then (versioned_new V lock d view) (\<lambda>vd.
     and_then (with_context (Error ErrorLevel [''Failed to sign vote''])
       (ok_or (sign (commit_versioned fin commit_data vd)) (Error Unspecified []))) (\<lambda>s.
     Ok \<lparr>v_signature = (pub_key, s), v_data = d, v_view_number = view\<rparr>))"

section \<open>Upgrade certificates\<close>

definition is_relevant :: "UpgradeCertificate \<Rightarrow> u64 \<Rightarrow> UpgradeCertificate option \<Rightarrow> (unit, error) result" where
  "is_relevant cert view_number decided =
     ensure (view_number \<le> decide_by (c_data cert) \<or> decided = Some cert)
       (Error Unspecified [''Upgrade certificate is no longer relevant.''])"

definition upgrading_in :: "UpgradeCertificate \<Rightarrow> u64 \<Rightarrow> bool" where
  "upgrading_in cert view \<longleftrightarrow>
     old_version_last_view (c_data cert) < view \<and> view < new_version_first_view (c_data cert)"

section \<open>Lemmas\<close>

lemma version_cases:
  "version V lock view = Ok v \<Longrightarrow> v = V_Base V \<or> v = V_Upgrade V"
  by (auto simp: version_def split: option.splits if_splits)

lemma commit_versioned_inj:
  assumes "binding fin" and "\<And>d d'. commit_data d = commit_data d' \<Longrightarrow> d = d'"
    and "commit_versioned fin commit_data a = commit_versioned fin commit_data b"
  shows "vv_data a = vv_data b \<and> vv_view a = vv_view b"
  using assms by (auto simp: commit_versioned_def binding_def inj_eq)

lemma lock_serialize_eq_Ok:
  "lock_serialize V w lock m = Ok bs \<longleftrightarrow>
     (\<exists>v. version V lock (wire_view_number w m) = Ok v \<and> wire_serialize w v m = Some bs)"
proof (cases "version V lock (wire_view_number w m)")
  case (Ok v)
  then show ?thesis
    using version_cases [OF Ok] by (auto simp: lock_serialize_def result_simps)
qed (simp_all add: lock_serialize_def)

lemma lock_deserialize_eq_Ok:
  "lock_deserialize V w lock bs = Ok m \<longleftrightarrow>
     (\<exists>v. wire_version w bs = Some v \<and> (v = V_Base V \<or> v = V_Upgrade V) \<and> wire_deserialize w v bs = Some m \<and>
          version V lock (wire_view_number w m) = Ok v)"
proof (cases "wire_version w bs")
  case (Some v)
  consider "v = V_Base V" | "v \<noteq> V_Base V" "v = V_Upgrade V" | "v \<noteq> V_Base V" "v \<noteq> V_Upgrade V" by blast
  then show ?thesis
    using Some by cases (auto simp: lock_deserialize_def result_simps)
qed (simp add: lock_deserialize_def with_context_def)

section \<open>Properties\<close>

lemma serialize_reads_back:
  assumes "wire_ok w" and "lock_serialize V w lock m = Ok bs"
  shows "lock_deserialize V w lock bs = Ok m"
proof -
  obtain v where ver: "version V lock (wire_view_number w m) = Ok v" and ser: "wire_serialize w v m = Some bs"
    using assms(2) by (auto simp: lock_serialize_eq_Ok)
  have "wire_version w bs = Some v" "wire_deserialize w v bs = Some m"
    using assms(1) ser by (simp_all add: wire_ok_def)
  then show ?thesis unfolding lock_deserialize_eq_Ok using ver version_cases [OF ver] by blast
qed

text \<open>
  C28. Wire round trip.  A message serialized under an upgrade lock is read back unchanged by every
  node with the same decided upgrade, and a node whose decided upgrade gives the message's view
  another version rejects it.
\<close>
theorem serialize_deserialize:
  assumes "wire_ok w" and "lock_serialize V w lock m = Ok bs"
  shows "lock_deserialize V w lock bs = Ok m \<and>
    (\<forall>lock'. version V lock' (wire_view_number w m) \<noteq> version V lock (wire_view_number w m) \<longrightarrow>
       (\<forall>m'. lock_deserialize V w lock' bs \<noteq> Ok m'))"
proof -
  obtain v where ver: "version V lock (wire_view_number w m) = Ok v" and ser: "wire_serialize w v m = Some bs"
    using assms(2) by (auto simp: lock_serialize_eq_Ok)
  have w: "wire_version w bs = Some v" "wire_deserialize w v bs = Some m"
    using assms(1) ser by (simp_all add: wire_ok_def)
  have "lock_deserialize V w lock bs = Ok m" by (rule serialize_reads_back [OF assms])
  moreover have "lock_deserialize V w lock' bs \<noteq> Ok m'"
    if "version V lock' (wire_view_number w m) \<noteq> version V lock (wire_view_number w m)" for lock' m'
    unfolding lock_deserialize_eq_Ok using ver w that by auto
  ultimately show ?thesis by blast
qed

definition toy_versions :: versions where
  "toy_versions = \<lparr>V_Base = Version 0 1, V_Upgrade = Version 0 2, V_UPGRADE_HASH = [], V_Marketplace = Version 0 3,
     V_Epochs = Version 0 4,
     version_ge = (\<lambda>a b. major b < major a \<or> major a = major b \<and> minor b \<le> minor a)\<rparr>"

definition toy_wire :: "8 word wire" where
  "toy_wire = \<lparr>
     wire_serialize = (\<lambda>v m. if v = Version 0 1 then Some [1, m] else if v = Version 0 2 then Some [2, m] else None),
     wire_deserialize = (\<lambda>v bs. if length bs = 2 then Some (bs ! 1) else None),
     wire_version = (\<lambda>bs. if bs = [] then None else if bs ! 0 = 1 then Some (Version 0 1) else Some (Version 0 2)),
     wire_view_number = (\<lambda>m. ucast m)\<rparr>"

theorem serialize_deserialize_witness:
  "lock_serialize toy_versions toy_wire upgrade_lock_new 7 = Ok [1, 7] \<and>
   lock_deserialize toy_versions toy_wire upgrade_lock_new [1, 7] = Ok 7"
proof -
  have ok: "wire_ok toy_wire" by (auto simp: wire_ok_def toy_wire_def split: if_splits)
  have s: "lock_serialize toy_versions toy_wire upgrade_lock_new 7 = Ok [1, 7]"
    by (simp add: lock_serialize_def toy_versions_def toy_wire_def version_def upgrade_lock_new_def)
  show ?thesis using s serialize_deserialize [OF ok s] by blast
qed

end
