(* ===== verification/BTree.thy ===== *)
theory BTree
  imports Prelude
begin

text \<open>
  The ordered map of the standard library (\<open>std::collections::BTreeMap\<close>) as the consensus
  code uses it: an association list with strictly increasing keys.  The locale
  \<open>ordered_map\<close> states what its clients rely on: lookups after an insertion, a removal or a
  \<open>split_off\<close>, and that every operation keeps the representation invariant.  The clients'
  lemmas about pruning are proved in the locale and reach the components through its
  interpretation on the list functions.
\<close>

section \<open>Operations\<close>

type_synonym ('k, 'v) btree = "('k \<times> 'v) list"

definition bt_ok :: "('k::linorder, 'v) btree \<Rightarrow> bool" where
  "bt_ok m = sorted_wrt (<) (map fst m)"

definition bt_get :: "'k::linorder \<Rightarrow> ('k, 'v) btree \<Rightarrow> 'v option" where
  "bt_get k m = map_of m k"

definition bt_contains :: "'k::linorder \<Rightarrow> ('k, 'v) btree \<Rightarrow> bool" where
  "bt_contains k m = (bt_get k m \<noteq> None)"

fun bt_insert :: "'k::linorder \<Rightarrow> 'v \<Rightarrow> ('k, 'v) btree \<Rightarrow> ('k, 'v) btree" where
  "bt_insert k v [] = [(k, v)]"
| "bt_insert k v ((k', v') # m) =
     (if k < k' then (k, v) # (k', v') # m
      else if k = k' then (k, v) # m
      else (k', v') # bt_insert k v m)"

definition bt_remove :: "'k::linorder \<Rightarrow> ('k, 'v) btree \<Rightarrow> ('k, 'v) btree" where
  "bt_remove k m = filter (\<lambda>(k', _). k' \<noteq> k) m"

text \<open>The part of the map that \<open>split_off\<close> returns: the keys from \<open>k\<close> on.\<close>

definition bt_split_off :: "'k::linorder \<Rightarrow> ('k, 'v) btree \<Rightarrow> ('k, 'v) btree" where
  "bt_split_off k m = filter (\<lambda>(k', _). k \<le> k') m"

text \<open>The entries of \<open>range(lo..hi)\<close>, in order.\<close>

definition bt_range :: "'k::linorder \<Rightarrow> 'k \<Rightarrow> ('k, 'v) btree \<Rightarrow> ('k \<times> 'v) list" where
  "bt_range lo hi m = filter (\<lambda>(k, _). lo \<le> k \<and> k < hi) m"

section \<open>The interface\<close>

locale ordered_map =
  fixes valid :: "'m \<Rightarrow> bool"
    and get :: "'k::linorder \<Rightarrow> 'm \<Rightarrow> 'v option"
    and ins :: "'k \<Rightarrow> 'v \<Rightarrow> 'm \<Rightarrow> 'm"
    and rem :: "'k \<Rightarrow> 'm \<Rightarrow> 'm"
    and split_off :: "'k \<Rightarrow> 'm \<Rightarrow> 'm"
  assumes valid_ins: "valid m \<Longrightarrow> valid (ins k v m)"
    and valid_rem: "valid m \<Longrightarrow> valid (rem k m)"
    and valid_split_off: "valid m \<Longrightarrow> valid (split_off k m)"
    and get_ins: "valid m \<Longrightarrow> get x (ins k v m) = (if x = k then Some v else get x m)"
    and get_rem: "valid m \<Longrightarrow> get x (rem k m) = (if x = k then None else get x m)"
    and get_split_off: "valid m \<Longrightarrow> get x (split_off k m) = (if k \<le> x then get x m else None)"
begin

lemmas map_simps = valid_ins valid_rem valid_split_off get_ins get_rem get_split_off

lemma split_off_twice:
  "valid m \<Longrightarrow> get x (split_off k (split_off l m)) = get x (split_off (max k l) m)"
  by (auto simp: map_simps max_def)

lemma get_after_removals:
  "valid m \<Longrightarrow> get x (fold rem ks m) = (if x \<in> set ks then None else get x m) \<and> valid (fold rem ks m)"
  by (induction ks arbitrary: m) (auto simp: map_simps)

lemma get_after_insertions:
  "valid m \<Longrightarrow>
   get x (fold (\<lambda>(k, v). ins k v) kvs m) =
     (case map_of (rev kvs) x of Some v \<Rightarrow> Some v | None \<Rightarrow> get x m)"
  by (induction kvs arbitrary: m) (auto simp: map_simps map_add_def split: option.splits)

lemma pruned_lookup:
  assumes "valid m" and "get x (split_off k m) = Some v"
  shows "k \<le> x" and "get x m = Some v"
  using assms by (auto simp: map_simps split: if_splits)

end

section \<open>The implementation satisfies the interface\<close>

lemma bt_ok_Nil [simp]: "bt_ok []"
  by (simp add: bt_ok_def)

lemma bt_get_Nil [simp]: "bt_get k [] = None"
  by (simp add: bt_get_def)

lemma bt_ok_Cons: "bt_ok ((k, v) # m) \<longleftrightarrow> (\<forall>k' \<in> fst ` set m. k < k') \<and> bt_ok m"
  by (auto simp: bt_ok_def)

lemma bt_ok_filter: "bt_ok m \<Longrightarrow> bt_ok (filter P m)"
  by (induction m) (auto simp: bt_ok_def)

lemma keys_bt_insert: "fst ` set (bt_insert k v m) = insert k (fst ` set m)"
  by (induction k v m rule: bt_insert.induct) auto

lemma in_bt_insert: "x \<in> set (bt_insert k v m) \<Longrightarrow> x = (k, v) \<or> x \<in> set m"
  by (induction k v m rule: bt_insert.induct) (auto split: if_splits)

lemma bt_ok_insert: "bt_ok m \<Longrightarrow> bt_ok (bt_insert k v m)"
  by (induction k v m rule: bt_insert.induct) (auto simp: bt_ok_Cons keys_bt_insert)

lemma map_of_bt_insert: "bt_ok m \<Longrightarrow> map_of (bt_insert k v m) = (map_of m)(k \<mapsto> v)"
  by (induction k v m rule: bt_insert.induct) (auto simp: bt_ok_Cons fun_upd_twist)

lemma map_of_filter_key:
  "map_of (filter (\<lambda>(k, _). P k) m) x = (if P x then map_of m x else None)"
  by (induction m) auto

interpretation bt: ordered_map bt_ok bt_get bt_insert bt_remove bt_split_off
  by unfold_locales
    (simp_all add: bt_ok_insert bt_remove_def bt_split_off_def bt_ok_filter bt_get_def
      map_of_bt_insert map_of_filter_key)

lemmas bt_simps = bt.map_simps

lemma bt_get_eq_Some_iff:
  "bt_ok m \<Longrightarrow> bt_get k m = Some v \<longleftrightarrow> (k, v) \<in> set m"
  by (induction m) (force simp: bt_get_def bt_ok_Cons)+

lemma in_bt_range:
  "bt_ok m \<Longrightarrow> (k, v) \<in> set (bt_range lo hi m) \<longleftrightarrow> lo \<le> k \<and> k < hi \<and> bt_get k m = Some v"
  by (auto simp: bt_range_def bt_get_eq_Some_iff)

lemma bt_contains_iff: "bt_contains k m \<longleftrightarrow> k \<in> fst ` set m"
  by (simp add: bt_contains_def bt_get_def map_of_eq_None_iff)

end
