(* ===== verification/Committees.thy ===== *)
theory Committees
  imports BTree Votes
begin

text \<open>
  Committees: the \<open>Membership\<close> trait (\<open>crates/types/src/traits/election.rs\<close>) as a record of
  operations, stake table entries (\<open>crates/types/src/stake_table.rs\<close>), and the committees of
  \<open>crates/hotshot/src/traits/election/\<close> that implement the trait: \<open>static_committee.rs\<close>,
  \<open>static_committee_leader_two_views.rs\<close>, \<open>randomized_committee.rs\<close> and \<open>two_static_committees.rs\<close>.

  The locale \<open>committee\<close> is what the rest of the system relies on: entries found by key are
  entries of the table, thresholds are the stated fractions of the number of nodes, leaders are
  members.  Quorum intersection is proved in it once, for tables of unit stake.
\<close>

section \<open>Entries and the membership interface\<close>

datatype StakeTableEntry = StakeTableEntry (stake_key: pubkey) (stake_amount: u256)

datatype PeerConfig = PeerConfig (stake_table_entry: StakeTableEntry) (state_ver_key: nat)

record membership =
  m_stake_table :: "epoch option \<Rightarrow> StakeTableEntry list"
  m_da_stake_table :: "epoch option \<Rightarrow> StakeTableEntry list"
  m_committee_members :: "u64 \<Rightarrow> epoch option \<Rightarrow> pubkey set"
  m_da_committee_members :: "u64 \<Rightarrow> epoch option \<Rightarrow> pubkey set"
  m_committee_leaders :: "u64 \<Rightarrow> epoch option \<Rightarrow> pubkey set"
  m_stake :: "pubkey \<Rightarrow> epoch option \<Rightarrow> StakeTableEntry option"
  m_da_stake :: "pubkey \<Rightarrow> epoch option \<Rightarrow> StakeTableEntry option"
  m_has_stake :: "pubkey \<Rightarrow> epoch option \<Rightarrow> bool"
  m_has_da_stake :: "pubkey \<Rightarrow> epoch option \<Rightarrow> bool"
  m_lookup_leader :: "u64 \<Rightarrow> epoch option \<Rightarrow> (pubkey, error) result"
  m_total_nodes :: "epoch option \<Rightarrow> nat"
  m_da_total_nodes :: "epoch option \<Rightarrow> nat"
  m_success_threshold :: "epoch option \<Rightarrow> nat"
  m_da_success_threshold :: "epoch option \<Rightarrow> nat"
  m_failure_threshold :: "epoch option \<Rightarrow> nat"
  m_upgrade_threshold :: "epoch option \<Rightarrow> nat"

definition leader :: "membership \<Rightarrow> u64 \<Rightarrow> epoch option \<Rightarrow> (pubkey, error) result" where
  "leader m view e = with_context (Error Info [''Failed to get leader'']) (m_lookup_leader m view e)"

section \<open>The static committee\<close>

record StaticCommittee =
  eligible_leaders :: "StakeTableEntry list"
  stake_table :: "StakeTableEntry list"
  da_stake_table :: "StakeTableEntry list"
  indexed_stake_table :: "(pubkey, StakeTableEntry) btree"
  indexed_da_stake_table :: "(pubkey, StakeTableEntry) btree"

definition positive_entries :: "PeerConfig list \<Rightarrow> StakeTableEntry list" where
  "positive_entries ms = filter (\<lambda>e. 0 < stake_amount e) (map stake_table_entry ms)"

definition index_entries :: "StakeTableEntry list \<Rightarrow> (pubkey, StakeTableEntry) btree" where
  "index_entries es = fold (\<lambda>e. bt_insert (stake_key e) e) es []"

definition static_new :: "PeerConfig list \<Rightarrow> PeerConfig list \<Rightarrow> StaticCommittee" where
  "static_new committee_members da_members =
     \<lparr>eligible_leaders = positive_entries committee_members,
      stake_table = positive_entries committee_members,
      da_stake_table = positive_entries da_members,
      indexed_stake_table = index_entries (positive_entries committee_members),
      indexed_da_stake_table = index_entries (positive_entries da_members)\<rparr>"

definition has_positive :: "StakeTableEntry option \<Rightarrow> bool" where
  "has_positive x = (case x of Some e \<Rightarrow> 0 < stake_amount e | None \<Rightarrow> False)"

text \<open>Indexing modulo the number of leaders: the remainder by an empty list panics.\<close>

definition nth_leader :: "StakeTableEntry list \<Rightarrow> nat \<Rightarrow> (pubkey, error) result" where
  "nth_leader es i = (if es = [] then Panic else Ok (stake_key (es ! (i mod length es))))"

definition static_lookup_leader :: "StaticCommittee \<Rightarrow> u64 \<Rightarrow> (pubkey, error) result" where
  "static_lookup_leader c view = nth_leader (eligible_leaders c) (unat view)"

text \<open>
  Thresholds.  The length of a vector of entries is far below \<open>2 ^ 60\<close>, so the products do not
  overflow a \<open>u64\<close> and are taken over the natural numbers.
\<close>

definition success_of :: "nat \<Rightarrow> nat" where
  "success_of len = (len * 2) div 3 + 1"

definition failure_of :: "nat \<Rightarrow> nat" where
  "failure_of len = len div 3 + 1"

definition upgrade_of :: "nat \<Rightarrow> nat" where
  "upgrade_of len = max ((len * 9) div 10) ((len * 2) div 3 + 1)"

definition static_membership :: "StaticCommittee \<Rightarrow> membership" where
  "static_membership c =
     \<lparr>m_stake_table = (\<lambda>_. stake_table c),
      m_da_stake_table = (\<lambda>_. da_stake_table c),
      m_committee_members = (\<lambda>_ _. set (map stake_key (stake_table c))),
      m_da_committee_members = (\<lambda>_ _. set (map stake_key (da_stake_table c))),
      m_committee_leaders = (\<lambda>_ _. set (map stake_key (eligible_leaders c))),
      m_stake = (\<lambda>k _. bt_get k (indexed_stake_table c)),
      m_da_stake = (\<lambda>k _. bt_get k (indexed_da_stake_table c)),
      m_has_stake = (\<lambda>k _. has_positive (bt_get k (indexed_stake_table c))),
      m_has_da_stake = (\<lambda>k _. has_positive (bt_get k (indexed_da_stake_table c))),
      m_lookup_leader = (\<lambda>view _. static_lookup_leader c view),
      m_total_nodes = (\<lambda>_. length (stake_table c)),
      m_da_total_nodes = (\<lambda>_. length (da_stake_table c)),
      m_success_threshold = (\<lambda>_. success_of (length (stake_table c))),
      m_da_success_threshold = (\<lambda>_. success_of (length (da_stake_table c))),
      m_failure_threshold = (\<lambda>_. failure_of (length (stake_table c))),
      m_upgrade_threshold = (\<lambda>_. upgrade_of (length (stake_table c)))\<rparr>"

section \<open>Two views for each leader\<close>

definition two_views_lookup_leader :: "StaticCommittee \<Rightarrow> u64 \<Rightarrow> (pubkey, error) result" where
  "two_views_lookup_leader c view = nth_leader (eligible_leaders c) (unat view div 2)"

definition two_views_upgrade_threshold :: "StaticCommittee \<Rightarrow> nat" where
  "two_views_upgrade_threshold c = (length (stake_table c) * 9) div 10 + 1"

definition two_views_membership :: "StaticCommittee \<Rightarrow> membership" where
  "two_views_membership c =
     (static_membership c)
       \<lparr>m_lookup_leader := (\<lambda>view _. two_views_lookup_leader c view),
        m_upgrade_threshold := (\<lambda>_. two_views_upgrade_threshold c)\<rparr>"

section \<open>Randomized leaders\<close>

text \<open>\<open>gen\<close> is the number drawn from the generator seeded with a view.\<close>

definition randomized_lookup_leader :: "(u64 \<Rightarrow> u64) \<Rightarrow> StaticCommittee \<Rightarrow> u64 \<Rightarrow> (pubkey, error) result" where
  "randomized_lookup_leader gen c view = nth_leader (eligible_leaders c) (unat (gen view))"

definition randomized_membership :: "(u64 \<Rightarrow> u64) \<Rightarrow> StaticCommittee \<Rightarrow> membership" where
  "randomized_membership gen c =
     (static_membership c)\<lparr>m_lookup_leader := (\<lambda>view _. randomized_lookup_leader gen c view)\<rparr>"

section \<open>Two static committees\<close>

record TwoStaticCommittees =
  two_eligible_leaders :: "StakeTableEntry list \<times> StakeTableEntry list"
  two_stake_table :: "StakeTableEntry list \<times> StakeTableEntry list"
  two_da_stake_table :: "StakeTableEntry list \<times> StakeTableEntry list"
  two_indexed_stake_table :: "(pubkey, StakeTableEntry) btree \<times> (pubkey, StakeTableEntry) btree"
  two_indexed_da_stake_table :: "(pubkey, StakeTableEntry) btree \<times> (pubkey, StakeTableEntry) btree"

fun every_second :: "'a list \<Rightarrow> 'a list" where
  "every_second [] = []"
| "every_second [x] = [x]"
| "every_second (x # y # xs) = x # every_second xs"

definition halves :: "'a list \<Rightarrow> 'a list \<times> 'a list" where
  "halves xs = (every_second xs, every_second (drop 1 xs))"

definition two_new :: "PeerConfig list \<Rightarrow> PeerConfig list \<Rightarrow> TwoStaticCommittees" where
  "two_new committee_members da_members =
     \<lparr>two_eligible_leaders = halves (positive_entries committee_members),
      two_stake_table = halves (positive_entries committee_members),
      two_da_stake_table = halves (positive_entries da_members),
      two_indexed_stake_table =
        (index_entries (fst (halves (positive_entries committee_members))),
         index_entries (snd (halves (positive_entries committee_members)))),
      two_indexed_da_stake_table =
        (index_entries (fst (halves (positive_entries da_members))),
         index_entries (snd (halves (positive_entries da_members))))\<rparr>"

text \<open>A missing epoch panics; even epochs other than 0 use the first committee.\<close>

definition two_choose :: "'a \<times> 'a \<Rightarrow> epoch option \<Rightarrow> ('a, error) result" where
  "two_choose p e =
     (case e of
        None \<Rightarrow> Panic
      | Some n \<Rightarrow> Ok (if n \<noteq> 0 \<and> n mod 2 = 0 then fst p else snd p))"

definition two_stake_table_of :: "TwoStaticCommittees \<Rightarrow> epoch option \<Rightarrow> (StakeTableEntry list, error) result" where
  "two_stake_table_of c e = two_choose (two_stake_table c) e"

definition two_da_stake_table_of :: "TwoStaticCommittees \<Rightarrow> epoch option \<Rightarrow> (StakeTableEntry list, error) result" where
  "two_da_stake_table_of c e = two_choose (two_da_stake_table c) e"

definition two_committee_members :: "TwoStaticCommittees \<Rightarrow> epoch option \<Rightarrow> (pubkey set, error) result" where
  "two_committee_members c e = and_then (two_choose (two_stake_table c) e) (\<lambda>t. Ok (set (map stake_key t)))"

definition two_committee_leaders :: "TwoStaticCommittees \<Rightarrow> epoch option \<Rightarrow> (pubkey set, error) result" where
  "two_committee_leaders c e = and_then (two_choose (two_eligible_leaders c) e) (\<lambda>t. Ok (set (map stake_key t)))"

definition two_stake :: "TwoStaticCommittees \<Rightarrow> pubkey \<Rightarrow> epoch option \<Rightarrow> (StakeTableEntry option, error) result" where
  "two_stake c k e = and_then (two_choose (two_indexed_stake_table c) e) (\<lambda>t. Ok (bt_get k t))"

definition two_da_stake :: "TwoStaticCommittees \<Rightarrow> pubkey \<Rightarrow> epoch option \<Rightarrow> (StakeTableEntry option, error) result" where
  "two_da_stake c k e = and_then (two_choose (two_indexed_da_stake_table c) e) (\<lambda>t. Ok (bt_get k t))"

definition two_has_stake :: "TwoStaticCommittees \<Rightarrow> pubkey \<Rightarrow> epoch option \<Rightarrow> (bool, error) result" where
  "two_has_stake c k e = and_then (two_choose (two_indexed_stake_table c) e) (\<lambda>t. Ok (has_positive (bt_get k t)))"

definition two_has_da_stake :: "TwoStaticCommittees \<Rightarrow> pubkey \<Rightarrow> epoch option \<Rightarrow> (bool, error) result" where
  "two_has_da_stake c k e =
     and_then (two_choose (two_indexed_da_stake_table c) e) (\<lambda>t. Ok (has_positive (bt_get k t)))"

definition two_lookup_leader :: "TwoStaticCommittees \<Rightarrow> u64 \<Rightarrow> epoch option \<Rightarrow> (pubkey, error) result" where
  "two_lookup_leader c view e = and_then (two_choose (two_eligible_leaders c) e) (\<lambda>es. nth_leader es (unat view))"

definition two_total_nodes :: "TwoStaticCommittees \<Rightarrow> epoch option \<Rightarrow> (nat, error) result" where
  "two_total_nodes c e = and_then (two_choose (two_stake_table c) e) (\<lambda>t. Ok (length t))"

definition two_da_total_nodes :: "TwoStaticCommittees \<Rightarrow> epoch option \<Rightarrow> (nat, error) result" where
  "two_da_total_nodes c e = and_then (two_choose (two_da_stake_table c) e) (\<lambda>t. Ok (length t))"

definition two_success_threshold :: "TwoStaticCommittees \<Rightarrow> epoch option \<Rightarrow> (nat, error) result" where
  "two_success_threshold c e = and_then (two_choose (two_stake_table c) e) (\<lambda>t. Ok (success_of (length t)))"

definition two_da_success_threshold :: "TwoStaticCommittees \<Rightarrow> epoch option \<Rightarrow> (nat, error) result" where
  "two_da_success_threshold c e = and_then (two_choose (two_da_stake_table c) e) (\<lambda>t. Ok (success_of (length t)))"

definition two_failure_threshold :: "TwoStaticCommittees \<Rightarrow> epoch option \<Rightarrow> (nat, error) result" where
  "two_failure_threshold c e = and_then (two_choose (two_stake_table c) e) (\<lambda>t. Ok (failure_of (length t)))"

definition two_upgrade_threshold :: "TwoStaticCommittees \<Rightarrow> epoch option \<Rightarrow> (nat, error) result" where
  "two_upgrade_threshold c e = and_then (two_choose (two_stake_table c) e) (\<lambda>t. Ok (upgrade_of (length t)))"

section \<open>The contract of a committee\<close>

definition unit_stakes :: "StakeTableEntry list \<Rightarrow> bool" where
  "unit_stakes es \<longleftrightarrow> (\<forall>e \<in> set es. stake_amount e = 1)"

text \<open>The stake of the entries at a set of positions.\<close>

definition weight_at :: "StakeTableEntry list \<Rightarrow> nat set \<Rightarrow> nat" where
  "weight_at es I = (\<Sum>i \<in> I. stake_amount (es ! i))"

lemma weight_at_unit:
  "unit_stakes es \<Longrightarrow> I \<subseteq> {..<length es} \<Longrightarrow> weight_at es I = card I"
proof -
  assume "unit_stakes es" "I \<subseteq> {..<length es}"
  then have "stake_amount (es ! i) = 1" if "i \<in> I" for i
    using that by (auto simp: unit_stakes_def)
  then show ?thesis by (simp add: weight_at_def)
qed

lemma weight_at_split:
  assumes "I \<subseteq> {..<n}" and "J \<subseteq> {..<n}"
  shows "weight_at es I + weight_at es J \<le> weight_at es {..<n} + weight_at es (I \<inter> J)"
proof -
  have fin: "finite I" "finite J" using assms finite_subset by blast+
  have "weight_at es I + weight_at es J = weight_at es (I \<union> J) + weight_at es (I \<inter> J)"
    unfolding weight_at_def by (rule sum.union_inter [symmetric]) (use fin in auto)
  moreover have "weight_at es (I \<union> J) \<le> weight_at es {..<n}"
    unfolding weight_at_def by (rule sum_mono2) (use assms in auto)
  ultimately show ?thesis by simp
qed

text \<open>Twice the success threshold exceeds the number of nodes by the failure threshold.\<close>

lemma success_failure: "len + failure_of len \<le> 2 * success_of len"
  by (simp add: success_of_def failure_of_def)

locale committee =
  fixes m :: membership and e :: "epoch option"
  assumes stake_member: "m_stake m k e = Some x \<Longrightarrow> x \<in> set (m_stake_table m e) \<and> stake_key x = k"
    and da_stake_member: "m_da_stake m k e = Some x \<Longrightarrow> x \<in> set (m_da_stake_table m e) \<and> stake_key x = k"
    and stake_exists: "x \<in> set (m_stake_table m e) \<Longrightarrow> \<exists>y. m_stake m (stake_key x) e = Some y"
    and total_length: "m_total_nodes m e = length (m_stake_table m e)"
    and da_total_length: "m_da_total_nodes m e = length (m_da_stake_table m e)"
    and positive: "x \<in> set (m_stake_table m e) \<Longrightarrow> 0 < stake_amount x"
    and success: "m_success_threshold m e = success_of (length (m_stake_table m e))"
    and da_success: "m_da_success_threshold m e = success_of (length (m_da_stake_table m e))"
    and failure: "m_failure_threshold m e = failure_of (length (m_stake_table m e))"
    and upgrade: "m_success_threshold m e \<le> m_upgrade_threshold m e"
    and leader_member: "m_lookup_leader m v e = Ok k \<Longrightarrow> k \<in> m_committee_leaders m v e"
    and leaders_in_table: "m_committee_leaders m v e \<subseteq> stake_key ` set (m_stake_table m e)"
begin

text \<open>
  Two groups of signers that each reach the success threshold share signers of at least the
  failure threshold, so at least one of the shared signers is honest when fewer than the failure
  threshold are not.
\<close>

lemma quorum_intersection:
  assumes "unit_stakes (m_stake_table m e)"
    and "I \<subseteq> {..<m_total_nodes m e}" and "J \<subseteq> {..<m_total_nodes m e}"
    and "m_success_threshold m e \<le> weight_at (m_stake_table m e) I"
    and "m_success_threshold m e \<le> weight_at (m_stake_table m e) J"
  shows "m_failure_threshold m e \<le> weight_at (m_stake_table m e) (I \<inter> J)"
proof -
  let ?n = "m_total_nodes m e"
  have "weight_at (m_stake_table m e) {..<?n} = ?n"
    using weight_at_unit [OF assms(1), of "{..<?n}"] total_length by simp
  then show ?thesis
    using weight_at_split [OF assms(2,3), of "m_stake_table m e"] assms(4,5) success_failure [of ?n]
    by (simp add: success failure total_length)
qed

lemma honest_in_intersection:
  assumes "unit_stakes (m_stake_table m e)"
    and "I \<subseteq> {..<m_total_nodes m e}" and "J \<subseteq> {..<m_total_nodes m e}"
    and "m_success_threshold m e \<le> weight_at (m_stake_table m e) I"
    and "m_success_threshold m e \<le> weight_at (m_stake_table m e) J"
    and "B \<subseteq> {..<m_total_nodes m e}" and "card B < m_failure_threshold m e"
  shows "\<exists>i \<in> I \<inter> J. i \<notin> B"
proof (rule ccontr)
  assume "\<not> ?thesis"
  then have sub: "I \<inter> J \<subseteq> B" by blast
  have "finite B" using assms(6) finite_subset by blast
  then have "card (I \<inter> J) \<le> card B" using sub by (rule card_mono)
  moreover have "weight_at (m_stake_table m e) (I \<inter> J) = card (I \<inter> J)"
    using assms(1,2) total_length by (intro weight_at_unit) auto
  ultimately show False using quorum_intersection [OF assms(1-5)] assms(7) by simp
qed

lemma leader_has_stake:
  assumes "m_lookup_leader m v e = Ok k"
  shows "\<exists>x. m_stake m k e = Some x \<and> stake_key x = k"
proof -
  obtain y where y: "y \<in> set (m_stake_table m e)" "stake_key y = k"
    using leader_member [OF assms] leaders_in_table [of v] by blast
  obtain x where "m_stake m k e = Some x" using stake_exists [OF y(1)] y(2) by blast
  then show ?thesis using stake_member by blast
qed

end

section \<open>The committees satisfy the contract\<close>

lemma bt_ok_index: "bt_ok m \<Longrightarrow> bt_ok (fold (\<lambda>e. bt_insert (stake_key e) e) es m)"
  by (induction es arbitrary: m) (auto simp: bt_simps)

lemma get_index_fold:
  "bt_ok m \<Longrightarrow> bt_get k (fold (\<lambda>e. bt_insert (stake_key e) e) es m) = Some x \<Longrightarrow>
   bt_get k m = Some x \<or> x \<in> set es \<and> stake_key x = k"
proof (induction es arbitrary: m)
  case (Cons e es)
  have "bt_ok (bt_insert (stake_key e) e m)" using Cons.prems(1) by (simp add: bt_simps)
  from Cons.IH [OF this] Cons.prems show ?case by (auto simp: bt_simps split: if_splits)
qed simp

lemma get_index_fold_exists:
  "bt_ok m \<Longrightarrow> bt_get k m \<noteq> None \<or> k \<in> stake_key ` set es \<Longrightarrow>
   bt_get k (fold (\<lambda>e. bt_insert (stake_key e) e) es m) \<noteq> None"
proof (induction es arbitrary: m)
  case (Cons e es)
  have "bt_ok (bt_insert (stake_key e) e m)" using Cons.prems(1) by (simp add: bt_simps)
  from Cons.IH [OF this] Cons.prems show ?case by (auto simp: bt_simps)
qed simp

lemma get_index_entries: "bt_get k (index_entries es) = Some x \<Longrightarrow> x \<in> set es \<and> stake_key x = k"
  using get_index_fold [of "[]" k es x] by (simp add: index_entries_def)

lemma get_index_entries_exists: "x \<in> set es \<Longrightarrow> \<exists>y. bt_get (stake_key x) (index_entries es) = Some y"
  using get_index_fold_exists [of "[]" "stake_key x" es] by (auto simp: index_entries_def)

lemma nth_leader_member: "nth_leader es i = Ok k \<Longrightarrow> k \<in> stake_key ` set es"
  by (auto simp: nth_leader_def split: if_splits)

lemmas committee_defs = static_membership_def static_new_def two_views_membership_def randomized_membership_def
  static_lookup_leader_def two_views_lookup_leader_def randomized_lookup_leader_def two_views_upgrade_threshold_def

lemma positive_entries_positive: "x \<in> set (positive_entries ms) \<Longrightarrow> 0 < stake_amount x"
  by (auto simp: positive_entries_def)

lemmas committee_facts = get_index_entries get_index_entries_exists nth_leader_member positive_entries_positive

interpretation sc: committee "static_membership (static_new ms das)" e
  by unfold_locales
    (auto simp: committee_defs upgrade_of_def success_of_def dest: committee_facts)

interpretation tv: committee "two_views_membership (static_new ms das)" e
  by unfold_locales
    (auto simp: committee_defs success_of_def dest: committee_facts)

interpretation rc: committee "randomized_membership gen (static_new ms das)" e
  by unfold_locales
    (auto simp: committee_defs upgrade_of_def success_of_def dest: committee_facts)

section \<open>Rotation of leaders\<close>

lemma mod_shift_inj:
  fixes a i j n :: nat
  assumes "i < n" and "j < n" and "(a + i) mod n = (a + j) mod n"
  shows "i = j"
proof -
  have "i = j" if "i \<le> j" "j < n" "(a + i) mod n = (a + j) mod n" for i j
  proof -
    have "n dvd (a + j) - (a + i)" using that by (metis add_left_mono mod_eq_dvd_iff_nat)
    then have "n dvd j - i" by simp
    then show "i = j" using that by (metis diff_is_0_eq dvd_imp_le le_antisym less_imp_diff_less not_gr_zero not_le)
  qed
  then show ?thesis using assms by (metis nat_le_linear)
qed

lemma nth_leader_rotation:
  assumes "es \<noteq> []" and "distinct (map stake_key es)"
  shows "distinct (map (\<lambda>i. nth_leader es (a + i)) [0..<length es]) \<and>
    set (map (\<lambda>i. nth_leader es (a + i)) [0..<length es]) = Ok ` stake_key ` set es"
proof -
  let ?n = "length es" and ?f = "\<lambda>i. (a + i) mod length es"
  have n: "0 < ?n" using assms(1) by simp
  have inj: "inj_on ?f {..<?n}" by (auto intro!: inj_onI dest: mod_shift_inj)
  have range: "?f ` {..<?n} \<subseteq> {..<?n}" using n by auto
  then have surj: "?f ` {..<?n} = {..<?n}"
    using inj by (intro card_subset_eq) (simp_all add: card_image)
  have ld: "nth_leader es (a + i) = Ok (map stake_key es ! ?f i)" for i
    using assms(1) by (simp add: nth_leader_def)
  have "inj_on (\<lambda>i. nth_leader es (a + i)) {..<?n}"
  proof (rule inj_onI)
    fix i j assume ij: "i \<in> {..<?n}" "j \<in> {..<?n}" "nth_leader es (a + i) = nth_leader es (a + j)"
    then have "map stake_key es ! ?f i = map stake_key es ! ?f j" by (simp only: ld result.inject)
    then have "?f i = ?f j" using n by (simp only: nth_eq_iff_index_eq [OF assms(2)] length_map mod_less_divisor)
    then show "i = j" using ij mod_shift_inj by simp
  qed
  moreover have "(\<lambda>i. nth_leader es (a + i)) ` {..<?n} = Ok ` stake_key ` set es"
  proof -
    have "(\<lambda>i. nth_leader es (a + i)) ` {..<?n} = (\<lambda>j. Ok (map stake_key es ! j)) ` ?f ` {..<?n}"
      by (simp only: ld image_image)
    also have "\<dots> = (\<lambda>j. Ok (map stake_key es ! j)) ` {..<?n}" by (simp only: surj)
    also have "\<dots> = Ok ` set (map stake_key es)"
    proof -
      have "(!) (map stake_key es) ` {..<?n} = set (map stake_key es)"
        using nth_image [of ?n "map stake_key es"] by (simp add: atLeast0LessThan)
      then show ?thesis by (metis image_image)
    qed
    finally show ?thesis by simp
  qed
  ultimately show ?thesis by (simp add: distinct_map atLeast0LessThan)
qed

section \<open>Properties\<close>

text \<open>
  C7. Quorum intersection.  In a static committee whose members all have stake 1, two groups of
  signers that each reach the success threshold have a common signer outside any set of fewer than
  \<open>failure_threshold\<close> faulty nodes.
\<close>
theorem static_quorums_intersect:
  assumes "m = static_membership (static_new ms das)"
    and "unit_stakes (m_stake_table m e)"
    and "I \<subseteq> {..<m_total_nodes m e}" and "J \<subseteq> {..<m_total_nodes m e}"
    and "m_success_threshold m e \<le> weight_at (m_stake_table m e) I"
    and "m_success_threshold m e \<le> weight_at (m_stake_table m e) J"
    and "B \<subseteq> {..<m_total_nodes m e}" and "card B < m_failure_threshold m e"
  shows "\<exists>i \<in> I \<inter> J. i \<notin> B"
  using sc.honest_in_intersection [OF assms(2-8) [unfolded assms(1)]] .

definition peer :: "pubkey \<Rightarrow> u256 \<Rightarrow> PeerConfig" where
  "peer k s = PeerConfig (StakeTableEntry k s) 0"

definition four_nodes :: StaticCommittee where
  "four_nodes = static_new [peer 1 1, peer 2 1, peer 3 1, peer 4 1] []"

lemmas four_nodes_simps = four_nodes_def static_new_def static_membership_def positive_entries_def peer_def
  success_of_def failure_of_def

theorem static_quorums_intersect_witness:
  "\<exists>i \<in> {0, 1, 2} \<inter> {1, 2, 3}. i \<notin> {1 :: nat}"
  by (rule static_quorums_intersect [OF refl, where ms = "[peer 1 1, peer 2 1, peer 3 1, peer 4 1]" and das = "[]" and e = None])
    (simp_all add: four_nodes_simps unit_stakes_def weight_at_def)

text \<open>
  The thresholds count nodes, not stake.  A node whose stake is at least the success threshold
  of the committee reaches it alone, so two such nodes are disjoint quorums.
\<close>
theorem heavy_nodes_are_quorums:
  assumes "m = static_membership (static_new ms das)" and "i < m_total_nodes m e"
    and "m_success_threshold m e \<le> stake_amount (m_stake_table m e ! i)"
  shows "m_success_threshold m e \<le> weight_at (m_stake_table m e) {i} \<and>
         m_success_threshold m e = (2 * length (m_stake_table m e)) div 3 + 1"
  using assms by (simp add: weight_at_def sc.success success_of_def mult.commute)

theorem heavy_nodes_are_quorums_witness:
  "m_success_threshold (static_membership (static_new [peer 1 9, peer 2 9, peer 3 9] [])) None \<le>
     weight_at (m_stake_table (static_membership (static_new [peer 1 9, peer 2 9, peer 3 9] [])) None) {0} \<and>
   m_success_threshold (static_membership (static_new [peer 1 9, peer 2 9, peer 3 9] [])) None \<le>
     weight_at (m_stake_table (static_membership (static_new [peer 1 9, peer 2 9, peer 3 9] [])) None) {1}"
  using heavy_nodes_are_quorums [OF refl, of 0 "[peer 1 9, peer 2 9, peer 3 9]" "[]" None]
    heavy_nodes_are_quorums [OF refl, of 1 "[peer 1 9, peer 2 9, peer 3 9]" "[]" None]
  by (simp add: four_nodes_simps)

text \<open>
  C37. Leaders rotate fairly.  In a static committee with distinct keys, any window of as many
  consecutive views as there are leaders, in the range of view numbers, is led by every leader
  exactly once; a leader always is a staked member.
\<close>
theorem static_leader_rotation:
  assumes "c = static_new ms das" and "distinct (map stake_key (eligible_leaders c))"
    and "eligible_leaders c \<noteq> []" and "unat v + length (eligible_leaders c) \<le> 2 ^ 64"
  shows "distinct (map (\<lambda>i. static_lookup_leader c (v + of_nat i)) [0..<length (eligible_leaders c)]) \<and>
         set (map (\<lambda>i. static_lookup_leader c (v + of_nat i)) [0..<length (eligible_leaders c)]) =
           Ok ` stake_key ` set (stake_table c)"
proof -
  have "unat (v + of_nat i) = unat v + i" if "i < length (eligible_leaders c)" for i
  proof -
    have "unat (of_nat i :: u64) = i" using that assms(4) by (simp add: unat_of_nat)
    then show ?thesis using that assms(4) by (subst unat_add_no_overflow) simp_all
  qed
  then have eq: "map (\<lambda>i. static_lookup_leader c (v + of_nat i)) [0..<length (eligible_leaders c)] =
      map (\<lambda>i. nth_leader (eligible_leaders c) (unat v + i)) [0..<length (eligible_leaders c)]"
    by (simp add: static_lookup_leader_def)
  have "stake_table c = eligible_leaders c" using assms(1) by (simp add: static_new_def)
  then show ?thesis
    unfolding eq using nth_leader_rotation [OF assms(3,2), of "unat v"] by (simp only:)
qed

theorem static_leader_rotation_witness:
  "distinct (map (\<lambda>i. static_lookup_leader four_nodes (6 + of_nat i)) [0..<4])"
proof -
  have l: "length (eligible_leaders four_nodes) = 4" by (simp add: four_nodes_simps)
  have d: "distinct (map stake_key (eligible_leaders four_nodes))" by (simp add: four_nodes_simps)
  have n: "eligible_leaders four_nodes \<noteq> []" by (simp add: four_nodes_simps)
  have r: "unat (6 :: u64) + length (eligible_leaders four_nodes) \<le> 2 ^ 64" by (simp add: l)
  show ?thesis using conjunct1 [OF static_leader_rotation [OF four_nodes_def d n r]] unfolding l .
qed

end
