(* ===== verification/Certificates.thy ===== *)
theory Certificates
  imports Versions Committees "HOL-Library.Multiset"
begin

text \<open>
  Certificates: assembling and checking quorum certificates over a bit vector of signers
  (\<open>crates/types/src/qc.rs\<close>, called through the BLS key of \<open>crates/types/src/signature_key.rs\<close>), and the
  \<open>Certificate\<close> implementations of \<open>crates/types/src/simple_certificate.rs\<close>.

  Signature verification, aggregation and the digest belong to other crates and are fields of
  \<open>crypto\<close>; \<open>agg_complete\<close> and \<open>agg_sound\<close> state what the BLS scheme is documented to do.  The lemmas
  show that a certificate that passes the check carries signers of at least the threshold.
\<close>

section \<open>Parameters\<close>

record crypto =
  finalize :: finalizer
  default_commitment_no_preimage :: commitment
  key_validate :: "pubkey \<Rightarrow> sig \<Rightarrow> bytes \<Rightarrow> bool"
  bls_aggregate :: "pubkey list \<Rightarrow> sig list \<Rightarrow> sig option"
  bls_multi_sig_verify :: "pubkey list \<Rightarrow> bytes \<Rightarrow> sig \<Rightarrow> bool"
  key_sign :: "nat \<Rightarrow> bytes \<Rightarrow> sig option"
  bincode_bits :: "bitvec \<Rightarrow> bytes"
  bincode_sig :: "sig \<Rightarrow> bytes"

text \<open>
  Aggregating valid signatures of one message succeeds and verifies for the list of keys; the
  order of the signatures does not matter, the aggregate being a sum.
\<close>

definition agg_complete :: "crypto \<Rightarrow> bool" where
  "agg_complete cr \<longleftrightarrow>
     (\<forall>keys sigs msg ps. mset keys = mset (map fst ps) \<longrightarrow> mset sigs = mset (map snd ps) \<longrightarrow>
        (\<forall>(k, s) \<in> set ps. key_validate cr k s msg) \<longrightarrow>
        (\<exists>s. bls_aggregate cr keys sigs = Some s \<and> bls_multi_sig_verify cr keys msg s))"

text \<open>What a key signs, its public key validates.\<close>

definition key_pair :: "crypto \<Rightarrow> pubkey \<Rightarrow> nat \<Rightarrow> bool" where
  "key_pair cr pk sk \<longleftrightarrow> (\<forall>msg g. key_sign cr sk msg = Some g \<longrightarrow> key_validate cr pk g msg)"

text \<open>An aggregate that verifies was made with every one of the keys.\<close>

definition agg_sound :: "crypto \<Rightarrow> (pubkey \<Rightarrow> bytes \<Rightarrow> bool) \<Rightarrow> bool" where
  "agg_sound cr has_signed \<longleftrightarrow>
     (\<forall>keys msg s. bls_multi_sig_verify cr keys msg s \<longrightarrow> (\<forall>k \<in> set keys. has_signed k msg))"

section \<open>Bit vector certificates\<close>

datatype qc_error = ParameterError string | VerifyError

record QcParams =
  stake_entries :: "StakeTableEntry list"
  qc_threshold :: u256

definition public_parameter :: "StakeTableEntry list \<Rightarrow> u256 \<Rightarrow> QcParams" where
  "public_parameter es t = \<lparr>stake_entries = es, qc_threshold = t\<rparr>"

fun weight_fold :: "u256 \<Rightarrow> (StakeTableEntry \<times> bool) list \<Rightarrow> (u256, qc_error) result" where
  "weight_fold acc [] = Ok acc"
| "weight_fold acc ((e, b) # xs) =
     (if b then and_then (u256_add acc (stake_amount e)) (\<lambda>a. weight_fold a xs) else weight_fold acc xs)"

definition ver_keys :: "StakeTableEntry list \<Rightarrow> bitvec \<Rightarrow> pubkey list" where
  "ver_keys es signers = map (\<lambda>(e, b). stake_key e) (filter (\<lambda>(e, b). b) (zip es signers))"

definition assemble :: "crypto \<Rightarrow> QcParams \<Rightarrow> bitvec \<Rightarrow> sig list \<Rightarrow> (qc_type, qc_error) result" where
  "assemble cr pp signers sigs =
     (if length signers \<noteq> length (stake_entries pp) then
        Err (ParameterError ''bit vector len != the number of stake entries'')
      else and_then (weight_fold 0 (zip (stake_entries pp) signers)) (\<lambda>total_weight.
        if total_weight < qc_threshold pp then Err (ParameterError ''total_weight less than threshold'')
        else
          let keys = ver_keys (stake_entries pp) signers
          in if length keys \<noteq> length sigs then
               Err (ParameterError ''the number of ver_keys != the number of partial signatures'')
             else and_then (ok_or (bls_aggregate cr keys sigs) VerifyError) (\<lambda>sig. Ok (sig, signers))))"

definition check :: "crypto \<Rightarrow> QcParams \<Rightarrow> bytes \<Rightarrow> qc_type \<Rightarrow> (u256, qc_error) result" where
  "check cr pp msg qc =
     (case qc of (sig, signers) \<Rightarrow>
       if length signers \<noteq> length (stake_entries pp) then
         Err (ParameterError ''signers bit vector len != the number of stake entries'')
       else and_then (weight_fold 0 (zip (stake_entries pp) signers)) (\<lambda>total_weight.
         if total_weight < qc_threshold pp then Err (ParameterError ''total_weight less than threshold'')
         else
           let keys = ver_keys (stake_entries pp) signers
           in if bls_multi_sig_verify cr keys msg sig then Ok total_weight else Err VerifyError))"

definition trace_signers :: "crypto \<Rightarrow> QcParams \<Rightarrow> bytes \<Rightarrow> qc_type \<Rightarrow> (pubkey list, qc_error) result" where
  "trace_signers cr pp msg qc =
     (case qc of (sig, signers) \<Rightarrow>
       if length signers \<noteq> length (stake_entries pp) then
         Err (ParameterError ''signers bit vector len != the number of stake entries'')
       else and_then (check cr pp msg qc) (\<lambda>_. Ok (ver_keys (stake_entries pp) signers)))"

text \<open>The key's own entry points: \<open>check\<close> drops the weight, \<open>assemble\<close> expects success.\<close>

definition key_check :: "crypto \<Rightarrow> QcParams \<Rightarrow> bytes \<Rightarrow> qc_type \<Rightarrow> (unit, qc_error) result" where
  "key_check cr pp data qc = and_then (check cr pp data qc) (\<lambda>_. Ok ())"

definition key_assemble :: "crypto \<Rightarrow> QcParams \<Rightarrow> bitvec \<Rightarrow> sig list \<Rightarrow> (qc_type, error) result" where
  "key_assemble cr pp signers sigs =
     (case assemble cr pp signers sigs of Ok qc \<Rightarrow> Ok qc | Err _ \<Rightarrow> Panic | Panic \<Rightarrow> Panic)"

section \<open>Kinds of certificates\<close>

datatype Threshold = SuccessThreshold | OneHonestThreshold | UpgradeThreshold

text \<open>Certificates over DA data use the DA committee, all others the stake table.\<close>

datatype cert_kind = DaCert | QuorumCert Threshold

fun threshold_of :: "Threshold \<Rightarrow> membership \<Rightarrow> epoch option \<Rightarrow> nat" where
  "threshold_of SuccessThreshold m e = m_success_threshold m e"
| "threshold_of OneHonestThreshold m e = m_failure_threshold m e"
| "threshold_of UpgradeThreshold m e = m_upgrade_threshold m e"

fun cert_stake_table_entry :: "cert_kind \<Rightarrow> membership \<Rightarrow> pubkey \<Rightarrow> epoch option \<Rightarrow> StakeTableEntry option" where
  "cert_stake_table_entry DaCert m k e = m_da_stake m k e"
| "cert_stake_table_entry (QuorumCert t) m k e = m_stake m k e"

fun cert_stake_table :: "cert_kind \<Rightarrow> membership \<Rightarrow> epoch option \<Rightarrow> StakeTableEntry list" where
  "cert_stake_table DaCert m e = m_da_stake_table m e"
| "cert_stake_table (QuorumCert t) m e = m_stake_table m e"

fun cert_total_nodes :: "cert_kind \<Rightarrow> membership \<Rightarrow> epoch option \<Rightarrow> nat" where
  "cert_total_nodes DaCert m e = m_da_total_nodes m e"
| "cert_total_nodes (QuorumCert t) m e = m_total_nodes m e"

fun cert_threshold :: "cert_kind \<Rightarrow> membership \<Rightarrow> epoch option \<Rightarrow> nat" where
  "cert_threshold DaCert m e = m_da_success_threshold m e"
| "cert_threshold (QuorumCert t) m e = threshold_of t m e"

section \<open>Operations of a certificate\<close>

definition create_signed_certificate :: "commitment \<Rightarrow> 'd \<Rightarrow> qc_type \<Rightarrow> u64 \<Rightarrow> 'd SimpleCertificate" where
  "create_signed_certificate vc d qc view =
     \<lparr>c_data = d, c_vote_commitment = vc, c_view_number = view, c_signatures = Some qc\<rparr>"

definition data_commitment ::
  "crypto \<Rightarrow> versions \<Rightarrow> ('d \<Rightarrow> commitment) \<Rightarrow> UpgradeLock \<Rightarrow> 'd SimpleCertificate \<Rightarrow> (commitment, error) result" where
  "data_commitment cr V commit_data lock cert =
     and_then (versioned_new V lock (c_data cert) (c_view_number cert))
       (\<lambda>vd. Ok (commit_versioned (finalize cr) commit_data vd))"

text \<open>A certificate of the genesis view is always valid; a missing signature elsewhere panics.\<close>

definition is_valid_cert ::
  "crypto \<Rightarrow> versions \<Rightarrow> ('d \<Rightarrow> commitment) \<Rightarrow> UpgradeLock \<Rightarrow> StakeTableEntry list \<Rightarrow> nat \<Rightarrow>
   'd SimpleCertificate \<Rightarrow> (unit, error) result" where
  "is_valid_cert cr V commit_data lock tbl threshold cert =
     (if c_view_number cert = 0 then Ok ()
      else
        let real_qc_pp = public_parameter tbl threshold
        in and_then (data_commitment cr V commit_data lock cert) (\<lambda>cm.
           and_then (unwrap (c_signatures cert)) (\<lambda>sigs.
           with_context (Error Warn [''Signature check failed''])
             (wrap ''signature error'' (key_check cr real_qc_pp cm sigs)))))"

text \<open>Literal strings among the bytes of a signature, and the number types' own commitments.\<close>

definition str_bytes :: "string \<Rightarrow> bytes" where
  "str_bytes txt = map of_char txt"

definition serialize_signature2 :: "crypto \<Rightarrow> qc_type \<Rightarrow> bytes" where
  "serialize_signature2 cr signatures =
     (case signatures of (sig, proof) \<Rightarrow>
       str_bytes ''Yes'' @ str_bytes ''bitvec proof'' @ bincode_bits cr proof @
       str_bytes ''aggregated signature'' @ bincode_sig cr sig)"

definition commit_ViewNumber :: "finalizer \<Rightarrow> u64 \<Rightarrow> commitment" where
  "commit_ViewNumber fin v = fin [Tag ''View Number Commitment'', U64 v]"

definition commit_EpochNumber :: "finalizer \<Rightarrow> epoch \<Rightarrow> commitment" where
  "commit_EpochNumber fin e = fin [Tag ''Epoch Number Commitment'', U64 e]"

definition commit_certificate :: "crypto \<Rightarrow> ('d \<Rightarrow> commitment) \<Rightarrow> 'd SimpleCertificate \<Rightarrow> commitment" where
  "commit_certificate cr commit_data cert =
     finalize cr
       [Tag ''Certificate'', Field ''data'' (commit_data (c_data cert)),
        Field ''vote_commitment'' (c_vote_commitment cert),
        Field ''view number'' (commit_ViewNumber (finalize cr) (c_view_number cert)),
        Var_size_field ''signatures''
          (case c_signatures cert of Some sigs \<Rightarrow> serialize_signature2 cr sigs | None \<Rightarrow> [])]"

definition upgrade_validate ::
  "crypto \<Rightarrow> versions \<Rightarrow> UpgradeCertificate option \<Rightarrow> membership \<Rightarrow> epoch option \<Rightarrow> UpgradeLock \<Rightarrow> (unit, error) result" where
  "upgrade_validate cr V upgrade_certificate m e lock =
     (case upgrade_certificate of
        Some cert \<Rightarrow>
          with_context (Error Warn [''Invalid upgrade certificate''])
            (is_valid_cert cr V (commit_UpgradeProposalData (finalize cr)) lock
              (m_stake_table m e) (m_upgrade_threshold m e) cert)
      | None \<Rightarrow> Ok ())"

section \<open>Lemmas\<close>

text \<open>The stake of the signers, without the overflow check.\<close>

definition signer_weight :: "StakeTableEntry list \<Rightarrow> bitvec \<Rightarrow> nat" where
  "signer_weight es bits = sum_list (map (\<lambda>(e, b). if b then stake_amount e else 0) (zip es bits))"

lemma weight_fold_eq_Ok:
  "acc < u256_limit \<Longrightarrow>
   weight_fold acc xs = Ok w \<longleftrightarrow>
     w = acc + sum_list (map (\<lambda>(e, b). if b then stake_amount e else 0) xs) \<and> w < u256_limit"
proof (induction acc xs rule: weight_fold.induct)
  case (2 acc e b xs)
  show ?case
  proof (cases b)
    case True
    show ?thesis
    proof (cases "acc + stake_amount e < u256_limit")
      case False
      then show ?thesis using True by (auto simp: u256_add_def)
    next
      case lim: True
      then show ?thesis using 2(1) [OF True lim] True by (auto simp: u256_add_def)
    qed
  qed (use 2 in auto)
qed auto

lemma weight_fold_zip [result_simps]:
  "weight_fold 0 (zip es bits) = Ok w \<longleftrightarrow> w = signer_weight es bits \<and> w < u256_limit"
  by (simp add: weight_fold_eq_Ok signer_weight_def)

lemma signer_weight_le: "length bits = length es \<Longrightarrow> signer_weight es bits \<le> sum_list (map stake_amount es)"
  by (induction es bits rule: list_induct2') (auto simp: signer_weight_def)

lemma signer_weight_set:
  "length bits = length es \<Longrightarrow> i < length es \<Longrightarrow> \<not> bits ! i \<Longrightarrow>
   signer_weight es (bits[i := True]) = signer_weight es bits + stake_amount (es ! i)"
proof (induction es arbitrary: bits i)
  case (Cons e es)
  then obtain b bs where "bits = b # bs" "length bs = length es" by (cases bits) auto
  with Cons show ?case by (cases i) (auto simp: signer_weight_def)
qed simp

lemma mset_ver_keys_set:
  "length bits = length es \<Longrightarrow> i < length es \<Longrightarrow> \<not> bits ! i \<Longrightarrow>
   mset (ver_keys es (bits[i := True])) = add_mset (stake_key (es ! i)) (mset (ver_keys es bits))"
proof (induction es arbitrary: bits i)
  case (Cons e es)
  then obtain b bs where "bits = b # bs" "length bs = length es" by (cases bits) auto
  with Cons show ?case by (cases i) (auto simp: ver_keys_def)
qed simp

lemma ver_keys_nth:
  "length bits = length es \<Longrightarrow> i < length es \<Longrightarrow> bits ! i \<Longrightarrow> stake_key (es ! i) \<in> set (ver_keys es bits)"
  by (force simp: ver_keys_def in_set_zip)

lemma ver_keys_empty [simp]: "ver_keys es (replicate n False) = []"
  by (auto simp: ver_keys_def filter_empty_conv in_set_zip)

lemma signer_weight_empty [simp]: "signer_weight es (replicate n False) = 0"
  by (auto simp: signer_weight_def sum_list_eq_0_iff in_set_zip)

lemma check_eq_Ok [result_simps]:
  "check cr pp msg (s, bits) = Ok w \<longleftrightarrow>
     length bits = length (stake_entries pp) \<and> w = signer_weight (stake_entries pp) bits \<and>
     w < u256_limit \<and> qc_threshold pp \<le> w \<and>
     bls_multi_sig_verify cr (ver_keys (stake_entries pp) bits) msg s"
  by (auto simp: check_def Let_def result_simps split: if_splits)

lemma assemble_eq_Ok [result_simps]:
  "assemble cr pp bits sigs = Ok qc \<longleftrightarrow>
     length bits = length (stake_entries pp) \<and> signer_weight (stake_entries pp) bits < u256_limit \<and>
     qc_threshold pp \<le> signer_weight (stake_entries pp) bits \<and>
     length (ver_keys (stake_entries pp) bits) = length sigs \<and>
     (\<exists>s. bls_aggregate cr (ver_keys (stake_entries pp) bits) sigs = Some s \<and> qc = (s, bits))"
  by (auto simp: assemble_def Let_def result_simps split: if_splits)

lemma public_parameter_simps [simp]:
  "stake_entries (public_parameter es t) = es" "qc_threshold (public_parameter es t) = t"
  by (simp_all add: public_parameter_def)

lemma key_check_eq_Ok [result_simps]:
  "key_check cr pp msg qc = Ok u \<longleftrightarrow> (\<exists>w. check cr pp msg qc = Ok w)"
  by (auto simp: key_check_def result_simps)

lemma is_valid_cert_eq_Ok:
  "c_view_number cert \<noteq> 0 \<Longrightarrow>
   is_valid_cert cr V cd lock tbl t cert = Ok u \<longleftrightarrow>
     (\<exists>cm s bits. data_commitment cr V cd lock cert = Ok cm \<and> c_signatures cert = Some (s, bits) \<and>
        length bits = length tbl \<and> signer_weight tbl bits < u256_limit \<and> t \<le> signer_weight tbl bits \<and>
        bls_multi_sig_verify cr (ver_keys tbl bits) cm s)"
  by (auto simp: is_valid_cert_def Let_def result_simps split_paired_all)

lemma signer_weight_indices:
  "length bits = length es \<Longrightarrow>
   signer_weight es bits = weight_at es {i. i < length es \<and> bits ! i}"
proof -
  assume len: "length bits = length es"
  have "signer_weight es bits = (\<Sum>i = 0..<length es. if bits ! i then stake_amount (es ! i) else 0)"
    using len by (simp add: signer_weight_def sum_list_sum_nth)
  also have "\<dots> = weight_at es {i. i < length es \<and> bits ! i}"
    unfolding weight_at_def by (subst sum.inter_filter [symmetric]) (auto intro: sum.cong)
  finally show ?thesis .
qed

section \<open>Properties\<close>

text \<open>
  C6. A certificate past the genesis view that \<open>is_valid_cert\<close> accepts carries signers at positions
  of the stake table whose stake adds up to the threshold, and each of them has signed the
  commitment of the certificate's data and view, for an aggregate scheme that is sound.
\<close>

theorem valid_cert_has_quorum:
  assumes "agg_sound cr has_signed"
    and "is_valid_cert cr V cd lock tbl t cert = Ok ()"
    and "c_view_number cert \<noteq> 0"
  shows "\<exists>cm I. data_commitment cr V cd lock cert = Ok cm \<and> I \<subseteq> {..<length tbl} \<and>
           t \<le> weight_at tbl I \<and> (\<forall>i \<in> I. has_signed (stake_key (tbl ! i)) cm)"
proof -
  obtain cm s bits where *: "data_commitment cr V cd lock cert = Ok cm" "length bits = length tbl"
      "t \<le> signer_weight tbl bits" "bls_multi_sig_verify cr (ver_keys tbl bits) cm s"
    using assms(2,3) by (auto simp: is_valid_cert_eq_Ok)
  let ?I = "{i. i < length tbl \<and> bits ! i}"
  have "\<forall>i \<in> ?I. has_signed (stake_key (tbl ! i)) cm"
    using assms(1) * ver_keys_nth [OF *(2)] by (auto simp: agg_sound_def)
  moreover have "t \<le> weight_at tbl ?I"
    using * signer_weight_indices by metis
  ultimately show ?thesis using *(1) by (intro exI [of _ cm] exI [of _ ?I]) auto
qed

text \<open>
  A scheme whose aggregate is the sum of the signatures, each signature being its key; keys from
  100 on never sign.
\<close>

definition toy_crypto :: crypto where
  "toy_crypto =
     \<lparr>finalize = (\<lambda>ops. []), default_commitment_no_preimage = [],
      key_validate = (\<lambda>k s msg. s = k \<and> k < 100),
      bls_aggregate = (\<lambda>keys sigs. Some (sum_list sigs)),
      bls_multi_sig_verify = (\<lambda>keys msg s. s = sum_list keys \<and> (\<forall>k \<in> set keys. k < 100)), 
      key_sign = (\<lambda>sk msg. Some sk), bincode_bits = (\<lambda>_. []), bincode_sig = (\<lambda>_. [])\<rparr>"

lemma toy_agg_complete: "agg_complete toy_crypto"
proof -
  have "sum_list sigs = sum_list keys \<and> (\<forall>k \<in> set keys. k < 100)"
    if "mset keys = mset (map fst ps)" "mset sigs = mset (map snd ps)" "\<forall>(k, s) \<in> set ps. s = k \<and> k < 100"
    for keys sigs :: "nat list" and ps
  proof -
    have "map snd ps = map fst ps" using that(3) by auto
    then have "mset sigs = mset keys" using that(1,2) by metis
    moreover have "set keys = fst ` set ps" using that(1) by (metis list.set_map mset_eq_setD)
    ultimately show ?thesis using that(3) by (auto simp flip: sum_mset_sum_list)
  qed
  then show ?thesis by (simp add: agg_complete_def toy_crypto_def)
qed

lemma toy_agg_sound: "agg_sound toy_crypto (\<lambda>k msg. k < 100)"
  by (simp add: agg_sound_def toy_crypto_def)

definition equal_stakes :: "StakeTableEntry list" where
  "equal_stakes = [StakeTableEntry 1 1, StakeTableEntry 2 1, StakeTableEntry 3 1]"

theorem valid_cert_has_quorum_witness:
  "\<exists>cm I. data_commitment toy_crypto toy_versions (commit_QuorumData (finalize toy_crypto)) upgrade_lock_new
             \<lparr>c_data = QuorumData [], c_vote_commitment = [], c_view_number = 5, c_signatures = Some (3, [True, True, False])\<rparr> = Ok cm \<and>
     I \<subseteq> {..<length (equal_stakes)} \<and>
     2 \<le> weight_at equal_stakes I \<and>
     (\<forall>i \<in> I. stake_key (equal_stakes ! i) < 100)"
  by (rule valid_cert_has_quorum [where V = toy_versions and cr = toy_crypto and lock = upgrade_lock_new, OF toy_agg_sound])
    (auto simp: is_valid_cert_eq_Ok data_commitment_def versioned_new_def version_def upgrade_lock_new_def equal_stakes_def
      signer_weight_def ver_keys_def toy_crypto_def u256_limit_def)

text \<open>
  A certificate of the genesis view is accepted whatever it certifies and whoever signed it,
  for every stake table and threshold; so an upgrade certificate with view number 0 validates with
  no signature at all.
\<close>

theorem genesis_view_upgrade_unchecked:
  "upgrade_validate cr V
     (Some \<lparr>c_data = d, c_vote_commitment = vc, c_view_number = 0, c_signatures = None\<rparr>) m e lock = Ok ()"
  by (simp add: upgrade_validate_def is_valid_cert_def)

end
