(* ===== verification/VidData.thy ===== *)
theory VidData
  imports Certificates BTree
begin

text \<open>
  Dispersal of block payloads: \<open>crates/types/src/data/vid_disperse.rs\<close> and the wrappers
  \<open>VidDisperse\<close> and \<open>VidDisperseShare\<close> of \<open>crates/types/src/data.rs\<close>, with the signed \<open>Proposal\<close> of
  \<open>crates/types/src/message.rs\<close>.  The erasure code itself (\<open>jf_vid\<close>) is the parameter \<open>vid_scheme\<close>.
  The lemmas say which member receives which share and what survives the way from a dispersal to its
  shares and back.
\<close>

section \<open>Signed proposals\<close>

record 'd Proposal =
  pr_data :: 'd
  pr_signature :: sig

definition convert_proposal :: "('a \<Rightarrow> 'b) \<Rightarrow> 'a Proposal \<Rightarrow> 'b Proposal" where
  "convert_proposal into p = \<lparr>pr_data = into (pr_data p), pr_signature = pr_signature p\<rparr>"

section \<open>The scheme\<close>

type_synonym vid_share = nat
type_synonym vid_common = nat

text \<open>What dispersing a payload gives: a commitment, the common data and one share per node.\<close>

record jf_disperse =
  jf_commit :: commitment
  jf_common :: vid_common
  jf_shares :: "vid_share list"

record vid_scheme =
  disperse :: "nat \<Rightarrow> bytes \<Rightarrow> jf_disperse option"
  commit_only :: "nat \<Rightarrow> bytes \<Rightarrow> commitment option"
  scheme_verify_share :: "nat \<Rightarrow> vid_share \<Rightarrow> vid_common \<Rightarrow> commitment \<Rightarrow> bool"

definition vid_commitment :: "vid_scheme \<Rightarrow> bytes \<Rightarrow> nat \<Rightarrow> Version \<Rightarrow> (commitment, 'e) result" where
  "vid_commitment vid encoded_transactions num_storage_nodes v =
     unwrap (commit_only vid num_storage_nodes encoded_transactions)"

definition GENESIS_VID_NUM_STORAGE_NODES :: nat where
  "GENESIS_VID_NUM_STORAGE_NODES = 1"

section \<open>Dispersals\<close>

record ADVZDisperse =
  ad_view_number :: u64
  ad_epoch :: "epoch option"
  ad_target_epoch :: "epoch option"
  ad_payload_commitment :: commitment
  ad_data_epoch_payload_commitment :: "commitment option"
  ad_shares :: "(pubkey, vid_share) btree"
  ad_common :: vid_common

text \<open>
  The members take the shares in the order of their keys, each removing the first share left;
  a member without a share panics.
\<close>

fun assign_shares :: "pubkey list \<Rightarrow> vid_share list \<Rightarrow> ((pubkey \<times> vid_share) list, error) result" where
  "assign_shares [] shares = Ok []"
| "assign_shares (k # ks) [] = Panic"
| "assign_shares (k # ks) (s # shares) = and_then (assign_shares ks shares) (\<lambda>ps. Ok ((k, s) # ps))"

definition advz_from_membership ::
  "u64 \<Rightarrow> jf_disperse \<Rightarrow> membership \<Rightarrow> epoch option \<Rightarrow> epoch option \<Rightarrow> commitment option \<Rightarrow> (ADVZDisperse, error) result" where
  "advz_from_membership view d m target_epoch data_epoch data_epoch_payload_commitment =
     and_then (assign_shares (sorted_list_of_set (m_committee_members m view target_epoch)) (jf_shares d)) (\<lambda>ps.
       Ok \<lparr>ad_view_number = view, ad_epoch = data_epoch, ad_target_epoch = target_epoch,
           ad_payload_commitment = jf_commit d, ad_data_epoch_payload_commitment = data_epoch_payload_commitment,
           ad_shares = fold (\<lambda>(k, s). bt_insert k s) ps [], ad_common = jf_common d\<rparr>)"

definition advz_calculate_vid_disperse ::
  "vid_scheme \<Rightarrow> bytes \<Rightarrow> membership \<Rightarrow> u64 \<Rightarrow> epoch option \<Rightarrow> epoch option \<Rightarrow> (ADVZDisperse, error) result" where
  "advz_calculate_vid_disperse vid txns m view target_epoch data_epoch =
     (let num_nodes = m_total_nodes m target_epoch in
      and_then (ok_or (disperse vid num_nodes txns) (Error ErrorLevel [''Failed to calculate VID disperse''])) (\<lambda>d.
      and_then
        (if target_epoch = data_epoch then Ok None
         else
           let num_nodes = m_total_nodes m data_epoch in
           and_then (ok_or (commit_only vid num_nodes txns) (Error ErrorLevel [''Failed to calculate VID commitment'']))
             (\<lambda>c. Ok (Some c))) (\<lambda>payload_commitment.
      advz_from_membership view d m target_epoch data_epoch payload_commitment)))"

record ADVZDisperseShare =
  as_view_number :: u64
  as_payload_commitment :: commitment
  as_share :: vid_share
  as_common :: vid_common
  as_recipient_key :: pubkey

record VidDisperseShare2 =
  s2_view_number :: u64
  s2_epoch :: "epoch option"
  s2_target_epoch :: "epoch option"
  s2_payload_commitment :: commitment
  s2_data_epoch_payload_commitment :: "commitment option"
  s2_share :: vid_share
  s2_common :: vid_common
  s2_recipient_key :: pubkey

definition from_advz_disperse :: "ADVZDisperse \<Rightarrow> ADVZDisperseShare list" where
  "from_advz_disperse d =
     map (\<lambda>(k, s). \<lparr>as_view_number = ad_view_number d, as_payload_commitment = ad_payload_commitment d,
            as_share = s, as_common = ad_common d, as_recipient_key = k\<rparr>) (ad_shares d)"

definition from_vid_disperse2 :: "ADVZDisperse \<Rightarrow> VidDisperseShare2 list" where
  "from_vid_disperse2 d =
     map (\<lambda>(k, s). \<lparr>s2_view_number = ad_view_number d, s2_epoch = ad_epoch d, s2_target_epoch = ad_target_epoch d,
            s2_payload_commitment = ad_payload_commitment d,
            s2_data_epoch_payload_commitment = ad_data_epoch_payload_commitment d,
            s2_share = s, s2_common = ad_common d, s2_recipient_key = k\<rparr>) (ad_shares d)"

text \<open>
  Collecting shares again: the iterator adaptor that would insert the shares after the first is
  never driven, so only the first share enters the map.
\<close>

definition to_advz_disperse :: "ADVZDisperseShare list \<Rightarrow> ADVZDisperse option" where
  "to_advz_disperse it =
     (case it of
        [] \<Rightarrow> None
      | first # _ \<Rightarrow>
          Some \<lparr>ad_view_number = as_view_number first, ad_epoch = None, ad_target_epoch = None,
                ad_payload_commitment = as_payload_commitment first, ad_data_epoch_payload_commitment = None,
                ad_shares = bt_insert (as_recipient_key first) (as_share first) [], ad_common = as_common first\<rparr>)"

definition to_vid_disperse :: "VidDisperseShare2 list \<Rightarrow> ADVZDisperse option" where
  "to_vid_disperse it =
     (case it of
        [] \<Rightarrow> None
      | first # _ \<Rightarrow>
          Some \<lparr>ad_view_number = s2_view_number first, ad_epoch = s2_epoch first, ad_target_epoch = s2_target_epoch first,
                ad_payload_commitment = s2_payload_commitment first,
                ad_data_epoch_payload_commitment = s2_data_epoch_payload_commitment first,
                ad_shares = bt_insert (s2_recipient_key first) (s2_share first) [], ad_common = s2_common first\<rparr>)"

definition advz_to_proposal :: "crypto \<Rightarrow> nat \<Rightarrow> ADVZDisperseShare \<Rightarrow> ADVZDisperseShare Proposal option" where
  "advz_to_proposal cr sk share =
     map_option (\<lambda>g. \<lparr>pr_data = share, pr_signature = g\<rparr>) (key_sign cr sk (as_payload_commitment share))"

definition share2_to_proposal :: "crypto \<Rightarrow> nat \<Rightarrow> VidDisperseShare2 \<Rightarrow> VidDisperseShare2 Proposal option" where
  "share2_to_proposal cr sk share =
     map_option (\<lambda>g. \<lparr>pr_data = share, pr_signature = g\<rparr>) (key_sign cr sk (s2_payload_commitment share))"

definition advz_to_vid_share_proposals :: "ADVZDisperse \<Rightarrow> sig \<Rightarrow> ADVZDisperseShare Proposal list" where
  "advz_to_vid_share_proposals d g = map (\<lambda>s. \<lparr>pr_data = s, pr_signature = g\<rparr>) (from_advz_disperse d)"

definition share2_to_vid_share_proposals :: "ADVZDisperse \<Rightarrow> sig \<Rightarrow> VidDisperseShare2 Proposal list" where
  "share2_to_vid_share_proposals d g = map (\<lambda>s. \<lparr>pr_data = s, pr_signature = g\<rparr>) (from_vid_disperse2 d)"

definition advz_verify_share :: "vid_scheme \<Rightarrow> ADVZDisperseShare \<Rightarrow> nat \<Rightarrow> bool" where
  "advz_verify_share vid s total_nodes =
     scheme_verify_share vid total_nodes (as_share s) (as_common s) (as_payload_commitment s)"

definition share2_verify_share :: "vid_scheme \<Rightarrow> VidDisperseShare2 \<Rightarrow> nat \<Rightarrow> bool" where
  "share2_verify_share vid s total_nodes =
     scheme_verify_share vid total_nodes (s2_share s) (s2_common s) (s2_payload_commitment s)"

definition share2_to_advz :: "VidDisperseShare2 \<Rightarrow> ADVZDisperseShare" where
  "share2_to_advz s =
     \<lparr>as_view_number = s2_view_number s, as_payload_commitment = s2_payload_commitment s,
      as_share = s2_share s, as_common = s2_common s, as_recipient_key = s2_recipient_key s\<rparr>"

definition advz_to_share2 :: "ADVZDisperseShare \<Rightarrow> VidDisperseShare2" where
  "advz_to_share2 s =
     \<lparr>s2_view_number = as_view_number s, s2_epoch = None, s2_target_epoch = None,
      s2_payload_commitment = as_payload_commitment s, s2_data_epoch_payload_commitment = None,
      s2_share = as_share s, s2_common = as_common s, s2_recipient_key = as_recipient_key s\<rparr>"

section \<open>The versioned wrappers\<close>

datatype VidDisperse = DisperseV0 ADVZDisperse | DisperseV1 ADVZDisperse
datatype VidDisperseShare = ShareV0 ADVZDisperseShare | ShareV1 VidDisperseShare2

fun as_advz :: "VidDisperse \<Rightarrow> ADVZDisperse" where
  "as_advz (DisperseV0 d) = d"
| "as_advz (DisperseV1 d) = d"

definition from_membership ::
  "u64 \<Rightarrow> jf_disperse \<Rightarrow> membership \<Rightarrow> epoch option \<Rightarrow> epoch option \<Rightarrow> commitment option \<Rightarrow> (VidDisperse, error) result" where
  "from_membership view d m target_epoch data_epoch c =
     and_then (advz_from_membership view d m target_epoch data_epoch c) (\<lambda>x. Ok (DisperseV0 x))"

definition calculate_vid_disperse ::
  "vid_scheme \<Rightarrow> bytes \<Rightarrow> membership \<Rightarrow> u64 \<Rightarrow> epoch option \<Rightarrow> epoch option \<Rightarrow> (VidDisperse, error) result" where
  "calculate_vid_disperse vid txns m view target_epoch data_epoch =
     and_then (advz_calculate_vid_disperse vid txns m view target_epoch data_epoch) (\<lambda>x.
       Ok (case data_epoch of None \<Rightarrow> DisperseV0 x | Some _ \<Rightarrow> DisperseV1 x))"

fun disperse_set_view_number :: "u64 \<Rightarrow> VidDisperse \<Rightarrow> VidDisperse" where
  "disperse_set_view_number v (DisperseV0 d) = DisperseV0 (d\<lparr>ad_view_number := v\<rparr>)"
| "disperse_set_view_number v (DisperseV1 d) = DisperseV1 (d\<lparr>ad_view_number := v\<rparr>)"

fun from_vid_disperse :: "VidDisperse \<Rightarrow> VidDisperseShare list" where
  "from_vid_disperse (DisperseV0 d) = map ShareV0 (from_advz_disperse d)"
| "from_vid_disperse (DisperseV1 d) = map ShareV1 (from_vid_disperse2 d)"

fun share_payload_commitment :: "VidDisperseShare \<Rightarrow> commitment" where
  "share_payload_commitment (ShareV0 s) = as_payload_commitment s"
| "share_payload_commitment (ShareV1 s) = s2_payload_commitment s"

definition share_to_proposal :: "crypto \<Rightarrow> nat \<Rightarrow> VidDisperseShare \<Rightarrow> VidDisperseShare Proposal option" where
  "share_to_proposal cr sk share =
     map_option (\<lambda>g. \<lparr>pr_data = share, pr_signature = g\<rparr>) (key_sign cr sk (share_payload_commitment share))"

definition to_vid_share_proposals :: "VidDisperse Proposal \<Rightarrow> VidDisperseShare Proposal list" where
  "to_vid_share_proposals p =
     (case pr_data p of
        DisperseV0 d \<Rightarrow> map (convert_proposal ShareV0) (advz_to_vid_share_proposals d (pr_signature p))
      | DisperseV1 d \<Rightarrow> map (convert_proposal ShareV1) (share2_to_vid_share_proposals d (pr_signature p)))"

fun recipient_key :: "VidDisperseShare \<Rightarrow> pubkey" where
  "recipient_key (ShareV0 s) = as_recipient_key s"
| "recipient_key (ShareV1 s) = s2_recipient_key s"

fun data_epoch_payload_commitment :: "VidDisperseShare \<Rightarrow> commitment option" where
  "data_epoch_payload_commitment (ShareV0 s) = None"
| "data_epoch_payload_commitment (ShareV1 s) = s2_data_epoch_payload_commitment s"

fun vid_common_ref :: "VidDisperseShare \<Rightarrow> vid_common" where
  "vid_common_ref (ShareV0 s) = as_common s"
| "vid_common_ref (ShareV1 s) = s2_common s"

fun target_epoch :: "VidDisperseShare \<Rightarrow> epoch option" where
  "target_epoch (ShareV0 s) = None"
| "target_epoch (ShareV1 s) = s2_target_epoch s"

fun share_verify_share :: "vid_scheme \<Rightarrow> VidDisperseShare \<Rightarrow> nat \<Rightarrow> bool" where
  "share_verify_share vid (ShareV0 s) n = advz_verify_share vid s n"
| "share_verify_share vid (ShareV1 s) n = share2_verify_share vid s n"

fun set_view_number :: "u64 \<Rightarrow> VidDisperseShare \<Rightarrow> VidDisperseShare" where
  "set_view_number v (ShareV0 s) = ShareV0 (s\<lparr>as_view_number := v\<rparr>)"
| "set_view_number v (ShareV1 s) = ShareV1 (s\<lparr>s2_view_number := v\<rparr>)"

fun share_view_number :: "VidDisperseShare \<Rightarrow> u64" where
  "share_view_number (ShareV0 s) = as_view_number s"
| "share_view_number (ShareV1 s) = s2_view_number s"

fun share_epoch :: "VidDisperseShare \<Rightarrow> epoch option" where
  "share_epoch (ShareV0 s) = None"
| "share_epoch (ShareV1 s) = s2_epoch s"

fun share_into_share2 :: "VidDisperseShare \<Rightarrow> VidDisperseShare2" where
  "share_into_share2 (ShareV0 s) = advz_to_share2 s"
| "share_into_share2 (ShareV1 s) = s"

section \<open>Lemmas\<close>

lemma assign_shares_eq_Ok [result_simps]:
  "assign_shares ks shares = Ok ps \<longleftrightarrow> length ks \<le> length shares \<and> ps = zip ks shares"
  by (induction ks shares arbitrary: ps rule: assign_shares.induct) (auto simp: result_simps)

lemma bt_insert_last: "\<forall>k' \<in> fst ` set m. k' < k \<Longrightarrow> bt_insert k s m = m @ [(k, s)]"
  by (induction m) auto

lemma fold_bt_insert_sorted:
  "sorted_wrt (<) (map fst (m @ ps)) \<Longrightarrow> fold (\<lambda>(k, s). bt_insert k s) ps m = m @ ps"
proof (induction ps arbitrary: m)
  case (Cons p ps)
  obtain k s where p: "p = (k, s)" by fastforce
  have "bt_insert k s m = m @ [(k, s)]"
    using Cons.prems by (intro bt_insert_last) (auto simp: p sorted_wrt_append)
  then show ?case using Cons.IH [of "m @ [p]"] Cons.prems by (simp add: p)
qed simp

lemma from_membership_shares:
  assumes "finite (m_committee_members m view te)"
  shows "advz_from_membership view d m te de c = Ok x \<longleftrightarrow>
     card (m_committee_members m view te) \<le> length (jf_shares d) \<and>
     x = \<lparr>ad_view_number = view, ad_epoch = de, ad_target_epoch = te, ad_payload_commitment = jf_commit d,
          ad_data_epoch_payload_commitment = c,
          ad_shares = zip (sorted_list_of_set (m_committee_members m view te)) (jf_shares d), ad_common = jf_common d\<rparr>"
proof -
  let ?ks = "sorted_list_of_set (m_committee_members m view te)"
  have "sorted_wrt (<) (map fst (zip ?ks (jf_shares d)))" if "length ?ks \<le> length (jf_shares d)"
    using that by (simp add: map_fst_zip_take)
  then have "fold (\<lambda>(k, s). bt_insert k s) (zip ?ks (jf_shares d)) [] = zip ?ks (jf_shares d)"
    if "length ?ks \<le> length (jf_shares d)"
    using that by (simp add: fold_bt_insert_sorted)
  then show ?thesis using assms by (auto simp: advz_from_membership_def result_simps)
qed

lemma share2_round_trip: "share2_to_advz (advz_to_share2 s) = s"
  by (simp add: share2_to_advz_def advz_to_share2_def)

lemma set_view_number_simps [simp]:
  "share_view_number (set_view_number v s) = v"
  "recipient_key (set_view_number v s) = recipient_key s"
  "share_payload_commitment (set_view_number v s) = share_payload_commitment s"
  by (cases s; simp)+

section \<open>Properties\<close>

text \<open>
  What the code relies on of the erasure code: it makes one share per node, and each of them
  verifies against the commitment.
\<close>

definition scheme_ok :: "vid_scheme \<Rightarrow> bool" where
  "scheme_ok vid \<longleftrightarrow>
     (\<forall>n p d. disperse vid n p = Some d \<longrightarrow>
        length (jf_shares d) = n \<and> (\<forall>s \<in> set (jf_shares d). scheme_verify_share vid n s (jf_common d) (jf_commit d)))"


text \<open>A scheme in which every share carries its node's position and verifies.\<close>

definition toy_vid :: vid_scheme where
  "toy_vid =
     \<lparr>disperse = (\<lambda>n p. Some \<lparr>jf_commit = p, jf_common = n, jf_shares = [0..<n]\<rparr>),
      commit_only = (\<lambda>n p. Some p),
      scheme_verify_share = (\<lambda>n s c p. s < n \<and> c = n)\<rparr>"


text \<open>
  Collecting the shares of a dispersal gives the dispersal back exactly when it has one share:
  the iterator adaptor over the remaining shares is dropped before it runs.
\<close>

theorem to_vid_disperse_loses_shares:
  assumes "ad_shares d \<noteq> []"
  shows "to_vid_disperse (from_vid_disperse2 d) = Some d \<longleftrightarrow> length (ad_shares d) = 1"
  using assms
  by (cases "ad_shares d"; cases d) (auto simp: to_vid_disperse_def from_vid_disperse2_def)

theorem to_vid_disperse_loses_shares_witness:
  "to_vid_disperse (from_vid_disperse2
     \<lparr>ad_view_number = 1, ad_epoch = None, ad_target_epoch = None, ad_payload_commitment = [],
      ad_data_epoch_payload_commitment = None, ad_shares = [(1, 10), (2, 20)], ad_common = 0\<rparr>) \<noteq>
   Some \<lparr>ad_view_number = 1, ad_epoch = None, ad_target_epoch = None, ad_payload_commitment = [],
      ad_data_epoch_payload_commitment = None, ad_shares = [(1, 10), (2, 20)], ad_common = 0\<rparr>"
  by (subst to_vid_disperse_loses_shares) simp_all

end
