(* ===== verification/LeafData.thy ===== *)
theory LeafData
  imports VidData Epochs
begin

text \<open>
  Proposals and leaves: \<open>crates/types/src/data.rs\<close>, with the block payload and header interfaces of
  \<open>crates/types/src/traits/block_contents.rs\<close> and the proposal signature check of
  \<open>crates/types/src/message.rs\<close>.

  Headers, payloads and states belong to the application.  A header is modelled by what its methods
  return, a payload and its metadata by their encodings; how they are built is the parameter
  \<open>payload_ops\<close>.  The lemmas compare the two generations of leaves and proposals and show which parts
  of a leaf its commitment binds.
\<close>

section \<open>Payloads and headers\<close>

type_synonym metadata = bytes
type_synonym transaction = nat
type_synonym validated_state = nat
type_synonym state_delta = nat
type_synonym drb_result = bytes

datatype payload = Payload (encode: bytes)

record block_header =
  block_number :: u64
  payload_commitment :: commitment
  header_metadata :: metadata
  header_builder_commitment :: commitment
  header_auction_results :: "nat option"
  header_commit :: commitment

record payload_ops =
  from_transactions :: "transaction list \<Rightarrow> validated_state \<Rightarrow> (payload \<times> metadata) option"
  from_bytes :: "bytes \<Rightarrow> metadata \<Rightarrow> payload"
  empty_payload :: "payload \<times> metadata"
  transactions :: "payload \<Rightarrow> metadata \<Rightarrow> transaction list"
  commit_transaction :: "transaction \<Rightarrow> commitment"
  builder_commitment :: "payload \<Rightarrow> metadata \<Rightarrow> commitment"
  header_genesis :: "commitment \<Rightarrow> commitment \<Rightarrow> metadata \<Rightarrow> block_header"

definition transaction_commitments :: "'a payload_ops_scheme \<Rightarrow> payload \<Rightarrow> metadata \<Rightarrow> commitment list" where
  "transaction_commitments ops p md = map (commit_transaction ops) (transactions ops p md)"

definition num_transactions :: "'a payload_ops_scheme \<Rightarrow> payload \<Rightarrow> metadata \<Rightarrow> nat" where
  "num_transactions ops p md = length (transactions ops p md)"

record BuilderFee =
  fee_amount :: u64
  fee_account :: nat
  fee_signature :: nat

section \<open>Proposals\<close>

record DaProposal =
  da_encoded_transactions :: bytes
  da_metadata :: metadata
  da_view_number :: u64

record DaProposal2 =
  da2_encoded_transactions :: bytes
  da2_metadata :: metadata
  da2_view_number :: u64
  da2_epoch :: "epoch option"

definition da_proposal_to_2 :: "DaProposal \<Rightarrow> DaProposal2" where
  "da_proposal_to_2 p =
     \<lparr>da2_encoded_transactions = da_encoded_transactions p, da2_metadata = da_metadata p,
      da2_view_number = da_view_number p, da2_epoch = None\<rparr>"

definition da_proposal_to_1 :: "DaProposal2 \<Rightarrow> DaProposal" where
  "da_proposal_to_1 p =
     \<lparr>da_encoded_transactions = da2_encoded_transactions p, da_metadata = da2_metadata p,
      da_view_number = da2_view_number p\<rparr>"

record UpgradeProposal =
  up_upgrade_proposal :: UpgradeProposalData
  up_view_number :: u64

datatype ViewChangeEvidence = Timeout TimeoutCertificate | ViewSync ViewSyncFinalizeCertificate
datatype ViewChangeEvidence2 = Timeout2 TimeoutCertificate2 | ViewSync2 ViewSyncFinalizeCertificate2

fun is_valid_for_view :: "ViewChangeEvidence \<Rightarrow> u64 \<Rightarrow> bool" where
  "is_valid_for_view (Timeout c) view = (case c_data c of TimeoutData v \<Rightarrow> v = view - 1)"
| "is_valid_for_view (ViewSync c) view = (c_view_number c = view)"

fun is_valid_for_view2 :: "ViewChangeEvidence2 \<Rightarrow> u64 \<Rightarrow> bool" where
  "is_valid_for_view2 (Timeout2 c) view = (timeout_view (c_data c) = view - 1)"
| "is_valid_for_view2 (ViewSync2 c) view = (c_view_number c = view)"

fun to_evidence2 :: "ViewChangeEvidence \<Rightarrow> ViewChangeEvidence2" where
  "to_evidence2 (Timeout c) = Timeout2 (to_tc2 c)"
| "to_evidence2 (ViewSync c) = ViewSync2 (finalize_to_vsc2 c)"

fun to_evidence :: "ViewChangeEvidence2 \<Rightarrow> ViewChangeEvidence" where
  "to_evidence (Timeout2 c) = Timeout (to_tc c)"
| "to_evidence (ViewSync2 c) = ViewSync (finalize_to_vsc c)"

record QuorumProposal =
  qp_block_header :: block_header
  qp_view_number :: u64
  qp_justify_qc :: QuorumCertificate
  qp_upgrade_certificate :: "UpgradeCertificate option"
  qp_proposal_certificate :: "ViewChangeEvidence option"

record QuorumProposal2 =
  q2_block_header :: block_header
  q2_view_number :: u64
  q2_epoch :: "epoch option"
  q2_justify_qc :: QuorumCertificate2
  q2_next_epoch_justify_qc :: "NextEpochQuorumCertificate2 option"
  q2_upgrade_certificate :: "UpgradeCertificate option"
  q2_view_change_evidence :: "ViewChangeEvidence2 option"
  q2_next_drb_result :: "drb_result option"

text \<open>\<open>QuorumProposalWrapper\<close> holds one \<open>QuorumProposal2\<close>.\<close>

record QuorumProposalWrapper =
  qw_proposal :: QuorumProposal2

definition validate_epoch :: "versions \<Rightarrow> UpgradeLock \<Rightarrow> u64 \<Rightarrow> QuorumProposal2 \<Rightarrow> (unit, error) result" where
  "validate_epoch V lock epoch_height p =
     (let calculated_epoch = option_epoch_from_block_number (epochs_enabled V lock (q2_view_number p))
            (block_number (q2_block_header p)) epoch_height
      in ensure (calculated_epoch = q2_epoch p)
           (Error Unspecified [''Quorum proposal invalid: inconsistent epoch.'']))"

definition qp_to_qp2 :: "QuorumProposal \<Rightarrow> QuorumProposal2" where
  "qp_to_qp2 p =
     \<lparr>q2_block_header = qp_block_header p, q2_view_number = qp_view_number p, q2_epoch = None,
      q2_justify_qc = to_qc2 (qp_justify_qc p), q2_next_epoch_justify_qc = None,
      q2_upgrade_certificate = qp_upgrade_certificate p,
      q2_view_change_evidence = map_option to_evidence2 (qp_proposal_certificate p),
      q2_next_drb_result = None\<rparr>"

definition qp2_to_qp :: "QuorumProposal2 \<Rightarrow> QuorumProposal" where
  "qp2_to_qp p =
     \<lparr>qp_block_header = q2_block_header p, qp_view_number = q2_view_number p,
      qp_justify_qc = to_qc (q2_justify_qc p), qp_upgrade_certificate = q2_upgrade_certificate p,
      qp_proposal_certificate = map_option to_evidence (q2_view_change_evidence p)\<rparr>"

definition qp_to_wrapper :: "QuorumProposal \<Rightarrow> QuorumProposalWrapper" where
  "qp_to_wrapper p = \<lparr>qw_proposal = qp_to_qp2 p\<rparr>"

definition qp2_to_wrapper :: "QuorumProposal2 \<Rightarrow> QuorumProposalWrapper" where
  "qp2_to_wrapper p = \<lparr>qw_proposal = p\<rparr>"

definition wrapper_to_qp :: "QuorumProposalWrapper \<Rightarrow> QuorumProposal" where
  "wrapper_to_qp w = qp2_to_qp (qw_proposal w)"

definition wrapper_to_qp2 :: "QuorumProposalWrapper \<Rightarrow> QuorumProposal2" where
  "wrapper_to_qp2 w = qw_proposal w"

section \<open>Leaves\<close>

record Leaf =
  lf_view_number :: u64
  lf_justify_qc :: QuorumCertificate
  lf_parent_commitment :: commitment
  lf_block_header :: block_header
  lf_upgrade_certificate :: "UpgradeCertificate option"
  lf_block_payload :: "payload option"

record Leaf2 =
  l2_view_number :: u64
  l2_justify_qc :: QuorumCertificate2
  l2_next_epoch_justify_qc :: "NextEpochQuorumCertificate2 option"
  l2_parent_commitment :: commitment
  l2_block_header :: block_header
  l2_upgrade_certificate :: "UpgradeCertificate option"
  l2_block_payload :: "payload option"
  l2_view_change_evidence :: "ViewChangeEvidence2 option"
  l2_next_drb_result :: "drb_result option"
  l2_with_epoch :: bool

definition leaf_to_leaf2 :: "Leaf \<Rightarrow> Leaf2" where
  "leaf_to_leaf2 l =
     \<lparr>l2_view_number = lf_view_number l, l2_justify_qc = to_qc2 (lf_justify_qc l), l2_next_epoch_justify_qc = None,
      l2_parent_commitment = lf_parent_commitment l, l2_block_header = lf_block_header l,
      l2_upgrade_certificate = lf_upgrade_certificate l, l2_block_payload = lf_block_payload l,
      l2_view_change_evidence = None, l2_next_drb_result = None, l2_with_epoch = False\<rparr>"

definition to_leaf_unsafe :: "Leaf2 \<Rightarrow> Leaf" where
  "to_leaf_unsafe l =
     \<lparr>lf_view_number = l2_view_number l, lf_justify_qc = to_qc (l2_justify_qc l),
      lf_parent_commitment = l2_parent_commitment l, lf_block_header = l2_block_header l,
      lf_upgrade_certificate = l2_upgrade_certificate l, lf_block_payload = l2_block_payload l\<rparr>"

definition commit_Leaf :: "crypto \<Rightarrow> Leaf \<Rightarrow> commitment" where
  "commit_Leaf cr l =
     finalize cr
       [Tag ''leaf commitment'', U64_field ''view number'' (lf_view_number l),
        Field ''parent leaf commitment'' (lf_parent_commitment l),
        Field ''block header'' (header_commit (lf_block_header l)),
        Field ''justify qc'' (commit_certificate cr (commit_QuorumData (finalize cr)) (lf_justify_qc l)),
        Optional ''upgrade certificate''
          (map_option (commit_certificate cr (commit_UpgradeProposalData (finalize cr))) (lf_upgrade_certificate l))]"

definition commit_Leaf2 :: "crypto \<Rightarrow> Leaf2 \<Rightarrow> commitment" where
  "commit_Leaf2 cr l =
     finalize cr
       ([Tag ''leaf commitment'', U64_field ''view number'' (l2_view_number l),
         Field ''parent leaf commitment'' (l2_parent_commitment l),
         Field ''block header'' (header_commit (l2_block_header l)),
         Field ''justify qc'' (commit_certificate cr (commit_QuorumData2 (finalize cr)) (l2_justify_qc l)),
         Optional ''upgrade certificate''
           (map_option (commit_certificate cr (commit_UpgradeProposalData (finalize cr))) (l2_upgrade_certificate l))] @
        (if l2_with_epoch l then
           [Constant_str ''with_epoch'',
            Optional ''next_epoch_justify_qc''
              (map_option (commit_certificate cr (commit_NextEpochQuorumData2 (finalize cr))) (l2_next_epoch_justify_qc l))] @
           (case l2_next_drb_result l of
              Some r \<Rightarrow> [Constant_str ''next_drb_result'', Fixed_size_bytes r]
            | None \<Rightarrow> [])
         else []))"

text \<open>The hand-written equalities: a payload never matters, and \<open>Leaf\<close> ignores the upgrade certificate too.\<close>

definition eq_Leaf :: "Leaf \<Rightarrow> Leaf \<Rightarrow> bool" where
  "eq_Leaf a b \<longleftrightarrow>
     lf_view_number a = lf_view_number b \<and> lf_justify_qc a = lf_justify_qc b \<and>
     lf_parent_commitment a = lf_parent_commitment b \<and> lf_block_header a = lf_block_header b"

definition eq_Leaf2 :: "Leaf2 \<Rightarrow> Leaf2 \<Rightarrow> bool" where
  "eq_Leaf2 a b \<longleftrightarrow>
     l2_view_number a = l2_view_number b \<and> l2_justify_qc a = l2_justify_qc b \<and>
     l2_next_epoch_justify_qc a = l2_next_epoch_justify_qc b \<and> l2_parent_commitment a = l2_parent_commitment b \<and>
     l2_block_header a = l2_block_header b \<and> l2_upgrade_certificate a = l2_upgrade_certificate b \<and>
     l2_view_change_evidence a = l2_view_change_evidence b \<and> l2_next_drb_result a = l2_next_drb_result b \<and>
     l2_with_epoch a = l2_with_epoch b"

definition from_quorum_proposal :: "QuorumProposalWrapper \<Rightarrow> Leaf2" where
  "from_quorum_proposal w =
     (let p = qw_proposal w in
      \<lparr>l2_view_number = q2_view_number p, l2_justify_qc = q2_justify_qc p,
       l2_next_epoch_justify_qc = q2_next_epoch_justify_qc p,
       l2_parent_commitment = leaf_commit (c_data (q2_justify_qc p)), l2_block_header = q2_block_header p,
       l2_upgrade_certificate = q2_upgrade_certificate p, l2_block_payload = None,
       l2_view_change_evidence = q2_view_change_evidence p, l2_next_drb_result = q2_next_drb_result p,
       l2_with_epoch = (q2_epoch p \<noteq> None)\<rparr>)"

definition leaf_from_quorum_proposal :: "QuorumProposal \<Rightarrow> Leaf" where
  "leaf_from_quorum_proposal p =
     \<lparr>lf_view_number = qp_view_number p, lf_justify_qc = qp_justify_qc p,
      lf_parent_commitment = (case c_data (qp_justify_qc p) of QuorumData lc \<Rightarrow> lc),
      lf_block_header = qp_block_header p, lf_upgrade_certificate = qp_upgrade_certificate p,
      lf_block_payload = None\<rparr>"

definition l2_epoch :: "Leaf2 \<Rightarrow> u64 \<Rightarrow> epoch option" where
  "l2_epoch l epoch_height =
     option_epoch_from_block_number (l2_with_epoch l) (block_number (l2_block_header l)) epoch_height"

definition l2_height :: "Leaf2 \<Rightarrow> u64" where
  "l2_height l = block_number (l2_block_header l)"

definition l2_payload_commitment :: "Leaf2 \<Rightarrow> commitment" where
  "l2_payload_commitment l = payload_commitment (l2_block_header l)"

datatype BlockError = InvalidBlockHeader string | InconsistentPayloadCommitment

definition fill_block_payload ::
  "vid_scheme \<Rightarrow> payload \<Rightarrow> nat \<Rightarrow> Version \<Rightarrow> Leaf2 \<Rightarrow> (Leaf2, BlockError) result" where
  "fill_block_payload vid p num_storage_nodes v l =
     and_then (vid_commitment vid (encode p) num_storage_nodes v) (\<lambda>cm.
       if cm \<noteq> payload_commitment (l2_block_header l) then Err InconsistentPayloadCommitment
       else Ok (l\<lparr>l2_block_payload := Some p\<rparr>))"

definition unfill_block_payload :: "Leaf2 \<Rightarrow> Leaf2 \<times> payload option" where
  "unfill_block_payload l = (l\<lparr>l2_block_payload := None\<rparr>, l2_block_payload l)"

definition fill_block_payload_unchecked :: "payload \<Rightarrow> Leaf2 \<Rightarrow> Leaf2" where
  "fill_block_payload_unchecked p l = l\<lparr>l2_block_payload := Some p\<rparr>"

definition leaf_fill_block_payload ::
  "vid_scheme \<Rightarrow> payload \<Rightarrow> nat \<Rightarrow> Version \<Rightarrow> Leaf \<Rightarrow> (Leaf, BlockError) result" where
  "leaf_fill_block_payload vid p num_storage_nodes v l =
     and_then (vid_commitment vid (encode p) num_storage_nodes v) (\<lambda>cm.
       if cm \<noteq> payload_commitment (lf_block_header l) then Err InconsistentPayloadCommitment
       else Ok (l\<lparr>lf_block_payload := Some p\<rparr>))"

definition missing_upgrade_certificate :: error where
  "missing_upgrade_certificate = Error Unspecified
     [''The new leaf is missing an upgrade certificate that was present in its parent, and should still be live.'']"

definition different_upgrade_certificate :: error where
  "different_upgrade_certificate = Error Unspecified
     [''The new leaf does not extend the parent leaf, because it has attached a different upgrade certificate.'']"

text \<open>The rule is the same for both generations of leaves.\<close>

definition upgrade_extends ::
  "u64 \<Rightarrow> UpgradeCertificate option \<Rightarrow> UpgradeCertificate option \<Rightarrow> UpgradeCertificate option \<Rightarrow> (unit, error) result" where
  "upgrade_extends view own parent decided =
     (case (own, parent) of
        (_, None) \<Rightarrow> Ok ()
      | (None, Some parent_cert) \<Rightarrow>
          ensure (new_version_first_view (c_data parent_cert) < view \<or>
                  decide_by (c_data parent_cert) < view \<and> decided = None) missing_upgrade_certificate
      | (Some cert, Some parent_cert) \<Rightarrow> ensure (cert = parent_cert) different_upgrade_certificate)"

definition extends_upgrade :: "Leaf2 \<Rightarrow> Leaf2 \<Rightarrow> UpgradeCertificate option \<Rightarrow> (unit, error) result" where
  "extends_upgrade l parent decided =
     upgrade_extends (l2_view_number l) (l2_upgrade_certificate l) (l2_upgrade_certificate parent) decided"

definition leaf_extends_upgrade :: "Leaf \<Rightarrow> Leaf \<Rightarrow> UpgradeCertificate option \<Rightarrow> (unit, error) result" where
  "leaf_extends_upgrade l parent decided =
     upgrade_extends (lf_view_number l) (lf_upgrade_certificate l) (lf_upgrade_certificate parent) decided"

section \<open>Genesis\<close>

text \<open>Payload and header of the genesis block; a malformed genesis payload panics.\<close>

definition genesis_block ::
  "vid_scheme \<Rightarrow> 'a payload_ops_scheme \<Rightarrow> versions \<Rightarrow> validated_state \<Rightarrow> (payload \<times> block_header, error) result" where
  "genesis_block vid ops V st =
     and_then (unwrap (from_transactions ops [] st)) (\<lambda>(p, md).
     and_then (vid_commitment vid (encode p) GENESIS_VID_NUM_STORAGE_NODES (version_infallible V upgrade_lock_new 0)) (\<lambda>pc.
       Ok (p, header_genesis ops pc (builder_commitment ops p md) md)))"

definition leaf2_genesis ::
  "crypto \<Rightarrow> vid_scheme \<Rightarrow> 'a payload_ops_scheme \<Rightarrow> versions \<Rightarrow> validated_state \<Rightarrow> (Leaf2, error) result" where
  "leaf2_genesis cr vid ops V st =
     and_then (genesis_block vid ops V st) (\<lambda>(p, hd).
       let e = genesis_epoch_from_version V;
           null_quorum_data = QuorumData2 (default_commitment_no_preimage cr) e
       in Ok \<lparr>l2_view_number = 0,
              l2_justify_qc = certificate_new null_quorum_data (commit_QuorumData2 (finalize cr) null_quorum_data) 0 None,
              l2_next_epoch_justify_qc = None, l2_parent_commitment = leaf_commit null_quorum_data,
              l2_block_header = hd, l2_upgrade_certificate = None, l2_block_payload = Some p,
              l2_view_change_evidence = None, l2_next_drb_result = None, l2_with_epoch = (e \<noteq> None)\<rparr>)"

definition leaf_genesis ::
  "crypto \<Rightarrow> vid_scheme \<Rightarrow> 'a payload_ops_scheme \<Rightarrow> versions \<Rightarrow> validated_state \<Rightarrow> (Leaf, error) result" where
  "leaf_genesis cr vid ops V st =
     and_then (genesis_block vid ops V st) (\<lambda>(p, hd).
       let null_quorum_data = QuorumData (default_commitment_no_preimage cr)
       in Ok \<lparr>lf_view_number = 0,
              lf_justify_qc = certificate_new null_quorum_data (commit_QuorumData (finalize cr) null_quorum_data) 0 None,
              lf_parent_commitment = default_commitment_no_preimage cr,
              lf_block_header = hd, lf_upgrade_certificate = None, lf_block_payload = Some p\<rparr>)"

definition qc_genesis ::
  "crypto \<Rightarrow> vid_scheme \<Rightarrow> 'a payload_ops_scheme \<Rightarrow> versions \<Rightarrow> validated_state \<Rightarrow> (QuorumCertificate, error) result" where
  "qc_genesis cr vid ops V st =
     and_then (leaf_genesis cr vid ops V st) (\<lambda>l.
       let d = QuorumData (commit_Leaf cr l);
           vd = versioned_new_infallible V upgrade_lock_new d 0
       in Ok (certificate_new d (commit_versioned (finalize cr) (commit_QuorumData (finalize cr)) vd) 0 None))"

definition qc2_genesis ::
  "crypto \<Rightarrow> vid_scheme \<Rightarrow> 'a payload_ops_scheme \<Rightarrow> versions \<Rightarrow> validated_state \<Rightarrow> (QuorumCertificate2, error) result" where
  "qc2_genesis cr vid ops V st =
     and_then (leaf2_genesis cr vid ops V st) (\<lambda>l.
       let d = QuorumData2 (commit_Leaf2 cr l) (genesis_epoch_from_version V);
           vd = versioned_new_infallible V upgrade_lock_new d 0
       in Ok (certificate_new d (commit_versioned (finalize cr) (commit_QuorumData2 (finalize cr)) vd) 0 None))"

section \<open>Signatures of proposals\<close>

definition qp_validate_signature ::
  "crypto \<Rightarrow> membership \<Rightarrow> QuorumProposal Proposal \<Rightarrow> (unit, error) result" where
  "qp_validate_signature cr m p =
     and_then (leader m (qp_view_number (pr_data p)) None) (\<lambda>view_leader_key.
       ensure (key_validate cr view_leader_key (pr_signature p)
                 (commit_Leaf cr (leaf_from_quorum_proposal (pr_data p))))
         (Error Unspecified [''Proposal signature is invalid.'']))"

definition validate_signature ::
  "crypto \<Rightarrow> membership \<Rightarrow> u64 \<Rightarrow> QuorumProposalWrapper Proposal \<Rightarrow> (unit, error) result" where
  "validate_signature cr m epoch_height p =
     (let qp = qw_proposal (pr_data p);
          proposal_epoch = option_epoch_from_block_number (q2_epoch qp \<noteq> None)
            (block_number (q2_block_header qp)) epoch_height
      in and_then (leader m (q2_view_number qp) proposal_epoch) (\<lambda>view_leader_key.
           ensure (key_validate cr view_leader_key (pr_signature p) (commit_Leaf2 cr (from_quorum_proposal (pr_data p))))
             (Error Unspecified [''Proposal signature is invalid.''])))"

section \<open>Lemmas\<close>

lemma commit_to_qc2 [simp]:
  "commit_certificate cr (commit_QuorumData2 (finalize cr)) (to_qc2 c) = commit_certificate cr (commit_QuorumData (finalize cr)) c"
  by (simp add: commit_certificate_def to_qc2_def cert_with_def commit_quorum_data2)

lemma commit_leaf_to_leaf2: "commit_Leaf2 cr (leaf_to_leaf2 l) = commit_Leaf cr l"
  by (simp add: commit_Leaf2_def commit_Leaf_def leaf_to_leaf2_def)

lemma leaf2_of_old_proposal:
  "from_quorum_proposal (qp_to_wrapper p) =
     (leaf_to_leaf2 (leaf_from_quorum_proposal p))
       \<lparr>l2_view_change_evidence := map_option to_evidence2 (qp_proposal_certificate p)\<rparr>"
  by (cases "c_data (qp_justify_qc p)")
    (simp add: from_quorum_proposal_def qp_to_wrapper_def qp_to_qp2_def leaf_to_leaf2_def leaf_from_quorum_proposal_def
      to_qc2_def cert_with_def)

lemma commit_Leaf2_frame [simp]:
  "commit_Leaf2 cr (l\<lparr>l2_view_change_evidence := e\<rparr>) = commit_Leaf2 cr l"
  "commit_Leaf2 cr (l\<lparr>l2_block_payload := p\<rparr>) = commit_Leaf2 cr l"
  by (simp_all add: commit_Leaf2_def)

lemma to_evidence_round_trip: "to_evidence (to_evidence2 e) = e"
  by (cases e) (simp_all add: to_tc_def to_tc2_def finalize_to_vsc_def finalize_to_vsc2_def cert_with_def data_round_trips)

lemma qp_round_trip: "qp2_to_qp (qp_to_qp2 p) = p"
  by (simp add: qp2_to_qp_def qp_to_qp2_def to_qc_def to_qc2_def cert_with_def data_round_trips option.map_comp
      comp_def to_evidence_round_trip option.map_ident)

lemma leaf_round_trip: "to_leaf_unsafe (leaf_to_leaf2 l) = l"
  by (simp add: to_leaf_unsafe_def leaf_to_leaf2_def to_qc_def to_qc2_def cert_with_def data_round_trips)

lemma commit_certificate_inj:
  assumes "binding (finalize cr)" and "commit_certificate cr cd a = commit_certificate cr cd' b"
  shows "cd (c_data a) = cd' (c_data b)" and "c_vote_commitment a = c_vote_commitment b"
    and "c_view_number a = c_view_number b"
  using assms by (auto simp: commit_certificate_def binding_def inj_eq commit_ViewNumber_def)

section \<open>Properties\<close>

text \<open>
  C30. A proposal in the old format keeps its meaning in the new one: converted, it names a leaf
  with the same commitment, its signature is checked against the same key and bytes with the same
  result, whatever the epoch height, and converting back gives the proposal.
\<close>

theorem old_proposal_verifies:
  "validate_signature cr m epoch_height (convert_proposal qp_to_wrapper p) = qp_validate_signature cr m p \<and>
   commit_Leaf2 cr (from_quorum_proposal (qp_to_wrapper (pr_data p))) = commit_Leaf cr (leaf_from_quorum_proposal (pr_data p)) \<and>
   convert_proposal wrapper_to_qp (convert_proposal qp_to_wrapper p) = p"
proof -
  have lf: "commit_Leaf2 cr (from_quorum_proposal (qp_to_wrapper q)) = commit_Leaf cr (leaf_from_quorum_proposal q)" for q
    by (simp add: leaf2_of_old_proposal commit_leaf_to_leaf2)
  then have "validate_signature cr m epoch_height (convert_proposal qp_to_wrapper p) = qp_validate_signature cr m p"
    by (simp add: validate_signature_def qp_validate_signature_def convert_proposal_def
        qp_to_wrapper_def qp_to_qp2_def option_epoch_from_block_number_def)
  with lf show ?thesis by (simp add: convert_proposal_def wrapper_to_qp_def qp_to_wrapper_def qp_round_trip)
qed


text \<open>A digest without collisions, as a unary code of the builder calls.\<close>

definition inj_crypto :: crypto where
  "inj_crypto = toy_crypto\<lparr>finalize := (\<lambda>ops. replicate (Suc (to_nat ops)) 0)\<rparr>"

lemma binding_inj_crypto: "binding (finalize inj_crypto)"
  by (auto simp: binding_def inj_crypto_def inj_def replicate_eq_replicate simp del: replicate_Suc)

lemma commit_inj_crypto_nonempty: "finalize inj_crypto ops \<noteq> []"
  by (simp add: inj_crypto_def)

definition toy_header :: "u64 \<Rightarrow> block_header" where
  "toy_header n = \<lparr>block_number = n, payload_commitment = [], header_metadata = [], header_builder_commitment = [],
     header_auction_results = None, header_commit = [word_of_nat (unat n)]\<rparr>"

definition toy_qc :: "u64 \<Rightarrow> commitment \<Rightarrow> QuorumCertificate2" where
  "toy_qc v lc = \<lparr>c_data = QuorumData2 lc None, c_vote_commitment = [], c_view_number = v, c_signatures = Some (6, [True, True, True, False])\<rparr>"

definition toy_leaf :: "u64 \<Rightarrow> QuorumCertificate2 \<Rightarrow> Leaf2" where
  "toy_leaf v qc = \<lparr>l2_view_number = v, l2_justify_qc = qc, l2_next_epoch_justify_qc = None,
     l2_parent_commitment = leaf_commit (c_data qc), l2_block_header = toy_header v, l2_upgrade_certificate = None,
     l2_block_payload = None, l2_view_change_evidence = None, l2_next_drb_result = None, l2_with_epoch = False\<rparr>"


end
