(* ===== verification/ConsensusState.thy ===== *)
theory ConsensusState
  imports LeafData
begin

text \<open>
  The consensus state shared by the tasks of a node: \<open>crates/types/src/consensus.rs\<close>, with the views of
  \<open>crates/types/src/utils.rs\<close>, the random beacon tables of \<open>crates/types/src/drb.rs\<close> and the actions and
  leaf information of \<open>crates/types/src/event.rs\<close>.

  \<open>BTreeMap\<close> fields are ordered maps, \<open>HashMap\<close> fields are maps; the metrics are left out.  Every update
  is a function to the new state or an error, an error leaving the state as it was.  The walk over the
  ancestors of a leaf follows commitments and is a partial function.
\<close>

section \<open>Views\<close>

datatype ViewInner =
    Da commitment "epoch option"
  | LeafView commitment validated_state "state_delta option" "epoch option"
  | Failed

fun leaf_and_state :: "ViewInner \<Rightarrow> (commitment \<times> validated_state) option" where
  "leaf_and_state (LeafView lc st d e) = Some (lc, st)"
| "leaf_and_state _ = None"

fun leaf_commitment :: "ViewInner \<Rightarrow> commitment option" where
  "leaf_commitment (LeafView lc st d e) = Some lc"
| "leaf_commitment _ = None"

fun view_state :: "ViewInner \<Rightarrow> validated_state option" where
  "view_state (LeafView lc st d e) = Some st"
| "view_state _ = None"

fun view_state_and_delta :: "ViewInner \<Rightarrow> validated_state option \<times> state_delta option" where
  "view_state_and_delta (LeafView lc st d e) = (Some st, d)"
| "view_state_and_delta _ = (None, None)"

fun view_payload_commitment :: "ViewInner \<Rightarrow> commitment option" where
  "view_payload_commitment (Da pc e) = Some pc"
| "view_payload_commitment _ = None"

fun view_epoch :: "ViewInner \<Rightarrow> epoch option option" where
  "view_epoch (Da pc e) = Some e"
| "view_epoch (LeafView lc st d e) = Some e"
| "view_epoch Failed = None"

datatype Terminator = Exclusive u64 | Inclusive u64

section \<open>Random beacon tables\<close>

definition DIFFICULTY_LEVEL :: nat where "DIFFICULTY_LEVEL = 10"
definition INITIAL_DRB_SEED_INPUT :: bytes where "INITIAL_DRB_SEED_INPUT = replicate 32 0"
definition INITIAL_DRB_RESULT :: drb_result where "INITIAL_DRB_RESULT = replicate 32 0"
definition KEEP_PREVIOUS_RESULT_COUNT :: u64 where "KEEP_PREVIOUS_RESULT_COUNT = 8"

text \<open>The digest of the \<open>sha2\<close> crate and the default hasher are parameters; a digest that is not 32 bytes long panics.\<close>

definition compute_drb_result :: "(bytes \<Rightarrow> bytes) \<Rightarrow> bytes \<Rightarrow> (drb_result, error) result" where
  "compute_drb_result sha256 drb_seed_input =
     (let hash = (sha256 ^^ DIFFICULTY_LEVEL) drb_seed_input
      in if length hash = 32 then Ok hash else Panic)"

definition drb_leader :: "(drb_result \<Rightarrow> nat \<Rightarrow> u64) \<Rightarrow> nat \<Rightarrow> StakeTableEntry list \<Rightarrow> drb_result \<Rightarrow> (pubkey, error) result" where
  "drb_leader hasher view_number tbl r =
     (if tbl = [] then Panic else Ok (stake_key (tbl ! (unat (hasher r view_number) mod length tbl))))"

record DrbSeedsAndResults =
  seeds :: "(epoch, bytes) btree"
  results :: "(epoch, drb_result) btree"

definition drb_new :: DrbSeedsAndResults where
  "drb_new = \<lparr>seeds = [(1, INITIAL_DRB_SEED_INPUT), (2, INITIAL_DRB_SEED_INPUT)],
              results = [(1, INITIAL_DRB_RESULT), (2, INITIAL_DRB_RESULT)]\<rparr>"

definition store_seed :: "epoch \<Rightarrow> bytes \<Rightarrow> DrbSeedsAndResults \<Rightarrow> DrbSeedsAndResults" where
  "store_seed e seed t = t\<lparr>seeds := bt_insert e seed (seeds t)\<rparr>"

definition drb_garbage_collect :: "epoch \<Rightarrow> DrbSeedsAndResults \<Rightarrow> DrbSeedsAndResults" where
  "drb_garbage_collect e t =
     (if e < KEEP_PREVIOUS_RESULT_COUNT then t
      else
        let retain_epoch = e - KEEP_PREVIOUS_RESULT_COUNT
        in t\<lparr>results := bt_split_off retain_epoch (results t), seeds := bt_split_off (retain_epoch + 1) (seeds t)\<rparr>)"

section \<open>The state\<close>

datatype HotShotAction =
  Vote | ViewSyncVote | Propose | DaPropose | DaVote | DaCert | VidDisperseAction | UpgradeVote | UpgradePropose

record HotShotActionViews =
  proposed :: u64
  voted :: u64
  da_proposed :: u64
  da_vote :: u64

definition actions_from_view :: "u64 \<Rightarrow> HotShotActionViews" where
  "actions_from_view v = \<lparr>proposed = v, voted = v, da_proposed = v, da_vote = v\<rparr>"

definition actions_default :: HotShotActionViews where
  "actions_default = \<lparr>proposed = 0, voted = 0, da_proposed = 0, da_vote = 0\<rparr>"

record LeafInfo =
  li_leaf :: Leaf2
  li_state :: validated_state
  li_delta :: "state_delta option"
  li_vid_share :: "VidDisperseShare option"

datatype HotShotError =
    InvalidState string
  | MissingLeaf commitment

record Consensus =
  validated_state_map :: "(u64, ViewInner) btree"
  vid_shares :: "(u64, pubkey \<rightharpoonup> VidDisperseShare Proposal) btree"
  saved_da_certs :: "u64 \<rightharpoonup> DaCertificate2"
  cur_view :: u64
  cur_epoch :: "epoch option"
  last_proposals :: "(u64, QuorumProposalWrapper Proposal) btree"
  last_decided_view :: u64
  locked_view :: u64
  saved_leaves :: "commitment \<rightharpoonup> Leaf2"
  last_actions :: HotShotActionViews
  saved_payloads :: "(u64, payload) btree"
  high_qc :: QuorumCertificate2
  next_epoch_high_qc :: "NextEpochQuorumCertificate2 option"
  epoch_height :: u64
  drb_seeds_and_results :: DrbSeedsAndResults

definition consensus_new ::
  "(u64, ViewInner) btree \<Rightarrow> (u64, pubkey \<rightharpoonup> VidDisperseShare Proposal) btree option \<Rightarrow> u64 \<Rightarrow> epoch option \<Rightarrow>
   u64 \<Rightarrow> u64 \<Rightarrow> u64 \<Rightarrow> (u64, QuorumProposalWrapper Proposal) btree \<Rightarrow> (commitment \<rightharpoonup> Leaf2) \<Rightarrow>
   (u64, payload) btree \<Rightarrow> QuorumCertificate2 \<Rightarrow> NextEpochQuorumCertificate2 option \<Rightarrow> u64 \<Rightarrow> Consensus" where
  "consensus_new state_map shares view e locked decided actioned proposals leaves payloads qc next_qc height =
     \<lparr>validated_state_map = state_map, vid_shares = (case shares of Some s \<Rightarrow> s | None \<Rightarrow> []),
      saved_da_certs = Map.empty, cur_view = view, cur_epoch = e, last_proposals = proposals,
      last_decided_view = decided, locked_view = locked, saved_leaves = leaves,
      last_actions = actions_from_view actioned, saved_payloads = payloads, high_qc = qc,
      next_epoch_high_qc = next_qc, epoch_height = height, drb_seeds_and_results = drb_new\<rparr>"

section \<open>Updates\<close>

definition update_view :: "u64 \<Rightarrow> Consensus \<Rightarrow> (Consensus, error) result" where
  "update_view v c =
     and_then (ensure (cur_view c < v) (Error Debug [''New view isn't newer than the current view.'']))
       (\<lambda>_. Ok (c\<lparr>cur_view := v\<rparr>))"

definition update_epoch :: "epoch \<Rightarrow> Consensus \<Rightarrow> (Consensus, error) result" where
  "update_epoch e c =
     and_then (ensure (case cur_epoch c of None \<Rightarrow> True | Some e' \<Rightarrow> e' < e)
       (Error Debug [''New epoch isn't newer than the current epoch.'']))
       (\<lambda>_. Ok (c\<lparr>cur_epoch := Some e\<rparr>))"

fun update_action :: "HotShotAction \<Rightarrow> u64 \<Rightarrow> Consensus \<Rightarrow> Consensus \<times> bool" where
  "update_action Vote v c =
     (if voted (last_actions c) < v then (c\<lparr>last_actions := (last_actions c)\<lparr>voted := v\<rparr>\<rparr>, True) else (c, False))"
| "update_action Propose v c =
     (if proposed (last_actions c) < v then (c\<lparr>last_actions := (last_actions c)\<lparr>proposed := v\<rparr>\<rparr>, True) else (c, False))"
| "update_action DaPropose v c =
     (if da_proposed (last_actions c) < v then (c\<lparr>last_actions := (last_actions c)\<lparr>da_proposed := v\<rparr>\<rparr>, True) else (c, False))"
| "update_action DaVote v c =
     (if da_vote (last_actions c) < v then (c\<lparr>last_actions := (last_actions c)\<lparr>da_vote := v\<rparr>\<rparr>, True) else (c, True))"
| "update_action _ v c = (c, True)"

definition reset_actions :: "Consensus \<Rightarrow> Consensus" where
  "reset_actions c = c\<lparr>last_actions := actions_default\<rparr>"

definition last_key :: "('k \<times> 'v) list \<Rightarrow> 'k option" where
  "last_key m = (if m = [] then None else Some (fst (last m)))"

definition update_proposed_view :: "QuorumProposalWrapper Proposal \<Rightarrow> Consensus \<Rightarrow> (Consensus, error) result" where
  "update_proposed_view p c =
     (let v = q2_view_number (qw_proposal (pr_data p)) in
      and_then (ensure ((case last_key (last_proposals c) of None \<Rightarrow> 0 | Some k \<Rightarrow> k) < v)
        (Error Debug [''New view isn't newer than the previously proposed view.'']))
        (\<lambda>_. Ok (c\<lparr>last_proposals := bt_insert v p (last_proposals c)\<rparr>)))"

definition update_last_decided_view :: "u64 \<Rightarrow> Consensus \<Rightarrow> (Consensus, error) result" where
  "update_last_decided_view v c =
     and_then (ensure (last_decided_view c < v)
       (Error Debug [''New view isn't newer than the previously decided view.'']))
       (\<lambda>_. Ok (c\<lparr>last_decided_view := v\<rparr>))"

definition update_locked_view :: "u64 \<Rightarrow> Consensus \<Rightarrow> (Consensus, error) result" where
  "update_locked_view v c =
     and_then (ensure (locked_view c < v)
       (Error Debug [''New view isn't newer than the previously locked view.'']))
       (\<lambda>_. Ok (c\<lparr>locked_view := v\<rparr>))"

definition update_validated_state_map :: "u64 \<Rightarrow> ViewInner \<Rightarrow> Consensus \<Rightarrow> (Consensus, error) result" where
  "update_validated_state_map v new_view c =
     and_then
       (case bt_get v (validated_state_map c) of
          Some (LeafView _ _ existing_delta _) \<Rightarrow>
            (case new_view of
               LeafView _ _ new_delta _ \<Rightarrow>
                 ensure (new_delta \<noteq> None \<or> existing_delta = None)
                   (Error Debug [''Skipping the state update to not override a `Leaf` view with `Some` state delta.''])
             | _ \<Rightarrow> Err (Error Unspecified
                 [''Skipping the state update to not override a `Leaf` view with a non-`Leaf` view.'']))
        | _ \<Rightarrow> Ok ())
       (\<lambda>_. Ok (c\<lparr>validated_state_map := bt_insert v new_view (validated_state_map c)\<rparr>))"

definition update_da_view :: "u64 \<Rightarrow> epoch option \<Rightarrow> commitment \<Rightarrow> Consensus \<Rightarrow> (Consensus, error) result" where
  "update_da_view v e pc c = update_validated_state_map v (Da pc e) c"

definition update_saved_leaves :: "crypto \<Rightarrow> Leaf2 \<Rightarrow> Consensus \<Rightarrow> Consensus" where
  "update_saved_leaves cr l c = c\<lparr>saved_leaves := (saved_leaves c)(commit_Leaf2 cr l \<mapsto> l)\<rparr>"

definition update_leaf :: "crypto \<Rightarrow> Leaf2 \<Rightarrow> validated_state \<Rightarrow> state_delta option \<Rightarrow> Consensus \<Rightarrow> (Consensus, error) result" where
  "update_leaf cr l st delta c =
     (let e = option_epoch_from_block_number (l2_with_epoch l) (l2_height l) (epoch_height c) in
      and_then (update_validated_state_map (l2_view_number l) (LeafView (commit_Leaf2 cr l) st delta e) c)
        (\<lambda>c'. Ok (update_saved_leaves cr l c')))"

definition update_saved_payloads :: "u64 \<Rightarrow> payload \<Rightarrow> Consensus \<Rightarrow> (Consensus, error) result" where
  "update_saved_payloads v p c =
     and_then (ensure (\<not> bt_contains v (saved_payloads c))
       (Error Unspecified [''Payload with the same view already exists.'']))
       (\<lambda>_. Ok (c\<lparr>saved_payloads := bt_insert v p (saved_payloads c)\<rparr>))"

definition update_high_qc :: "QuorumCertificate2 \<Rightarrow> Consensus \<Rightarrow> (Consensus, error) result" where
  "update_high_qc qc c =
     and_then (ensure (c_view_number (high_qc c) < c_view_number qc \<or> qc = high_qc c)
       (Error Debug [''High QC with an equal or higher view exists.'']))
       (\<lambda>_. Ok (c\<lparr>high_qc := qc\<rparr>))"

definition update_next_epoch_high_qc :: "NextEpochQuorumCertificate2 \<Rightarrow> Consensus \<Rightarrow> (Consensus, error) result" where
  "update_next_epoch_high_qc qc c =
     and_then (case next_epoch_high_qc c of
        Some old \<Rightarrow> ensure (c_view_number old < c_view_number qc \<or> qc = old)
          (Error Debug [''Next epoch high QC with an equal or higher view exists.''])
      | None \<Rightarrow> Ok ())
       (\<lambda>_. Ok (c\<lparr>next_epoch_high_qc := Some qc\<rparr>))"

definition update_vid_shares :: "u64 \<Rightarrow> VidDisperseShare Proposal \<Rightarrow> Consensus \<Rightarrow> Consensus" where
  "update_vid_shares v share c =
     (let inner = (case bt_get v (vid_shares c) of Some m \<Rightarrow> m | None \<Rightarrow> Map.empty)
      in c\<lparr>vid_shares := bt_insert v (inner(recipient_key (pr_data share) \<mapsto> share)) (vid_shares c)\<rparr>)"

definition update_saved_da_certs :: "u64 \<Rightarrow> DaCertificate2 \<Rightarrow> Consensus \<Rightarrow> Consensus" where
  "update_saved_da_certs v cert c = c\<lparr>saved_da_certs := (saved_da_certs c)(v \<mapsto> cert)\<rparr>"

section \<open>Lookups\<close>

definition state :: "u64 \<Rightarrow> Consensus \<Rightarrow> validated_state option" where
  "state v c = (case bt_get v (validated_state_map c) of Some view \<Rightarrow> view_state view | None \<Rightarrow> None)"

definition state_and_delta :: "u64 \<Rightarrow> Consensus \<Rightarrow> validated_state option \<times> state_delta option" where
  "state_and_delta v c =
     (case bt_get v (validated_state_map c) of Some view \<Rightarrow> view_state_and_delta view | None \<Rightarrow> (None, None))"

definition decided_state :: "Consensus \<Rightarrow> (validated_state, error) result" where
  "decided_state c = unwrap (fst (state_and_delta (last_decided_view c) c))"

definition decided_leaf :: "Consensus \<Rightarrow> (Leaf2, error) result" where
  "decided_leaf c =
     and_then (unwrap (bt_get (last_decided_view c) (validated_state_map c))) (\<lambda>view.
     and_then (unwrap (leaf_commitment view)) (\<lambda>lc.
     unwrap (saved_leaves c lc)))"

definition parent_leaf_info :: "Leaf2 \<Rightarrow> pubkey \<Rightarrow> Consensus \<Rightarrow> LeafInfo option" where
  "parent_leaf_info l public_key c =
     (let parent_view_number = c_view_number (l2_justify_qc l) in
      case saved_leaves c (leaf_commit (c_data (l2_justify_qc l))) of
        None \<Rightarrow> None
      | Some parent_leaf \<Rightarrow>
          (case state_and_delta parent_view_number c of
             (Some st, delta) \<Rightarrow>
               let parent_vid = Option.bind (bt_get parent_view_number (vid_shares c)) (\<lambda>m. map_option pr_data (m public_key))
               in Some \<lparr>li_leaf = parent_leaf, li_state = st, li_delta = delta, li_vid_share = parent_vid\<rparr>
           | (None, _) \<Rightarrow> None))"

section \<open>Ancestors of a leaf\<close>

text \<open>
  The visitor is a closure with state of its own: it is given that state and the leaf with its state
  and delta, and returns the new state and whether to go on.
\<close>

type_synonym 's visitor = "'s \<Rightarrow> Leaf2 \<Rightarrow> validated_state \<Rightarrow> state_delta option \<Rightarrow> 's \<times> bool"

partial_function (option) visit_loop ::
  "Consensus \<Rightarrow> Terminator \<Rightarrow> bool \<Rightarrow> 's visitor \<Rightarrow> 's \<Rightarrow> commitment \<Rightarrow> ('s \<times> (unit, HotShotError) result) option" where
  "visit_loop c terminator ok_when_finished f s next_leaf =
     (case saved_leaves c next_leaf of
        None \<Rightarrow> Some (s, Err (MissingLeaf next_leaf))
      | Some l \<Rightarrow>
          (case state_and_delta (l2_view_number l) c of
             (None, _) \<Rightarrow> Some (s, Err (InvalidState ''View state does not exist in state map''))
           | (Some st, delta) \<Rightarrow>
               if terminator = Exclusive (l2_view_number l) then
                 Some (s, if ok_when_finished then Ok () else Err (MissingLeaf next_leaf))
               else
                 (case f s l st delta of
                    (s', go_on) \<Rightarrow>
                      if \<not> go_on then Some (s', Ok ())
                      else if terminator = Inclusive (l2_view_number l) then
                        Some (s', if ok_when_finished then Ok () else Err (MissingLeaf (l2_parent_commitment l)))
                      else visit_loop c terminator ok_when_finished f s' (l2_parent_commitment l))))"

definition visit_leaf_ancestors ::
  "u64 \<Rightarrow> Terminator \<Rightarrow> bool \<Rightarrow> 's visitor \<Rightarrow> 's \<Rightarrow> Consensus \<Rightarrow> ('s \<times> (unit, HotShotError) result) option" where
  "visit_leaf_ancestors start_from terminator ok_when_finished f s c =
     (case bt_get start_from (validated_state_map c) of
        Some view \<Rightarrow>
          (case leaf_commitment view of
             Some next_leaf \<Rightarrow> visit_loop c terminator ok_when_finished f s next_leaf
           | None \<Rightarrow> Some (s, Err (InvalidState ''Visited failed view leaf. Expected successful leaf'')))
      | None \<Rightarrow> Some (s, Err (InvalidState ''View leaf does not exist in state map '')))"

section \<open>Garbage collection\<close>

definition saturating_sub :: "u64 \<Rightarrow> u64 \<Rightarrow> u64" where
  "saturating_sub a b = (if a < b then 0 else a - b)"

text \<open>The check of the oldest entry only logs; an empty state map panics.\<close>

definition collect_garbage :: "u64 \<Rightarrow> u64 \<Rightarrow> Consensus \<Rightarrow> (Consensus, error) result" where
  "collect_garbage old_anchor_view new_anchor_view c =
     (if new_anchor_view \<le> old_anchor_view then Ok c
      else
        let gc_view = saturating_sub new_anchor_view 1 in
        if validated_state_map c = [] then Panic
        else
          let stale = List.map_filter (\<lambda>(_, view). leaf_commitment view) (bt_range old_anchor_view gc_view (validated_state_map c))
          in Ok (c\<lparr>saved_da_certs := (\<lambda>v. if old_anchor_view \<le> v then saved_da_certs c v else None),
                   saved_leaves := fold (\<lambda>lc m. m(lc := None)) stale (saved_leaves c),
                   validated_state_map := bt_split_off gc_view (validated_state_map c),
                   saved_payloads := bt_split_off gc_view (saved_payloads c),
                   vid_shares := bt_split_off gc_view (vid_shares c),
                   last_proposals := bt_split_off gc_view (last_proposals c)\<rparr>))"

section \<open>Dispersal of a saved payload\<close>

definition calculate_and_update_vid ::
  "crypto \<Rightarrow> vid_scheme \<Rightarrow> membership \<Rightarrow> nat \<Rightarrow> u64 \<Rightarrow> epoch option \<Rightarrow> Consensus \<Rightarrow> (Consensus option, error) result" where
  "calculate_and_update_vid cr vid m private_key view te c =
     (case bt_get view (saved_payloads c) of
        None \<Rightarrow> Ok None
      | Some p \<Rightarrow>
          (case Option.bind (bt_get view (validated_state_map c)) view_epoch of
             None \<Rightarrow> Ok None
           | Some e \<Rightarrow>
               (case calculate_vid_disperse vid (encode p) m view te e of
                  Panic \<Rightarrow> Panic
                | Err _ \<Rightarrow> Ok None
                | Ok d \<Rightarrow>
                    Ok (Some (fold (\<lambda>share c'. case share_to_proposal cr private_key share of
                          Some prop \<Rightarrow> update_vid_shares view prop c'
                        | None \<Rightarrow> c') (from_vid_disperse d) c)))))"

section \<open>End of an epoch\<close>

definition is_leaf_for_last_block :: "commitment \<Rightarrow> Consensus \<Rightarrow> bool" where
  "is_leaf_for_last_block lc c =
     (case saved_leaves c lc of None \<Rightarrow> False | Some l \<Rightarrow> is_last_block_in_epoch (l2_height l) (epoch_height c))"

definition is_high_qc_for_last_block :: "Consensus \<Rightarrow> bool" where
  "is_high_qc_for_last_block c =
     (case saved_leaves c (leaf_commit (c_data (high_qc c))) of
        None \<Rightarrow> False | Some l \<Rightarrow> is_last_block_in_epoch (l2_height l) (epoch_height c))"

text \<open>The visitor keeps the view visited last and whether the chain is still unbroken.\<close>

definition extended_visitor :: "u64 \<Rightarrow> u64 \<Rightarrow> (u64 \<times> bool) visitor" where
  "extended_visitor leaf_view leaf_block_number s l st delta =
     (case s of (last_visited, extended) \<Rightarrow>
        if l2_view_number l = leaf_view then (s, True)
        else if last_visited - 1 \<noteq> l2_view_number l then ((last_visited, False), False)
        else if leaf_block_number \<noteq> l2_height l then ((last_visited, False), False)
        else ((l2_view_number l, extended), True))"

definition is_leaf_extended :: "commitment \<Rightarrow> Consensus \<Rightarrow> bool option" where
  "is_leaf_extended lc c =
     (if \<not> is_leaf_for_last_block lc c then Some False
      else
        (case saved_leaves c lc of
           None \<Rightarrow> Some False
         | Some l \<Rightarrow>
             map_option (\<lambda>((_, extended), r). extended \<and> is_ok r)
               (visit_leaf_ancestors (l2_view_number l) (Inclusive (l2_view_number l - 2)) True
                  (extended_visitor (l2_view_number l) (l2_height l)) (l2_view_number l, True) c)))"

definition is_qc_forming_eqc :: "QuorumCertificate2 \<Rightarrow> Consensus \<Rightarrow> bool option" where
  "is_qc_forming_eqc qc c =
     (let lc = leaf_commit (c_data qc)
      in map_option (\<lambda>ext. is_leaf_for_last_block lc c \<and> \<not> ext) (is_leaf_extended lc c))"

definition is_high_qc_forming_eqc :: "Consensus \<Rightarrow> bool option" where
  "is_high_qc_forming_eqc c = is_qc_forming_eqc (high_qc c) c"

definition is_leaf_forming_eqc :: "commitment \<Rightarrow> Consensus \<Rightarrow> bool option" where
  "is_leaf_forming_eqc lc c =
     (if \<not> is_leaf_for_last_block lc c then Some False else map_option Not (is_leaf_extended lc c))"

text \<open>\<open>epoch_from_block_number\<close> and the subtraction are on words; the second operand is only evaluated when the first holds.\<close>

definition check_eqc :: "crypto \<Rightarrow> Leaf2 \<Rightarrow> Leaf2 \<Rightarrow> Consensus \<Rightarrow> bool option" where
  "check_eqc cr proposed_leaf parent_leaf c =
     (if l2_view_number parent_leaf = 0 then Some True
      else
        let new_epoch = epoch_from_block_number (l2_height proposed_leaf) (epoch_height c);
            old_epoch = epoch_from_block_number (l2_height parent_leaf) (epoch_height c)
        in if new_epoch - 1 = old_epoch then is_leaf_extended (commit_Leaf2 cr parent_leaf) c else Some False)"

section \<open>Lemmas on single operations\<close>

text \<open>When an update succeeds, and what it leaves: the form in which the properties use the updates.\<close>

lemma update_eq_Ok [result_simps]:
  "update_view v c = Ok c' \<longleftrightarrow> cur_view c < v \<and> c' = c\<lparr>cur_view := v\<rparr>"
  "update_last_decided_view v c = Ok c' \<longleftrightarrow> last_decided_view c < v \<and> c' = c\<lparr>last_decided_view := v\<rparr>"
  "update_locked_view v c = Ok c' \<longleftrightarrow> locked_view c < v \<and> c' = c\<lparr>locked_view := v\<rparr>"
  "update_high_qc qc c = Ok c' \<longleftrightarrow>
     (c_view_number (high_qc c) < c_view_number qc \<or> qc = high_qc c) \<and> c' = c\<lparr>high_qc := qc\<rparr>"
  "update_saved_payloads v p c = Ok c' \<longleftrightarrow>
     \<not> bt_contains v (saved_payloads c) \<and> c' = c\<lparr>saved_payloads := bt_insert v p (saved_payloads c)\<rparr>"
  "update_epoch e c = Ok c' \<longleftrightarrow>
     (case cur_epoch c of None \<Rightarrow> True | Some e' \<Rightarrow> e' < e) \<and> c' = c\<lparr>cur_epoch := Some e\<rparr>"
  by (auto simp: update_view_def update_last_decided_view_def update_locked_view_def update_high_qc_def
      update_saved_payloads_def update_epoch_def result_simps)

text \<open>How much a view holds: nothing about a leaf, a leaf without its delta, a leaf with its delta.\<close>

fun view_rank :: "ViewInner \<Rightarrow> nat" where
  "view_rank (LeafView lc st d e) = (if d = None then 1 else 2)"
| "view_rank _ = 0"

definition rank_at :: "u64 \<Rightarrow> Consensus \<Rightarrow> nat" where
  "rank_at v c = (case bt_get v (validated_state_map c) of None \<Rightarrow> 0 | Some view \<Rightarrow> view_rank view)"

lemma update_validated_state_map_eq_Ok:
  "update_validated_state_map v new c = Ok c' \<longleftrightarrow>
     rank_at v c \<le> view_rank new \<and> c' = c\<lparr>validated_state_map := bt_insert v new (validated_state_map c)\<rparr>"
  by (cases "bt_get v (validated_state_map c)"; cases new; cases "the (bt_get v (validated_state_map c))")
    (auto simp: update_validated_state_map_def rank_at_def result_simps)

lemma update_leaf_eq_Ok:
  "update_leaf cr l st d c = Ok c' \<longleftrightarrow>
     rank_at (l2_view_number l) c \<le> (if d = None then 1 else 2) \<and>
     c' = c\<lparr>validated_state_map := bt_insert (l2_view_number l)
              (LeafView (commit_Leaf2 cr l) st d (l2_epoch l (epoch_height c))) (validated_state_map c),
            saved_leaves := (saved_leaves c)(commit_Leaf2 cr l \<mapsto> l)\<rparr>"
  by (auto simp: update_leaf_def Let_def result_simps update_validated_state_map_eq_Ok update_saved_leaves_def
      l2_epoch_def l2_height_def)

end
