(* ===== verification/Messages.thy ===== *)
theory Messages
  imports ConsensusState
begin

text \<open>
  What nodes and tasks say to each other: the network messages of \<open>crates/types/src/message.rs\<close>, the events
  between the tasks of a node, \<open>crates/task-impls/src/events.rs\<close>, and the events a node reports to the
  application, \<open>crates/types/src/event.rs\<close>, each with the view and epoch it belongs to.  Constructors that
  would clash with the types they carry have the suffix \<open>Msg\<close> or \<open>Event\<close>.
\<close>

section \<open>Requests and bundles\<close>

type_synonym ViewSyncPreCommitVote = "ViewSyncPreCommitData SimpleVote"
type_synonym ViewSyncPreCommitVote2 = "ViewSyncPreCommitData2 SimpleVote"
type_synonym ViewSyncCommitVote = "ViewSyncCommitData SimpleVote"
type_synonym ViewSyncCommitVote2 = "ViewSyncCommitData2 SimpleVote"
type_synonym ViewSyncFinalizeVote = "ViewSyncFinalizeData SimpleVote"
type_synonym ViewSyncFinalizeVote2 = "ViewSyncFinalizeData2 SimpleVote"

datatype ProposalRequestPayload = ProposalRequestPayload (request_view: u64) (request_key: pubkey)

datatype RequestKind = VidRequest u64 pubkey | DaProposalRequest u64 | ProposalRequest u64

record DataRequest =
  dr_request :: RequestKind
  dr_view :: u64
  dr_signature :: sig

record PackedBundle =
  pb_encoded_transactions :: bytes
  pb_metadata :: metadata
  pb_view_number :: u64
  pb_epoch_number :: "epoch option"
  pb_sequencing_fees :: "BuilderFee list"
  pb_auction_result :: "nat option"

section \<open>Network messages\<close>

datatype GeneralConsensusMessage =
    ProposalMsg "QuorumProposal Proposal"
  | VoteMsg QuorumVote
  | ViewSyncPreCommitVoteMsg ViewSyncPreCommitVote
  | ViewSyncCommitVoteMsg ViewSyncCommitVote
  | ViewSyncFinalizeVoteMsg ViewSyncFinalizeVote
  | ViewSyncPreCommitCertificateMsg ViewSyncPreCommitCertificate
  | ViewSyncCommitCertificateMsg ViewSyncCommitCertificate
  | ViewSyncFinalizeCertificateMsg ViewSyncFinalizeCertificate
  | TimeoutVoteMsg TimeoutVote
  | UpgradeProposalMsg "UpgradeProposal Proposal"
  | UpgradeVoteMsg UpgradeVote
  | ProposalRequestedMsg ProposalRequestPayload sig
  | ProposalResponseMsg "QuorumProposal Proposal"
  | Proposal2Msg "QuorumProposal2 Proposal"
  | Vote2Msg QuorumVote2
  | ProposalResponse2Msg "QuorumProposal2 Proposal"
  | HighQcMsg QuorumCertificate2
  | ViewSyncPreCommitVote2Msg ViewSyncPreCommitVote2
  | ViewSyncCommitVote2Msg ViewSyncCommitVote2
  | ViewSyncFinalizeVote2Msg ViewSyncFinalizeVote2
  | ViewSyncPreCommitCertificate2Msg ViewSyncPreCommitCertificate2
  | ViewSyncCommitCertificate2Msg ViewSyncCommitCertificate2
  | ViewSyncFinalizeCertificate2Msg ViewSyncFinalizeCertificate2
  | TimeoutVote2Msg TimeoutVote2

datatype DaConsensusMessage =
    DaProposalMsg "DaProposal Proposal"
  | DaVoteMsg DaVote
  | DaCertificateMsg DaCertificate
  | VidDisperseMsg "ADVZDisperseShare Proposal"
  | DaProposal2Msg "DaProposal2 Proposal"
  | DaVote2Msg DaVote2
  | DaCertificate2Msg DaCertificate2
  | VidDisperseMsg2 "VidDisperseShare2 Proposal"

datatype SequencingMessage = General GeneralConsensusMessage | DaMsg DaConsensusMessage

datatype ResponseMessage = Found SequencingMessage | NotFound | Denied

datatype DataMessage = SubmitTransaction transaction u64 | RequestData DataRequest | DataResponse ResponseMessage

datatype MessageKind = ConsensusMsg SequencingMessage | DataMsg DataMessage | ExternalMsg bytes

record Message =
  msg_sender :: pubkey
  msg_kind :: MessageKind

fun general_view :: "GeneralConsensusMessage \<Rightarrow> u64" where
  "general_view (ProposalMsg p) = qp_view_number (pr_data p)"
| "general_view (Proposal2Msg p) = q2_view_number (pr_data p)"
| "general_view (ProposalRequestedMsg r s) = request_view r"
| "general_view (ProposalResponseMsg p) = qp_view_number (pr_data p)"
| "general_view (ProposalResponse2Msg p) = q2_view_number (pr_data p)"
| "general_view (VoteMsg v) = v_view_number v"
| "general_view (Vote2Msg v) = v_view_number v"
| "general_view (TimeoutVoteMsg v) = v_view_number v"
| "general_view (ViewSyncPreCommitVoteMsg v) = v_view_number v"
| "general_view (ViewSyncCommitVoteMsg v) = v_view_number v"
| "general_view (ViewSyncFinalizeVoteMsg v) = v_view_number v"
| "general_view (ViewSyncPreCommitCertificateMsg c) = c_view_number c"
| "general_view (ViewSyncCommitCertificateMsg c) = c_view_number c"
| "general_view (ViewSyncFinalizeCertificateMsg c) = c_view_number c"
| "general_view (TimeoutVote2Msg v) = v_view_number v"
| "general_view (ViewSyncPreCommitVote2Msg v) = v_view_number v"
| "general_view (ViewSyncCommitVote2Msg v) = v_view_number v"
| "general_view (ViewSyncFinalizeVote2Msg v) = v_view_number v"
| "general_view (ViewSyncPreCommitCertificate2Msg c) = c_view_number c"
| "general_view (ViewSyncCommitCertificate2Msg c) = c_view_number c"
| "general_view (ViewSyncFinalizeCertificate2Msg c) = c_view_number c"
| "general_view (UpgradeProposalMsg p) = up_view_number (pr_data p)"
| "general_view (UpgradeVoteMsg v) = v_view_number v"
| "general_view (HighQcMsg qc) = c_view_number qc"

fun da_view :: "DaConsensusMessage \<Rightarrow> u64" where
  "da_view (DaProposalMsg p) = da_view_number (pr_data p)"
| "da_view (DaVoteMsg v) = v_view_number v"
| "da_view (DaCertificateMsg c) = c_view_number c"
| "da_view (VidDisperseMsg d) = as_view_number (pr_data d)"
| "da_view (DaProposal2Msg p) = da2_view_number (pr_data p)"
| "da_view (DaVote2Msg v) = v_view_number v"
| "da_view (DaCertificate2Msg c) = c_view_number c"
| "da_view (VidDisperseMsg2 d) = s2_view_number (pr_data d)"

fun sequencing_view :: "SequencingMessage \<Rightarrow> u64" where
  "sequencing_view (General m) = general_view m"
| "sequencing_view (DaMsg m) = da_view m"

fun general_epoch :: "GeneralConsensusMessage \<Rightarrow> epoch option" where
  "general_epoch (Proposal2Msg p) = q2_epoch (pr_data p)"
| "general_epoch (ProposalResponse2Msg p) = q2_epoch (pr_data p)"
| "general_epoch (Vote2Msg v) = qd_epoch (v_data v)"
| "general_epoch (TimeoutVote2Msg v) = timeout_epoch (v_data v)"
| "general_epoch (ViewSyncPreCommitVote2Msg v) = epoch_ViewSyncPreCommitData2 (v_data v)"
| "general_epoch (ViewSyncCommitVote2Msg v) = epoch_ViewSyncCommitData2 (v_data v)"
| "general_epoch (ViewSyncFinalizeVote2Msg v) = epoch_ViewSyncFinalizeData2 (v_data v)"
| "general_epoch (ViewSyncPreCommitCertificate2Msg c) = epoch_ViewSyncPreCommitData2 (c_data c)"
| "general_epoch (ViewSyncCommitCertificate2Msg c) = epoch_ViewSyncCommitData2 (c_data c)"
| "general_epoch (ViewSyncFinalizeCertificate2Msg c) = epoch_ViewSyncFinalizeData2 (c_data c)"
| "general_epoch (HighQcMsg qc) = qd_epoch (c_data qc)"
| "general_epoch _ = None"

fun da_message_epoch :: "DaConsensusMessage \<Rightarrow> epoch option" where
  "da_message_epoch (VidDisperseMsg2 d) = s2_epoch (pr_data d)"
| "da_message_epoch (DaProposal2Msg p) = da2_epoch (pr_data p)"
| "da_message_epoch (DaVote2Msg v) = da_epoch (v_data v)"
| "da_message_epoch (DaCertificate2Msg c) = da_epoch (c_data c)"
| "da_message_epoch _ = None"

fun sequencing_epoch :: "SequencingMessage \<Rightarrow> epoch option" where
  "sequencing_epoch (General m) = general_epoch m"
| "sequencing_epoch (DaMsg m) = da_message_epoch m"

fun kind_view :: "MessageKind \<Rightarrow> u64" where
  "kind_view (ConsensusMsg m) = sequencing_view m"
| "kind_view (DataMsg (SubmitTransaction t v)) = v"
| "kind_view (DataMsg (RequestData r)) = dr_view r"
| "kind_view (DataMsg (DataResponse (Found m))) = sequencing_view m"
| "kind_view (DataMsg (DataResponse NotFound)) = 1"
| "kind_view (DataMsg (DataResponse Denied)) = 1"
| "kind_view (ExternalMsg b) = 1"

fun kind_epoch :: "MessageKind \<Rightarrow> epoch option" where
  "kind_epoch (ConsensusMsg m) = sequencing_epoch m"
| "kind_epoch (DataMsg (DataResponse (Found m))) = sequencing_epoch m"
| "kind_epoch (DataMsg d) = None"
| "kind_epoch (ExternalMsg b) = None"

definition message_view :: "Message \<Rightarrow> u64" where
  "message_view m = kind_view (msg_kind m)"

section \<open>Events between tasks\<close>

datatype ViewSyncPhase = PhaseNone | PreCommit | Commit | Finalize

datatype (plugins only: code) HotShotEvent =
    Shutdown
  | QuorumProposalRecv "QuorumProposalWrapper Proposal" pubkey
  | QuorumVoteRecv QuorumVote2
  | TimeoutVoteRecv TimeoutVote2
  | TimeoutVoteSend TimeoutVote2
  | DaProposalRecv "DaProposal2 Proposal" pubkey
  | DaProposalValidated "DaProposal2 Proposal" pubkey
  | DaVoteRecv DaVote2
  | DaCertificateRecv DaCertificate2
  | DaCertificateValidated DaCertificate2
  | QuorumProposalSend "QuorumProposalWrapper Proposal" pubkey
  | QuorumVoteSend QuorumVote2
  | ExtendedQuorumVoteSend QuorumVote2
  | QuorumProposalValidated "QuorumProposalWrapper Proposal" Leaf2
  | QuorumProposalRequestSend ProposalRequestPayload sig
  | QuorumProposalRequestRecv ProposalRequestPayload sig
  | QuorumProposalResponseSend pubkey "QuorumProposalWrapper Proposal"
  | QuorumProposalResponseRecv "QuorumProposalWrapper Proposal"
  | DaProposalSend "DaProposal2 Proposal" pubkey
  | DaVoteSend DaVote2
  | QcFormed "QuorumCertificate + TimeoutCertificate"
  | Qc2Formed "QuorumCertificate2 + TimeoutCertificate2"
  | NextEpochQc2Formed "NextEpochQuorumCertificate2 + TimeoutCertificate"
  | DacSend DaCertificate2 pubkey
  | ViewChange u64 "epoch option"
  | ViewSyncTimeout u64 u64 ViewSyncPhase
  | ViewSyncPreCommitVoteRecv ViewSyncPreCommitVote2
  | ViewSyncCommitVoteRecv ViewSyncCommitVote2
  | ViewSyncFinalizeVoteRecv ViewSyncFinalizeVote2
  | ViewSyncPreCommitVoteSend ViewSyncPreCommitVote2
  | ViewSyncCommitVoteSend ViewSyncCommitVote2
  | ViewSyncFinalizeVoteSend ViewSyncFinalizeVote2
  | ViewSyncPreCommitCertificateRecv ViewSyncPreCommitCertificate2
  | ViewSyncCommitCertificateRecv ViewSyncCommitCertificate2
  | ViewSyncFinalizeCertificateRecv ViewSyncFinalizeCertificate2
  | ViewSyncPreCommitCertificateSend ViewSyncPreCommitCertificate2 pubkey
  | ViewSyncCommitCertificateSend ViewSyncCommitCertificate2 pubkey
  | ViewSyncFinalizeCertificateSend ViewSyncFinalizeCertificate2 pubkey
  | ViewSyncTrigger u64
  | TimeoutEvent u64 "epoch option"
  | TransactionsRecv "transaction list"
  | TransactionSend transaction pubkey
  | SendPayloadCommitmentAndMetadata commitment commitment metadata u64 "BuilderFee list" "nat option"
  | BlockRecv PackedBundle
  | VidDisperseSend "VidDisperse Proposal" pubkey
  | VidShareRecv pubkey "VidDisperseShare Proposal"
  | VidShareValidated "VidDisperseShare Proposal"
  | UpgradeProposalRecv "UpgradeProposal Proposal" pubkey
  | UpgradeProposalSend "UpgradeProposal Proposal" pubkey
  | UpgradeVoteRecv UpgradeVote
  | UpgradeVoteSend UpgradeVote
  | UpgradeCertificateFormed UpgradeCertificate
  | QuorumProposalPreliminarilyValidated "QuorumProposalWrapper Proposal"
  | VidRequestSend DataRequest pubkey pubkey
  | VidRequestRecv DataRequest pubkey
  | VidResponseSend pubkey pubkey "VidDisperseShare Proposal"
  | VidResponseRecv pubkey "VidDisperseShare Proposal"
  | HighQcRecv QuorumCertificate2 pubkey
  | HighQcSend QuorumCertificate2 pubkey pubkey

primrec event_view :: "HotShotEvent \<Rightarrow> u64 option" where
  "event_view Shutdown = None"
| "event_view (QuorumProposalRecv a b) = Some (q2_view_number (qw_proposal (pr_data a)))"
| "event_view (QuorumVoteRecv a) = Some (v_view_number a)"
| "event_view (TimeoutVoteRecv a) = Some (v_view_number a)"
| "event_view (TimeoutVoteSend a) = Some (v_view_number a)"
| "event_view (DaProposalRecv a b) = Some (da2_view_number (pr_data a))"
| "event_view (DaProposalValidated a b) = Some (da2_view_number (pr_data a))"
| "event_view (DaVoteRecv a) = Some (v_view_number a)"
| "event_view (DaCertificateRecv a) = Some (c_view_number a)"
| "event_view (DaCertificateValidated a) = Some (c_view_number a)"
| "event_view (QuorumProposalSend a b) = Some (q2_view_number (qw_proposal (pr_data a)))"
| "event_view (QuorumVoteSend a) = Some (v_view_number a)"
| "event_view (ExtendedQuorumVoteSend a) = Some (v_view_number a)"
| "event_view (QuorumProposalValidated a b) = Some (q2_view_number (qw_proposal (pr_data a)))"
| "event_view (QuorumProposalRequestSend a b) = Some (request_view a)"
| "event_view (QuorumProposalRequestRecv a b) = Some (request_view a)"
| "event_view (QuorumProposalResponseSend a b) = Some (q2_view_number (qw_proposal (pr_data b)))"
| "event_view (QuorumProposalResponseRecv a) = Some (q2_view_number (qw_proposal (pr_data a)))"
| "event_view (DaProposalSend a b) = Some (da2_view_number (pr_data a))"
| "event_view (DaVoteSend a) = Some (v_view_number a)"
| "event_view (QcFormed a) = Some (case a of Inl qc \<Rightarrow> c_view_number qc | Inr tc \<Rightarrow> c_view_number tc)"
| "event_view (Qc2Formed a) = Some (case a of Inl qc \<Rightarrow> c_view_number qc | Inr tc \<Rightarrow> c_view_number tc)"
| "event_view (NextEpochQc2Formed a) = Some (case a of Inl qc \<Rightarrow> c_view_number qc | Inr tc \<Rightarrow> c_view_number tc)"
| "event_view (DacSend a b) = Some (c_view_number a)"
| "event_view (ViewChange a b) = Some a"
| "event_view (ViewSyncTimeout a b c) = Some a"
| "event_view (ViewSyncPreCommitVoteRecv a) = Some (v_view_number a)"
| "event_view (ViewSyncCommitVoteRecv a) = Some (v_view_number a)"
| "event_view (ViewSyncFinalizeVoteRecv a) = Some (v_view_number a)"
| "event_view (ViewSyncPreCommitVoteSend a) = Some (v_view_number a)"
| "event_view (ViewSyncCommitVoteSend a) = Some (v_view_number a)"
| "event_view (ViewSyncFinalizeVoteSend a) = Some (v_view_number a)"
| "event_view (ViewSyncPreCommitCertificateRecv a) = Some (c_view_number a)"
| "event_view (ViewSyncCommitCertificateRecv a) = Some (c_view_number a)"
| "event_view (ViewSyncFinalizeCertificateRecv a) = Some (c_view_number a)"
| "event_view (ViewSyncPreCommitCertificateSend a b) = Some (c_view_number a)"
| "event_view (ViewSyncCommitCertificateSend a b) = Some (c_view_number a)"
| "event_view (ViewSyncFinalizeCertificateSend a b) = Some (c_view_number a)"
| "event_view (ViewSyncTrigger a) = Some a"
| "event_view (TimeoutEvent a b) = Some a"
| "event_view (TransactionsRecv a) = None"
| "event_view (TransactionSend a b) = None"
| "event_view (SendPayloadCommitmentAndMetadata a b c d e f) = Some d"
| "event_view (BlockRecv a) = Some (pb_view_number a)"
| "event_view (VidDisperseSend a b) = Some (ad_view_number (as_advz (pr_data a)))"
| "event_view (VidShareRecv a b) = Some (share_view_number (pr_data b))"
| "event_view (VidShareValidated a) = Some (share_view_number (pr_data a))"
| "event_view (UpgradeProposalRecv a b) = Some (up_view_number (pr_data a))"
| "event_view (UpgradeProposalSend a b) = Some (up_view_number (pr_data a))"
| "event_view (UpgradeVoteRecv a) = Some (v_view_number a)"
| "event_view (UpgradeVoteSend a) = Some (v_view_number a)"
| "event_view (UpgradeCertificateFormed a) = Some (c_view_number a)"
| "event_view (QuorumProposalPreliminarilyValidated a) = Some (q2_view_number (qw_proposal (pr_data a)))"
| "event_view (VidRequestSend a b c) = Some (dr_view a)"
| "event_view (VidRequestRecv a b) = Some (dr_view a)"
| "event_view (VidResponseSend a b c) = Some (share_view_number (pr_data c))"
| "event_view (VidResponseRecv a b) = Some (share_view_number (pr_data b))"
| "event_view (HighQcRecv a b) = Some (c_view_number a)"
| "event_view (HighQcSend a b c) = Some (c_view_number a)"

section \<open>Events for the application\<close>

datatype EventType =
    ErrorEvent HotShotError
  | Decide (leaf_chain_of: "LeafInfo list") (decide_qc: QuorumCertificate2) (block_size: "u64 option")
  | ReplicaViewTimeout u64
  | ViewFinished u64
  | ViewTimeout u64
  | Transactions "transaction list"
  | DaProposalEvent "DaProposal2 Proposal" pubkey
  | QuorumProposalEvent "QuorumProposalWrapper Proposal" pubkey
  | UpgradeProposalEvent "UpgradeProposal Proposal" pubkey
  | ExternalMessageReceived pubkey bytes

datatype Event = Event (event_view_number: u64) (event_type: EventType)

end
