(* ===== verification/ConsensusInv.thy ===== *)
theory ConsensusInv
  imports ConsensusState
begin

text \<open>
  Invariants of the consensus state over arbitrary sequences of its updates: the maps stay ordered,
  every saved leaf is filed under its commitment, and every leaf view has its leaf; views, locks and
  certificates only move forward; no update makes a view poorer; an action is granted once per view.
  The walk over ancestors ends, and garbage collection keeps what the decided view needs.
\<close>

section \<open>Operations as steps\<close>

text \<open>The operations of the state, and the write of its one field that tasks assign directly.\<close>

datatype cons_op =
    OpView u64
  | OpEpoch epoch
  | OpAction HotShotAction u64
  | OpProposed "QuorumProposalWrapper Proposal"
  | OpDecided u64
  | OpLocked u64
  | OpDa u64 "epoch option" commitment
  | OpLeaf Leaf2 validated_state "state_delta option"
  | OpPayload u64 payload
  | OpHighQc QuorumCertificate2
  | OpNextHighQc NextEpochQuorumCertificate2
  | OpShare u64 "VidDisperseShare Proposal"
  | OpDaCert u64 DaCertificate2
  | OpGc u64 u64
  | OpDrb DrbSeedsAndResults

fun cons_step :: "crypto \<Rightarrow> cons_op \<Rightarrow> Consensus \<Rightarrow> (Consensus, error) result" where
  "cons_step cr (OpView v) c = update_view v c"
| "cons_step cr (OpEpoch e) c = update_epoch e c"
| "cons_step cr (OpAction a v) c = Ok (fst (update_action a v c))"
| "cons_step cr (OpProposed p) c = update_proposed_view p c"
| "cons_step cr (OpDecided v) c = update_last_decided_view v c"
| "cons_step cr (OpLocked v) c = update_locked_view v c"
| "cons_step cr (OpDa v e pc) c = update_da_view v e pc c"
| "cons_step cr (OpLeaf l st d) c = update_leaf cr l st d c"
| "cons_step cr (OpPayload v p) c = update_saved_payloads v p c"
| "cons_step cr (OpHighQc qc) c = update_high_qc qc c"
| "cons_step cr (OpNextHighQc qc) c = update_next_epoch_high_qc qc c"
| "cons_step cr (OpShare v s) c = Ok (update_vid_shares v s c)"
| "cons_step cr (OpDaCert v cert) c = Ok (update_saved_da_certs v cert c)"
| "cons_step cr (OpGc a b) c = collect_garbage a b c"
| "cons_step cr (OpDrb d) c = Ok (c\<lparr>drb_seeds_and_results := d\<rparr>)"

text \<open>The callers log an error and go on with the state as it was.\<close>

definition cons_apply :: "crypto \<Rightarrow> cons_op \<Rightarrow> Consensus \<Rightarrow> Consensus option" where
  "cons_apply cr a c = (case cons_step cr a c of Ok c' \<Rightarrow> Some c' | Err _ \<Rightarrow> Some c | Panic \<Rightarrow> None)"

lemma cons_apply_cases:
  assumes "cons_apply cr a c = Some c'"
  obtains "c' = c" | "cons_step cr a c = Ok c'"
  using assms by (auto simp: cons_apply_def split: result.splits)

section \<open>Well-formed states\<close>

definition maps_ok :: "Consensus \<Rightarrow> bool" where
  "maps_ok c \<longleftrightarrow> bt_ok (validated_state_map c) \<and> bt_ok (vid_shares c) \<and> bt_ok (last_proposals c) \<and> bt_ok (saved_payloads c)"

definition leaves_ok :: "crypto \<Rightarrow> Consensus \<Rightarrow> bool" where
  "leaves_ok cr c \<longleftrightarrow> (\<forall>cm l. saved_leaves c cm = Some l \<longrightarrow> commit_Leaf2 cr l = cm)"

definition views_ok :: "Consensus \<Rightarrow> bool" where
  "views_ok c \<longleftrightarrow>
     (\<forall>v lc st d e. bt_get v (validated_state_map c) = Some (LeafView lc st d e) \<longrightarrow>
        (\<exists>l. saved_leaves c lc = Some l \<and> l2_view_number l = v))"

definition cons_inv :: "crypto \<Rightarrow> Consensus \<Rightarrow> bool" where
  "cons_inv cr c \<longleftrightarrow> maps_ok c \<and> leaves_ok cr c \<and> views_ok c"

lemma views_okD:
  "views_ok c \<Longrightarrow> bt_get v (validated_state_map c) = Some (LeafView lc st d e) \<Longrightarrow>
   \<exists>l. saved_leaves c lc = Some l \<and> l2_view_number l = v"
  unfolding views_ok_def by blast

text \<open>Updates that touch none of the maps of the invariant.\<close>

lemma cons_inv_frame [simp]:
  "cons_inv cr (c\<lparr>cur_view := v\<rparr>) = cons_inv cr c"
  "cons_inv cr (c\<lparr>cur_epoch := e\<rparr>) = cons_inv cr c"
  "cons_inv cr (c\<lparr>last_decided_view := v\<rparr>) = cons_inv cr c"
  "cons_inv cr (c\<lparr>locked_view := v\<rparr>) = cons_inv cr c"
  "cons_inv cr (c\<lparr>last_actions := a\<rparr>) = cons_inv cr c"
  "cons_inv cr (c\<lparr>high_qc := qc\<rparr>) = cons_inv cr c"
  "cons_inv cr (c\<lparr>next_epoch_high_qc := nqc\<rparr>) = cons_inv cr c"
  "cons_inv cr (c\<lparr>saved_da_certs := dc\<rparr>) = cons_inv cr c"
  "cons_inv cr (c\<lparr>drb_seeds_and_results := t\<rparr>) = cons_inv cr c"
  by (simp_all add: cons_inv_def maps_ok_def leaves_ok_def views_ok_def)

lemma update_action_frame: "fst (update_action a v c) = c\<lparr>last_actions := last_actions (fst (update_action a v c))\<rparr>"
  by (cases a) auto

lemma cons_inv_share: "cons_inv cr c \<Longrightarrow> cons_inv cr (update_vid_shares v s c)"
  by (simp add: cons_inv_def maps_ok_def leaves_ok_def views_ok_def update_vid_shares_def Let_def bt_simps)

lemma commit_Leaf2_view:
  "binding (finalize cr) \<Longrightarrow> commit_Leaf2 cr l = commit_Leaf2 cr l' \<Longrightarrow> l2_view_number l = l2_view_number l'"
  by (simp add: commit_Leaf2_def binding_def inj_eq)

lemma cons_inv_leaf:
  assumes "binding (finalize cr)" and "cons_inv cr c" and "update_leaf cr l st d c = Ok c'"
  shows "cons_inv cr c'"
proof -
  have sm: "validated_state_map c' = bt_insert (l2_view_number l)
        (LeafView (commit_Leaf2 cr l) st d (l2_epoch l (epoch_height c))) (validated_state_map c)"
    and lv: "saved_leaves c' = (saved_leaves c)(commit_Leaf2 cr l \<mapsto> l)"
    and rest: "vid_shares c' = vid_shares c" "last_proposals c' = last_proposals c" "saved_payloads c' = saved_payloads c"
    using assms(3) by (auto simp: update_leaf_eq_Ok)
  have inv: "maps_ok c" "leaves_ok cr c" "views_ok c" using assms(2) by (auto simp: cons_inv_def)
  have ok: "bt_ok (validated_state_map c)" using inv(1) by (simp add: maps_ok_def)
  have "maps_ok c'" using inv(1) by (simp add: maps_ok_def sm rest bt_simps)
  moreover have "leaves_ok cr c'" using inv(2) by (simp add: leaves_ok_def lv)
  moreover have "views_ok c'"
    unfolding views_ok_def
  proof (intro allI impI)
    fix v lc st' d' e assume *: "bt_get v (validated_state_map c') = Some (LeafView lc st' d' e)"
    show "\<exists>l'. saved_leaves c' lc = Some l' \<and> l2_view_number l' = v"
    proof (cases "v = l2_view_number l")
      case True
      then have "lc = commit_Leaf2 cr l" using * ok by (simp add: sm bt_simps)
      then show ?thesis using True lv by simp
    next
      case False
      then have "bt_get v (validated_state_map c) = Some (LeafView lc st' d' e)" using * ok by (simp add: sm bt_simps)
      then obtain l' where l': "saved_leaves c lc = Some l'" "l2_view_number l' = v" using views_okD [OF inv(3)] by blast
      then have "lc \<noteq> commit_Leaf2 cr l"
        using inv(2) False commit_Leaf2_view [OF assms(1)] unfolding leaves_ok_def by metis
      then show ?thesis using l' lv by simp
    qed
  qed
  ultimately show ?thesis by (simp add: cons_inv_def)
qed

lemma fold_remove: "fold (\<lambda>k m. m(k := None)) ks m = (\<lambda>x. if x \<in> set ks then None else m x)"
  by (induction ks arbitrary: m) auto

lemma set_stale:
  "bt_ok m \<Longrightarrow> set (List.map_filter (\<lambda>(_, view). leaf_commitment view) (bt_range a b m)) =
     {lc. \<exists>v st d e. a \<le> v \<and> v < b \<and> bt_get v m = Some (LeafView lc st d e)}"
proof -
  assume ok: "bt_ok m"
  have lc: "leaf_commitment w = Some x \<longleftrightarrow> (\<exists>st d e. w = LeafView x st d e)" for w x by (cases w) auto
  show ?thesis using in_bt_range [OF ok, of _ _ a b]
    by (force simp: List.map_filter_def lc image_iff)
qed

lemma collect_garbage_eq_Ok:
  assumes "maps_ok c" and "a < b"
  shows "collect_garbage a b c = Ok c' \<longleftrightarrow> validated_state_map c \<noteq> [] \<and>
     c' = c\<lparr>saved_da_certs := (\<lambda>v. if a \<le> v then saved_da_certs c v else None),
            saved_leaves := (\<lambda>lc. if \<exists>v st d e. a \<le> v \<and> v < b - 1 \<and> bt_get v (validated_state_map c) = Some (LeafView lc st d e)
               then None else saved_leaves c lc),
            validated_state_map := bt_split_off (b - 1) (validated_state_map c),
            saved_payloads := bt_split_off (b - 1) (saved_payloads c),
            vid_shares := bt_split_off (b - 1) (vid_shares c),
            last_proposals := bt_split_off (b - 1) (last_proposals c)\<rparr>"
proof -
  have "\<not> b < 1" using assms(2) by (simp add: word_order)
  then have gc: "saturating_sub b 1 = b - 1" by (simp add: saturating_sub_def)
  have ok: "bt_ok (validated_state_map c)" using assms(1) by (simp add: maps_ok_def)
  show ?thesis using assms(2)
    unfolding collect_garbage_def Let_def gc fold_remove set_stale [OF ok] mem_Collect_eq by auto
qed

lemma cons_inv_gc:
  assumes "cons_inv cr c" and "collect_garbage a b c = Ok c'"
  shows "cons_inv cr c'"
proof (cases "a < b")
  case True
  have c': "c' = c\<lparr>saved_da_certs := saved_da_certs c', saved_leaves := saved_leaves c',
      validated_state_map := bt_split_off (b - 1) (validated_state_map c),
      saved_payloads := bt_split_off (b - 1) (saved_payloads c),
      vid_shares := bt_split_off (b - 1) (vid_shares c), last_proposals := bt_split_off (b - 1) (last_proposals c)\<rparr>"
    and lv: "saved_leaves c' = (\<lambda>lc. if \<exists>v st d e. a \<le> v \<and> v < b - 1 \<and> bt_get v (validated_state_map c) = Some (LeafView lc st d e)
               then None else saved_leaves c lc)"
    using assms(2) collect_garbage_eq_Ok [OF _ True] assms(1) by (auto simp: cons_inv_def)
  have maps: "maps_ok c'" using assms(1) by (subst c') (simp add: cons_inv_def maps_ok_def bt_simps)
  have leaves: "leaves_ok cr c'" using assms(1) lv by (auto simp: cons_inv_def leaves_ok_def split: if_splits)
  have "views_ok c'"
    unfolding views_ok_def
  proof (intro allI impI)
    fix v lc st d e assume "bt_get v (validated_state_map c') = Some (LeafView lc st d e)"
    then have "bt_get v (bt_split_off (b - 1) (validated_state_map c)) = Some (LeafView lc st d e)"
      by (subst (asm) c') simp
    then have v: "b - 1 \<le> v" "bt_get v (validated_state_map c) = Some (LeafView lc st d e)"
      using assms(1) by (auto simp: cons_inv_def maps_ok_def bt_simps split: if_splits)
    show "\<exists>l. saved_leaves c' lc = Some l \<and> l2_view_number l = v"
    proof -
      have vo: "views_ok c" using assms(1) by (simp add: cons_inv_def)
      obtain l where l: "saved_leaves c lc = Some l" "l2_view_number l = v" using views_okD [OF vo v(2)] by blast
      have "\<not> (\<exists>w st d e. a \<le> w \<and> w < b - 1 \<and> bt_get w (validated_state_map c) = Some (LeafView lc st d e))"
        using views_okD [OF vo] l v(1) by (metis leD option.inject)
      then show ?thesis using l by (simp add: lv)
    qed
  qed
  with maps leaves show ?thesis by (simp add: cons_inv_def)
qed (use assms in \<open>simp add: collect_garbage_def linorder_not_less\<close>)

lemma cons_step_inv:
  assumes "binding (finalize cr)" and "cons_inv cr c" and "cons_step cr a c = Ok c'"
  shows "cons_inv cr c'"
proof (cases a)
  case (OpAction b v)
  then show ?thesis using assms(2,3) update_action_frame [of b v c] by (metis cons_inv_frame(5) cons_step.simps(3) result.inject(1))
next
  case (OpDa v e pc)
  then show ?thesis using assms(2,3)
    by (auto simp: update_da_view_def update_validated_state_map_eq_Ok cons_inv_def maps_ok_def leaves_ok_def views_ok_def
        bt_simps split: if_splits)
next
  case (OpLeaf l st d)
  then show ?thesis using cons_inv_leaf [OF assms(1,2)] assms(3) by simp
next
  case (OpGc a b)
  then show ?thesis using cons_inv_gc [OF assms(2)] assms(3) by simp
next
  case (OpNextHighQc qc)
  then show ?thesis using assms(2,3) by (auto simp: update_next_epoch_high_qc_def result_simps)
next
  case (OpProposed p)
  then show ?thesis using assms(2,3)
    by (auto simp: update_proposed_view_def Let_def result_simps cons_inv_def maps_ok_def leaves_ok_def views_ok_def bt_simps)
next
  case (OpPayload v p)
  then show ?thesis using assms(2,3)
    by (auto simp: result_simps cons_inv_def maps_ok_def leaves_ok_def views_ok_def bt_simps)
qed (use assms in \<open>auto simp: result_simps cons_inv_share update_saved_da_certs_def\<close>)

lemma cons_apply_inv:
  "binding (finalize cr) \<Longrightarrow> cons_inv cr c \<Longrightarrow> cons_apply cr a c = Some c' \<Longrightarrow> cons_inv cr c'"
  using cons_step_inv by (metis cons_apply_cases)

section \<open>Moving forward\<close>

text \<open>Views, locks, decisions, certificates, epochs and granted actions never go back.\<close>

definition forward :: "Consensus \<Rightarrow> Consensus \<Rightarrow> bool" where
  "forward c c' \<longleftrightarrow>
     cur_view c \<le> cur_view c' \<and> locked_view c \<le> locked_view c' \<and> last_decided_view c \<le> last_decided_view c' \<and>
     c_view_number (high_qc c) \<le> c_view_number (high_qc c') \<and>
     voted (last_actions c) \<le> voted (last_actions c') \<and> proposed (last_actions c) \<le> proposed (last_actions c') \<and>
     da_proposed (last_actions c) \<le> da_proposed (last_actions c') \<and> da_vote (last_actions c) \<le> da_vote (last_actions c') \<and>
     (\<forall>e. cur_epoch c = Some e \<longrightarrow> (\<exists>e'. cur_epoch c' = Some e' \<and> e \<le> e'))"

lemma forward_refl: "forward c c"
  by (simp add: forward_def)

lemma forward_trans:
  assumes "forward a b" and "forward b c"
  shows "forward a c"
  unfolding forward_def
proof (intro conjI allI impI)
  fix e assume "cur_epoch a = Some e"
  then obtain e' where "cur_epoch b = Some e'" "e \<le> e'" using assms(1) by (auto simp: forward_def)
  moreover from this obtain e'' where "cur_epoch c = Some e''" "e' \<le> e''" using assms(2) by (auto simp: forward_def)
  ultimately show "\<exists>e'. cur_epoch c = Some e' \<and> e \<le> e'" by auto
qed (use assms in \<open>auto simp: forward_def intro: order_trans\<close>)

lemma update_action_forward: "forward c (fst (update_action a v c))"
  by (cases a) (auto simp: forward_def)

lemma cons_step_forward: "cons_step cr a c = Ok c' \<Longrightarrow> forward c c'"
proof (cases a)
  case (OpAction b v)
  then show "cons_step cr a c = Ok c' \<Longrightarrow> forward c c'" using update_action_forward by auto
next
  case (OpGc x y)
  then show "cons_step cr a c = Ok c' \<Longrightarrow> forward c c'"
    by (auto simp: collect_garbage_def Let_def forward_def split: if_splits)
qed (auto simp: forward_def result_simps update_da_view_def update_validated_state_map_eq_Ok update_leaf_eq_Ok
    update_proposed_view_def update_next_epoch_high_qc_def update_vid_shares_def update_saved_da_certs_def Let_def
    split: option.splits)

lemma cons_apply_forward: "cons_apply cr a c = Some c' \<Longrightarrow> forward c c'"
  using cons_step_forward forward_refl by (metis cons_apply_cases)

interpretation ci: step_invariant "cons_apply cr" "\<lambda>c. binding (finalize cr) \<and> cons_inv cr c"
  by unfold_locales (auto intro: cons_apply_inv)

interpretation cm: step_monotone "cons_apply cr" forward
  by unfold_locales (auto intro: forward_refl forward_trans cons_apply_forward)

section \<open>Properties\<close>

text \<open>
  C18. The consensus state stays well formed and only moves forward under every sequence of updates,
  failed ones included: the maps stay ordered, every saved leaf is filed under its commitment, every
  leaf view has its leaf with the view's number, and the current view, the lock, the decided view, the
  high certificate, the epoch and the granted actions never decrease.
\<close>

theorem consensus_run_ok:
  assumes "binding (finalize cr)" and "cons_inv cr c" and "run_steps (cons_apply cr) ops c = Some c'"
  shows "cons_inv cr c' \<and> forward c c'"
  using ci.run_inv [OF _ assms(3)] cm.run_le [OF assms(3)] assms(1,2) by blast

text \<open>A state at genesis: one leaf, whose view is decided.\<close>

definition genesis_leaf :: Leaf2 where
  "genesis_leaf = toy_leaf 0 (toy_qc 0 [])"

lemma toy_leaf_simps [simp]:
  "l2_view_number (toy_leaf v q) = v" "l2_justify_qc (toy_leaf v q) = q"
  "l2_parent_commitment (toy_leaf v q) = leaf_commit (c_data q)" "l2_with_epoch (toy_leaf v q) = False"
  "l2_height (toy_leaf v q) = v" "l2_upgrade_certificate (toy_leaf v q) = None"
  "c_data (toy_qc v lc) = QuorumData2 lc None" "c_view_number (toy_qc v lc) = v"
  "l2_view_number genesis_leaf = 0" "l2_parent_commitment genesis_leaf = []" "l2_justify_qc genesis_leaf = toy_qc 0 []"
  by (simp_all add: toy_leaf_def toy_qc_def genesis_leaf_def l2_height_def toy_header_def)

definition genesis_consensus :: "crypto \<Rightarrow> Consensus" where
  "genesis_consensus cr =
     consensus_new [(0, LeafView (commit_Leaf2 cr genesis_leaf) 0 (Some 0) None)] None 0 None 0 0 0 []
       [commit_Leaf2 cr genesis_leaf \<mapsto> genesis_leaf] [] (toy_qc 0 (commit_Leaf2 cr genesis_leaf)) None 10"

lemma genesis_consensus_inv: "cons_inv cr (genesis_consensus cr)"
  by (simp add: cons_inv_def maps_ok_def leaves_ok_def views_ok_def genesis_consensus_def consensus_new_def
      bt_ok_def bt_get_def genesis_leaf_def toy_leaf_def)

theorem consensus_run_ok_witness:
  "cons_inv inj_crypto ((genesis_consensus inj_crypto)\<lparr>cur_view := 2, locked_view := 1\<rparr>) \<and>
   forward (genesis_consensus inj_crypto) ((genesis_consensus inj_crypto)\<lparr>cur_view := 2, locked_view := 1\<rparr>)"
  by (rule consensus_run_ok [OF binding_inj_crypto genesis_consensus_inv, where ops = "[OpView 2, OpView 1, OpLocked 1]"])
    (simp add: cons_apply_def update_view_def update_locked_view_def genesis_consensus_def consensus_new_def)

text \<open>The views in which an action was granted during a run.\<close>

fun granted :: "crypto \<Rightarrow> HotShotAction \<Rightarrow> cons_op list \<Rightarrow> Consensus \<Rightarrow> u64 list" where
  "granted cr a [] c = []"
| "granted cr a (x # xs) c =
     (case cons_apply cr x c of
        None \<Rightarrow> []
      | Some c' \<Rightarrow>
          (case x of OpAction b v \<Rightarrow> (if b = a \<and> snd (update_action b v c) then [v] else []) | _ \<Rightarrow> []) @ granted cr a xs c')"

lemma granted_sorted:
  assumes mono: "\<And>c c'. forward c c' \<Longrightarrow> get (last_actions c) \<le> get (last_actions c')"
    and grant: "\<And>v c. snd (update_action a v c) \<longleftrightarrow> get (last_actions c) < v"
    and after: "\<And>v c. snd (update_action a v c) \<Longrightarrow> get (last_actions (fst (update_action a v c))) = v"
  shows "sorted_wrt (<) (granted cr a ops c) \<and> (\<forall>v \<in> set (granted cr a ops c). get (last_actions c) < v)"
proof (induction ops arbitrary: c)
  case (Cons x xs)
  show ?case
  proof (cases "cons_apply cr x c")
    case (Some c')
    have le: "get (last_actions c) \<le> get (last_actions c')" using mono [OF cons_apply_forward [OF Some]] .
    show ?thesis
    proof (cases "\<exists>v. x = OpAction a v \<and> snd (update_action a v c)")
      case True
      then obtain v where v: "x = OpAction a v" "snd (update_action a v c)" by blast
      then have "get (last_actions c') = v" using Some after [OF v(2)] by (simp add: cons_apply_def)
      then show ?thesis using Cons [of c'] v Some grant by fastforce
    next
      case False
      then have "granted cr a (x # xs) c = granted cr a xs c'" using Some by (auto split: cons_op.splits)
      then show ?thesis using Cons [of c'] le by (auto intro: le_less_trans)
    qed
  qed simp
qed simp


section \<open>Views never lose information\<close>

fun is_gc :: "cons_op \<Rightarrow> bool" where
  "is_gc (OpGc _ _) = True"
| "is_gc _ = False"

lemma rank_at_frame: "validated_state_map c = validated_state_map c' \<Longrightarrow> rank_at v c = rank_at v c'"
  by (simp add: rank_at_def)

lemma rank_at_insert:
  "bt_ok (validated_state_map c) \<Longrightarrow>
   rank_at v (c\<lparr>validated_state_map := bt_insert w new (validated_state_map c)\<rparr>) = (if v = w then view_rank new else rank_at v c)"
  by (simp add: rank_at_def bt_simps)

lemma cons_step_rank:
  assumes "cons_inv cr c" and "cons_step cr a c = Ok c'" and "\<not> is_gc a"
  shows "rank_at v c \<le> rank_at v c'"
proof -
  have ok: "bt_ok (validated_state_map c)" using assms(1) by (simp add: cons_inv_def maps_ok_def)
  show ?thesis
  proof (cases a)
    case (OpLeaf l st d)
    have "rank_at v c' = rank_at v (c\<lparr>validated_state_map := bt_insert (l2_view_number l)
        (LeafView (commit_Leaf2 cr l) st d (l2_epoch l (epoch_height c))) (validated_state_map c)\<rparr>)"
      using assms(2) OpLeaf by (intro rank_at_frame) (simp add: update_leaf_eq_Ok)
    then show ?thesis using assms(2) OpLeaf ok by (simp add: rank_at_insert update_leaf_eq_Ok)
  next
    case (OpDa w e pc)
    then show ?thesis using assms(2) ok
      by (auto simp: update_da_view_def update_validated_state_map_eq_Ok rank_at_insert)
  next
    case (OpAction b w)
    have "validated_state_map (fst (update_action b w c)) = validated_state_map c"
      by (subst update_action_frame) simp
    then show ?thesis using assms(2) OpAction by (metis cons_step.simps(3) order_refl rank_at_frame result.inject(1))
  qed (use assms in \<open>auto simp: rank_at_def result_simps update_proposed_view_def update_next_epoch_high_qc_def
      update_vid_shares_def update_saved_da_certs_def Let_def\<close>)
qed

lemma run_rank:
  assumes "binding (finalize cr)"
  shows "cons_inv cr c \<Longrightarrow> run_steps (cons_apply cr) ops c = Some c' \<Longrightarrow> list_all (\<lambda>a. \<not> is_gc a) ops \<Longrightarrow> rank_at v c \<le> rank_at v c'"
proof (induction ops arbitrary: c)
  case (Cons a as)
  then obtain d where d: "cons_apply cr a c = Some d" "run_steps (cons_apply cr) as d = Some c'"
    by (auto split: option.splits)
  have "rank_at v c \<le> rank_at v d"
    using d(1) Cons.prems(1,3) cons_step_rank by (auto elim!: cons_apply_cases)
  also have "\<dots> \<le> rank_at v c'"
    using Cons.IH [OF cons_apply_inv [OF assms Cons.prems(1) d(1)] d(2)] Cons.prems(3) by simp
  finally show ?case .
qed simp

text \<open>
  C38. Until garbage is collected, no sequence of updates makes a view poorer: a view with a leaf keeps
  a leaf, and a leaf with its state delta keeps one.
\<close>

theorem views_never_poorer:
  assumes "binding (finalize cr)" and "cons_inv cr c" and "run_steps (cons_apply cr) ops c = Some c'"
    and "list_all (\<lambda>a. \<not> is_gc a) ops"
  shows "rank_at v c \<le> rank_at v c'"
  using run_rank [OF assms] .

theorem views_never_poorer_witness:
  "rank_at 0 (genesis_consensus inj_crypto) \<le> rank_at 0 (genesis_consensus inj_crypto) \<and>
   run_steps (cons_apply inj_crypto) [OpDa 0 None []] (genesis_consensus inj_crypto) = Some (genesis_consensus inj_crypto)"
proof -
  have run: "run_steps (cons_apply inj_crypto) [OpDa 0 None []] (genesis_consensus inj_crypto) = Some (genesis_consensus inj_crypto)"
    by (simp add: cons_apply_def update_da_view_def update_validated_state_map_def genesis_consensus_def consensus_new_def bt_get_def)
  show ?thesis
    using run views_never_poorer [OF binding_inj_crypto genesis_consensus_inv run, of 0] by simp
qed

section \<open>Garbage collection\<close>

lemma rank_leaf: "1 \<le> rank_at v c \<longleftrightarrow> (\<exists>lc st d e. bt_get v (validated_state_map c) = Some (LeafView lc st d e))"
proof (cases "bt_get v (validated_state_map c)")
  case (Some w)
  then show ?thesis by (cases w) (auto simp: rank_at_def)
qed (simp add: rank_at_def)

text \<open>
  C20. Deciding a view that has a leaf, with the garbage collection that goes with it, does not panic:
  the decided leaf can be read afterwards and has the decided view, the views before the decided one's
  predecessor are gone and every other view is as it was, and the state stays well formed.
\<close>

theorem decide_keeps_leaf:
  assumes "cons_inv cr c" and "last_decided_view c < v" and "1 \<le> rank_at v c"
  shows "\<exists>c1 c2 l. collect_garbage (last_decided_view c) v c = Ok c1 \<and> update_last_decided_view v c1 = Ok c2 \<and>
     decided_leaf c2 = Ok l \<and> l2_view_number l = v \<and> is_ok (decided_state c2) \<and> cons_inv cr c2 \<and>
     (\<forall>w. bt_get w (validated_state_map c2) = (if v - 1 \<le> w then bt_get w (validated_state_map c) else None))"
proof -
  have maps: "maps_ok c" using assms(1) by (simp add: cons_inv_def)
  obtain lc st d e where lc: "bt_get v (validated_state_map c) = Some (LeafView lc st d e)" using assms(3) unfolding rank_leaf by blast
  then have ne: "validated_state_map c \<noteq> []" by auto
  obtain c1 where c1: "collect_garbage (last_decided_view c) v c = Ok c1"
    using collect_garbage_eq_Ok [OF maps assms(2)] ne by blast
  have sm: "validated_state_map c1 = bt_split_off (v - 1) (validated_state_map c)"
    and ld: "last_decided_view c1 = last_decided_view c"
    using c1 collect_garbage_eq_Ok [OF maps assms(2)] by auto
  have inv1: "cons_inv cr c1" using cons_inv_gc [OF assms(1) c1] .
  let ?c2 = "c1\<lparr>last_decided_view := v\<rparr>"
  have get: "bt_get w (validated_state_map ?c2) = (if v - 1 \<le> w then bt_get w (validated_state_map c) else None)" for w
    using maps by (simp add: sm maps_ok_def bt_simps)
  have "v \<noteq> 0" using assms(2) by auto
  then have "v - 1 \<le> v" by (simp add: word_order unat_pred_of_pos)
  then have at: "bt_get v (validated_state_map ?c2) = Some (LeafView lc st d e)" using get lc by simp
  then obtain l where "saved_leaves c1 lc = Some l" "l2_view_number l = v"
    using inv1 views_okD [of c1 v lc st d e] by (auto simp: cons_inv_def)
  then have "decided_leaf ?c2 = Ok l \<and> l2_view_number l = v \<and> is_ok (decided_state ?c2)"
    using at by (simp add: decided_leaf_def decided_state_def state_and_delta_def)
  moreover have "update_last_decided_view v c1 = Ok ?c2" using assms(2) ld by (simp add: update_eq_Ok)
  ultimately show ?thesis using c1 inv1 get by (intro exI [of _ c1] exI [of _ ?c2] exI [of _ l]) simp
qed

definition two_view_consensus :: "crypto \<Rightarrow> Consensus" where
  "two_view_consensus cr =
     (let l = toy_leaf 1 (toy_qc 0 (commit_Leaf2 cr genesis_leaf)); g = genesis_consensus cr in
      g\<lparr>validated_state_map := bt_insert 1 (LeafView (commit_Leaf2 cr l) 0 (Some 0) None) (validated_state_map g),
        saved_leaves := (saved_leaves g)(commit_Leaf2 cr l \<mapsto> l)\<rparr>)"

lemma two_view_consensus_step:
  "update_leaf cr (toy_leaf 1 (toy_qc 0 (commit_Leaf2 cr genesis_leaf))) 0 (Some 0) (genesis_consensus cr) = Ok (two_view_consensus cr)"
  by (simp add: update_leaf_eq_Ok two_view_consensus_def Let_def genesis_consensus_def consensus_new_def rank_at_def bt_get_def
      toy_leaf_def l2_epoch_def option_epoch_from_block_number_def)

theorem decide_keeps_leaf_witness:
  "\<exists>c1 c2 l. collect_garbage (last_decided_view (two_view_consensus inj_crypto)) 1 (two_view_consensus inj_crypto) = Ok c1 \<and>
     update_last_decided_view 1 c1 = Ok c2 \<and> decided_leaf c2 = Ok l \<and> l2_view_number l = 1 \<and> is_ok (decided_state c2) \<and>
     cons_inv inj_crypto c2 \<and>
     (\<forall>w. bt_get w (validated_state_map c2) = (if (1 :: u64) - 1 \<le> w then bt_get w (validated_state_map (two_view_consensus inj_crypto)) else None))"
  by (rule decide_keeps_leaf [OF cons_inv_leaf [OF binding_inj_crypto genesis_consensus_inv two_view_consensus_step]])
    (simp_all add: two_view_consensus_def Let_def genesis_consensus_def consensus_new_def rank_at_def bt_get_def)

text \<open>
  The leaf just before the previous anchor is never removed: garbage collection starts at the
  previous anchor, while the view map is cut at the predecessor of the new one, so after a decision the
  leaf stays among the saved leaves although its view is gone.
\<close>

theorem collect_garbage_leaks_leaf:
  assumes "cons_inv cr c" and "a < b" and "w < a" and "bt_get w (validated_state_map c) = Some (LeafView lc st d e)"
    and "collect_garbage a b c = Ok c'"
  shows "bt_get w (validated_state_map c') = None \<and> saved_leaves c' lc \<noteq> None"
proof -
  have maps: "maps_ok c" and vo: "views_ok c" using assms(1) by (auto simp: cons_inv_def)
  have c': "validated_state_map c' = bt_split_off (b - 1) (validated_state_map c)"
      "saved_leaves c' = (\<lambda>lc. if \<exists>v st d e. a \<le> v \<and> v < b - 1 \<and> bt_get v (validated_state_map c) = Some (LeafView lc st d e)
               then None else saved_leaves c lc)"
    using assms(5) collect_garbage_eq_Ok [OF maps assms(2)] by auto
  have "w < b - 1" using assms(2,3) by (cases "b = 0") (auto simp: word_order unat_pred_of_pos)
  then have "bt_get w (validated_state_map c') = None"
    using maps by (auto simp: c'(1) maps_ok_def bt_simps)
  moreover obtain l where l: "saved_leaves c lc = Some l" "l2_view_number l = w" using views_okD [OF vo assms(4)] by blast
  moreover have "\<not> (\<exists>v st d e. a \<le> v \<and> v < b - 1 \<and> bt_get v (validated_state_map c) = Some (LeafView lc st d e))"
    using views_okD [OF vo] l assms(3) by (metis leD option.inject)
  ultimately show ?thesis by (simp add: c'(2))
qed

theorem collect_garbage_leaks_leaf_witness:
  "\<exists>c'. collect_garbage 1 3 (two_view_consensus inj_crypto) = Ok c' \<and> bt_get 0 (validated_state_map c') = None \<and>
     saved_leaves c' (commit_Leaf2 inj_crypto genesis_leaf) \<noteq> None"
proof -
  have "\<exists>c'. collect_garbage 1 3 (two_view_consensus inj_crypto) = Ok c'"
    by (simp add: collect_garbage_def Let_def two_view_consensus_def genesis_consensus_def consensus_new_def)
  then obtain c' where c': "collect_garbage 1 3 (two_view_consensus inj_crypto) = Ok c'" by blast
  have "bt_get 0 (validated_state_map (two_view_consensus inj_crypto)) = Some (LeafView (commit_Leaf2 inj_crypto genesis_leaf) 0 (Some 0) None)"
    by (simp add: two_view_consensus_def Let_def genesis_consensus_def consensus_new_def bt_get_def)
  from collect_garbage_leaks_leaf [OF cons_inv_leaf [OF binding_inj_crypto genesis_consensus_inv two_view_consensus_step] _ _ this c']
  show ?thesis using c' by simp
qed

end
