(* ===== verification/Decide.thy ===== *)
theory Decide
  imports Ancestors
begin

text \<open>
  Deciding leaves from a proposal: \<open>decide_from_proposal_2\<close> (two consecutive certified leaves) and
  \<open>decide_from_proposal\<close> (three) of \<open>crates/task-impls/src/helpers.rs\<close>, with the hand-over of an epoch root to
  the membership.  The loops follow commitments and are partial functions.  The lemmas read a decision off
  the saved leaves it rests on and describe the chain that is reported.
\<close>

section \<open>Epoch roots\<close>

text \<open>The hooks of the membership that an epoch root triggers; each may return a change of the membership.\<close>

record epoch_hooks =
  add_epoch_root :: "membership \<Rightarrow> epoch \<Rightarrow> block_header \<Rightarrow> (membership \<Rightarrow> membership) option"
  sync_l1 :: "membership \<Rightarrow> (membership \<Rightarrow> membership) option"

definition default_hooks :: epoch_hooks where
  "default_hooks = \<lparr>add_epoch_root = (\<lambda>m e h. None), sync_l1 = (\<lambda>m. None)\<rparr>"

definition decide_epoch_root :: "epoch_hooks \<Rightarrow> Leaf2 \<Rightarrow> u64 \<Rightarrow> membership \<Rightarrow> membership" where
  "decide_epoch_root hooks leaf eh m =
     (let decided_block_number = block_number (l2_block_header leaf) in
      if eh \<noteq> 0 \<and> is_epoch_root decided_block_number eh then
        let next_epoch_number = epoch_from_block_number decided_block_number eh + 1 in
        (case add_epoch_root hooks m next_epoch_number (l2_block_header leaf) of
           None \<Rightarrow> m
         | Some write_callback \<Rightarrow>
             let m' = write_callback m in
             (case sync_l1 hooks m' of None \<Rightarrow> m' | Some write_callback' \<Rightarrow> write_callback' m'))
      else m)"

section \<open>Outcome of a traversal\<close>

record LeafChainTraversalOutcome =
  new_locked_view_number :: "u64 option"
  new_decided_view_number :: "u64 option"
  new_decide_qc :: "QuorumCertificate2 option"
  leaf_views :: "LeafInfo list"
  included_txns :: "commitment set option"
  decided_upgrade_cert :: "UpgradeCertificate option"

definition outcome_default :: LeafChainTraversalOutcome where
  "outcome_default = \<lparr>new_locked_view_number = None, new_decided_view_number = None, new_decide_qc = None,
     leaf_views = [], included_txns = None, decided_upgrade_cert = None\<rparr>"

definition note_upgrade_cert ::
  "UpgradeCertificate option \<Rightarrow> u64 \<Rightarrow> Leaf2 \<Rightarrow> LeafChainTraversalOutcome \<Rightarrow> LeafChainTraversalOutcome" where
  "note_upgrade_cert existing view l res =
     (case l2_upgrade_certificate l of
        None \<Rightarrow> res
      | Some cert \<Rightarrow>
          if l2_upgrade_certificate l \<noteq> existing \<and> \<not> decide_by (c_data cert) < view
          then res\<lparr>decided_upgrade_cert := Some cert\<rparr> else res)"

text \<open>The leaf with the payload saved for its view, if there is one.\<close>

definition with_saved_payload :: "Consensus \<Rightarrow> Leaf2 \<Rightarrow> Leaf2" where
  "with_saved_payload c l =
     (case bt_get (l2_view_number l) (saved_payloads c) of Some p \<Rightarrow> fill_block_payload_unchecked p l | None \<Rightarrow> l)"

definition leaf_txns :: "'a payload_ops_scheme \<Rightarrow> Leaf2 \<Rightarrow> commitment set" where
  "leaf_txns ops l =
     (case l2_block_payload l of
        Some p \<Rightarrow> set (transaction_commitments ops p (header_metadata (l2_block_header l)))
      | None \<Rightarrow> {})"

section \<open>The two-chain rule\<close>

partial_function (option) decide_loop ::
  "'a payload_ops_scheme \<Rightarrow> Consensus \<Rightarrow> pubkey \<Rightarrow> UpgradeCertificate option \<Rightarrow> u64 \<Rightarrow> LeafInfo option \<Rightarrow>
   LeafChainTraversalOutcome \<Rightarrow> commitment set \<Rightarrow> (LeafChainTraversalOutcome \<times> commitment set) option" where
  "decide_loop ops c public_key existing decided_view current res txns =
     (case current of
        None \<Rightarrow> Some (res, txns)
      | Some info \<Rightarrow>
          if \<not> last_decided_view c < l2_view_number (li_leaf info) then Some (res, txns)
          else
            let res1 = note_upgrade_cert existing decided_view (li_leaf info) res;
                res2 = res1\<lparr>leaf_views := leaf_views res1 @ [info]\<rparr>;
                filled = with_saved_payload c (li_leaf info)
            in decide_loop ops c public_key existing decided_view (parent_leaf_info filled public_key c) res2
                 (txns \<union> leaf_txns ops filled))"

definition decide_from_proposal_2 ::
  "'a payload_ops_scheme \<Rightarrow> epoch_hooks \<Rightarrow> QuorumProposalWrapper \<Rightarrow> Consensus \<Rightarrow> UpgradeCertificate option \<Rightarrow> pubkey \<Rightarrow> bool \<Rightarrow>
   membership \<Rightarrow> (LeafChainTraversalOutcome \<times> membership) option" where
  "decide_from_proposal_2 ops hooks proposal c existing public_key with_epochs m =
     (let proposed_leaf = from_quorum_proposal proposal;
          res = outcome_default\<lparr>new_locked_view_number := Some (c_view_number (l2_justify_qc proposed_leaf))\<rparr> in
      case parent_leaf_info proposed_leaf public_key c of
        None \<Rightarrow> Some (res, m)
      | Some parent_info \<Rightarrow>
          (case parent_leaf_info (li_leaf parent_info) public_key c of
             None \<Rightarrow> Some (res, m)
           | Some grand_parent_info \<Rightarrow>
               if l2_view_number (li_leaf grand_parent_info) + 1 \<noteq> l2_view_number (li_leaf parent_info) then Some (res, m)
               else
                 let decided_view = l2_view_number (li_leaf grand_parent_info);
                     res1 = res\<lparr>new_decide_qc := Some (l2_justify_qc (li_leaf parent_info)), new_decided_view_number := Some decided_view\<rparr>
                 in Option.bind (decide_loop ops c public_key existing decided_view (Some grand_parent_info) res1 {}) (\<lambda>(res2, txns).
                      let res3 = (if txns = {} then res2 else res2\<lparr>included_txns := Some txns\<rparr>);
                          m' = (if with_epochs \<and> leaf_views res3 \<noteq> []
                                then decide_epoch_root hooks (li_leaf (last (leaf_views res3))) (epoch_height c) m else m)
                      in Some (res3, m'))))"

section \<open>The three-chain rule\<close>

text \<open>The closure's variables: the view visited last, the length of the chain and the outcome.\<close>

type_synonym chain_state = "u64 \<times> nat \<times> LeafChainTraversalOutcome"

definition extend_chain :: "chain_state \<Rightarrow> Leaf2 \<Rightarrow> chain_state" where
  "extend_chain s l =
     (case s of (last_visited, len, res) \<Rightarrow>
        let len' = Suc len;
            res' = (if len' = 2 then res\<lparr>new_locked_view_number := Some (l2_view_number l), new_decide_qc := Some (l2_justify_qc l)\<rparr>
                    else if len' = 3 then res\<lparr>new_decided_view_number := Some (l2_view_number l)\<rparr>
                    else res)
        in (l2_view_number l, len', res'))"

definition record_decided ::
  "'a payload_ops_scheme \<Rightarrow> Consensus \<Rightarrow> pubkey \<Rightarrow> UpgradeCertificate option \<Rightarrow> u64 \<Rightarrow> Leaf2 \<Rightarrow> validated_state \<Rightarrow>
   state_delta option \<Rightarrow> LeafChainTraversalOutcome \<Rightarrow> LeafChainTraversalOutcome" where
  "record_decided ops c public_key existing view l st delta res =
     (let res1 = note_upgrade_cert existing view l res;
          filled = with_saved_payload c l;
          vid_share = Option.bind (bt_get (l2_view_number l) (vid_shares c)) (\<lambda>m. map_option pr_data (m public_key));
          res2 = res1\<lparr>leaf_views := leaf_views res1 @ [\<lparr>li_leaf = filled, li_state = st, li_delta = delta, li_vid_share = vid_share\<rparr>]\<rparr>
      in if l2_block_payload filled \<noteq> None then res2\<lparr>included_txns := Some (leaf_txns ops filled)\<rparr> else res2)"

definition decide_visitor ::
  "'a payload_ops_scheme \<Rightarrow> Consensus \<Rightarrow> pubkey \<Rightarrow> UpgradeCertificate option \<Rightarrow> u64 \<Rightarrow> chain_state visitor" where
  "decide_visitor ops c public_key existing view s l st delta =
     (case s of (last_visited, len, res) \<Rightarrow>
        if new_decided_view_number res = None \<and> last_visited \<noteq> l2_view_number l + 1 then (s, False)
        else
          let s1 = (if new_decided_view_number res = None then extend_chain s l else s)
          in (case s1 of (lv, n, res1) \<Rightarrow>
                ((lv, n, if new_decided_view_number res1 = None then res1
                         else record_decided ops c public_key existing view l st delta res1), True)))"

definition decide_from_proposal ::
  "'a payload_ops_scheme \<Rightarrow> epoch_hooks \<Rightarrow> QuorumProposalWrapper \<Rightarrow> Consensus \<Rightarrow> UpgradeCertificate option \<Rightarrow> pubkey \<Rightarrow> bool \<Rightarrow>
   membership \<Rightarrow> (LeafChainTraversalOutcome \<times> membership) option" where
  "decide_from_proposal ops hooks proposal c existing public_key with_epochs m =
     (let view = q2_view_number (qw_proposal proposal);
          parent_view = c_view_number (q2_justify_qc (qw_proposal proposal)) in
      Option.bind (visit_leaf_ancestors parent_view (Exclusive (last_decided_view c)) True
          (decide_visitor ops c public_key existing view) (view, 0, outcome_default) c) (\<lambda>((_, _, res), _).
        let m' = (if with_epochs \<and> new_decided_view_number res \<noteq> None \<and> leaf_views res \<noteq> []
                  then decide_epoch_root hooks (li_leaf (last (leaf_views res))) (epoch_height c) m else m)
        in Some (res, m')))"

section \<open>What the two-chain rule decides\<close>

lemma note_upgrade_cert_simps [simp]:
  "leaf_views (note_upgrade_cert e v l res) = leaf_views res"
  "new_locked_view_number (note_upgrade_cert e v l res) = new_locked_view_number res"
  "new_decided_view_number (note_upgrade_cert e v l res) = new_decided_view_number res"
  "new_decide_qc (note_upgrade_cert e v l res) = new_decide_qc res"
  "included_txns (note_upgrade_cert e v l res) = included_txns res"
  by (simp_all add: note_upgrade_cert_def split: option.splits)

lemma with_saved_payload_simps [simp]:
  "l2_view_number (with_saved_payload c l) = l2_view_number l"
  "l2_justify_qc (with_saved_payload c l) = l2_justify_qc l"
  "parent_leaf_info (with_saved_payload c l) k c' = parent_leaf_info l k c'"
  by (simp_all add: with_saved_payload_def fill_block_payload_unchecked_def parent_leaf_info_def split: option.splits)

text \<open>The reported chain: every entry is the parent of the one before it, all are above the anchor, and it stops only where it has to.\<close>

fun linked_down :: "Consensus \<Rightarrow> pubkey \<Rightarrow> u64 \<Rightarrow> LeafInfo option \<Rightarrow> LeafInfo list \<Rightarrow> bool" where
  "linked_down c k anchor start [] = (case start of None \<Rightarrow> True | Some i \<Rightarrow> l2_view_number (li_leaf i) \<le> anchor)"
| "linked_down c k anchor start (i # is) =
     (start = Some i \<and> anchor < l2_view_number (li_leaf i) \<and> linked_down c k anchor (parent_leaf_info (li_leaf i) k c) is)"

definition loop_spec ::
  "'a payload_ops_scheme \<Rightarrow> Consensus \<Rightarrow> pubkey \<Rightarrow> LeafInfo option \<Rightarrow> LeafChainTraversalOutcome \<Rightarrow> commitment set \<Rightarrow>
   LeafChainTraversalOutcome \<times> commitment set \<Rightarrow> bool" where
  "loop_spec ops c k start res txns out \<longleftrightarrow>
     (\<exists>is. leaf_views (fst out) = leaf_views res @ is \<and> linked_down c k (last_decided_view c) start is \<and>
       new_locked_view_number (fst out) = new_locked_view_number res \<and> new_decided_view_number (fst out) = new_decided_view_number res \<and>
       new_decide_qc (fst out) = new_decide_qc res \<and> included_txns (fst out) = included_txns res \<and>
       snd out = txns \<union> (\<Union>i \<in> set is. leaf_txns ops (with_saved_payload c (li_leaf i))))"

lemma loop_spec_stop: "linked_down c k (last_decided_view c) start [] \<Longrightarrow> loop_spec ops c k start res txns (res, txns)"
  unfolding loop_spec_def by (rule exI [of _ "[]"]) simp

lemma loop_spec_step:
  assumes "loop_spec ops c k (parent_leaf_info (li_leaf i) k c) (r\<lparr>leaf_views := leaf_views r @ [i]\<rparr>)
      (txns \<union> leaf_txns ops (with_saved_payload c (li_leaf i))) out"
    and "last_decided_view c < l2_view_number (li_leaf i)" and "r = note_upgrade_cert e v l res"
  shows "loop_spec ops c k (Some i) res txns out"
proof -
  obtain "is" where "leaf_views (fst out) = leaf_views res @ i # is" and "linked_down c k (last_decided_view c) (parent_leaf_info (li_leaf i) k c) is"
    and "new_locked_view_number (fst out) = new_locked_view_number res" and "new_decided_view_number (fst out) = new_decided_view_number res"
    and "new_decide_qc (fst out) = new_decide_qc res" and "included_txns (fst out) = included_txns res"
    and "snd out = txns \<union> leaf_txns ops (with_saved_payload c (li_leaf i)) \<union> (\<Union>i \<in> set is. leaf_txns ops (with_saved_payload c (li_leaf i)))"
    using assms(1) unfolding loop_spec_def assms(3) by auto
  then show ?thesis
    using assms(2) unfolding loop_spec_def by (intro exI [of _ "i # is"]) (simp add: Un_assoc)
qed

lemma decide_loop_spec:
  assumes "decide_loop ops c k ex dv start res txns = Some out"
  shows "loop_spec ops c k start res txns out"
proof (rule decide_loop.raw_induct [where P = "\<lambda>ops c k ex dv start res txns out. loop_spec ops c k start res txns out", OF _ assms])
  fix rec and ops :: "'a payload_ops_scheme" and c k ex dv start res txns out
  assume IH: "\<And>ops c k ex dv start res txns out. rec ops c k ex dv start res txns = Some out \<Longrightarrow> loop_spec ops c k start res txns out"
    and eq: "(case start of None \<Rightarrow> Some (res, txns)
      | Some info \<Rightarrow>
          if \<not> last_decided_view c < l2_view_number (li_leaf info) then Some (res, txns)
          else
            let res1 = note_upgrade_cert ex dv (li_leaf info) res;
                res2 = res1\<lparr>leaf_views := leaf_views res1 @ [info]\<rparr>;
                filled = with_saved_payload c (li_leaf info)
            in rec ops c k ex dv (parent_leaf_info filled k c) res2 (txns \<union> leaf_txns ops filled)) = Some out"
  show "loop_spec ops c k start res txns out"
  proof (cases start)
    case None
    with eq show ?thesis by (auto intro: loop_spec_stop)
  next
    case (Some i)
    show ?thesis
    proof (cases "last_decided_view c < l2_view_number (li_leaf i)")
      case True
      with eq Some show ?thesis by (simp add: Let_def) (rule loop_spec_step [OF IH _ refl], simp_all)
    next
      case False
      with eq Some show ?thesis by (auto intro: loop_spec_stop)
    qed
  qed
qed

text \<open>Justifying certificates point to leaves of smaller views, so following them ends.\<close>

definition justify_older :: "Consensus \<Rightarrow> bool" where
  "justify_older c \<longleftrightarrow>
     (\<forall>cm l p. saved_leaves c cm = Some l \<longrightarrow> saved_leaves c (leaf_commit (c_data (l2_justify_qc l))) = Some p \<longrightarrow>
        l2_view_number p < l2_view_number l)"

lemma parent_leaf_info_eq_Some:
  "parent_leaf_info l k c = Some i \<Longrightarrow>
     saved_leaves c (leaf_commit (c_data (l2_justify_qc l))) = Some (li_leaf i) \<and>
     fst (state_and_delta (c_view_number (l2_justify_qc l)) c) = Some (li_state i)"
  by (auto simp: parent_leaf_info_def Let_def split: option.splits prod.splits)

lemma decide_loop_ends:
  assumes "justify_older c"
  shows "\<exists>cm. saved_leaves c cm = Some (li_leaf i) \<Longrightarrow> \<exists>out. decide_loop ops c k ex dv (Some i) res txns = Some out"
proof (induction "unat (l2_view_number (li_leaf i))" arbitrary: i res txns rule: less_induct)
  case less
  obtain cm where cm: "saved_leaves c cm = Some (li_leaf i)" using less.prems by blast
  show ?case
  proof (cases "last_decided_view c < l2_view_number (li_leaf i)")
    case go: True
    show ?thesis
    proof (cases "parent_leaf_info (li_leaf i) k c")
      case None
      then show ?thesis using go by (subst decide_loop.simps) (simp add: Let_def, subst decide_loop.simps, simp)
    next
      case (Some j)
      from parent_leaf_info_eq_Some [OF this]
      have j: "saved_leaves c (leaf_commit (c_data (l2_justify_qc (li_leaf i)))) = Some (li_leaf j)" by simp
      then have "unat (l2_view_number (li_leaf j)) < unat (l2_view_number (li_leaf i))"
        using assms cm unfolding justify_older_def word_order by blast
      then have "\<exists>out. decide_loop ops c k ex dv (Some j) r t = Some out" for r t
        using less.hyps [of j] j by blast
      then show ?thesis
        using Some go by (subst decide_loop.simps) (simp add: Let_def)
    qed
  qed (subst decide_loop.simps, simp)
qed

lemma decide_from_proposal_2_cases:
  fixes proposal c k
  defines "p \<equiv> parent_leaf_info (from_quorum_proposal proposal) k c"
  defines "g \<equiv> Option.bind p (\<lambda>i. parent_leaf_info (li_leaf i) k c)"
  assumes "justify_older c"
  obtains (no_chain) res where "decide_from_proposal_2 ops hooks proposal c ex k we m = Some (res, m)"
      and "res = outcome_default\<lparr>new_locked_view_number := Some (c_view_number (q2_justify_qc (qw_proposal proposal)))\<rparr>"
      and "\<And>pi gi. p = Some pi \<Longrightarrow> g = Some gi \<Longrightarrow> l2_view_number (li_leaf gi) + 1 \<noteq> l2_view_number (li_leaf pi)"
  | (chain) pi gi res m' where "decide_from_proposal_2 ops hooks proposal c ex k we m = Some (res, m')"
      and "p = Some pi" and "g = Some gi" and "l2_view_number (li_leaf gi) + 1 = l2_view_number (li_leaf pi)"
      and "new_decided_view_number res = Some (l2_view_number (li_leaf gi))"
      and "new_locked_view_number res = Some (c_view_number (q2_justify_qc (qw_proposal proposal)))"
      and "new_decide_qc res = Some (l2_justify_qc (li_leaf pi))"
      and "linked_down c k (last_decided_view c) (Some gi) (leaf_views res)"
      and "included_txns res = (let t = (\<Union>i \<in> set (leaf_views res). leaf_txns ops (with_saved_payload c (li_leaf i)))
                                in if t = {} then None else Some t)"
proof (cases "\<exists>pi gi. p = Some pi \<and> g = Some gi \<and> l2_view_number (li_leaf gi) + 1 = l2_view_number (li_leaf pi)")
  case True
  then obtain pi gi where pg: "p = Some pi" "g = Some gi" "l2_view_number (li_leaf gi) + 1 = l2_view_number (li_leaf pi)" by blast
  then have gp: "parent_leaf_info (li_leaf pi) k c = Some gi" by (simp add: g_def)
  let ?res = "outcome_default\<lparr>new_locked_view_number := Some (c_view_number (q2_justify_qc (qw_proposal proposal))),
     new_decide_qc := Some (l2_justify_qc (li_leaf pi)), new_decided_view_number := Some (l2_view_number (li_leaf gi))\<rparr>"
  obtain res txns where loop: "decide_loop ops c k ex (l2_view_number (li_leaf gi)) (Some gi) ?res {} = Some (res, txns)"
    using decide_loop_ends [OF assms(3)] parent_leaf_info_eq_Some [OF gp] by (metis surj_pair)
  show thesis
    using loop_spec_def [of ops c k "Some gi" ?res "{}" "(res, txns)"] decide_loop_spec [OF loop] loop pg gp
    by (intro chain [of "if txns = {} then res else res\<lparr>included_txns := Some txns\<rparr>" _ pi gi])
       (auto simp: decide_from_proposal_2_def from_quorum_proposal_def outcome_default_def p_def Let_def)
next
  case False
  then show thesis
    by (intro no_chain) (auto simp: decide_from_proposal_2_def p_def g_def from_quorum_proposal_def Let_def split: option.splits)
qed

section \<open>What the three-chain rule decides\<close>

lemma visit_loop_rule:
  assumes "visit_loop c t fin f s cm = Some (s', r)" and "I s cm"
    and step: "\<And>s cm l st d s1. I s cm \<Longrightarrow> saved_leaves c cm = Some l \<Longrightarrow> f s l st d = (s1, True) \<Longrightarrow> I s1 (l2_parent_commitment l)"
    and stop: "\<And>s cm l st d s1. I s cm \<Longrightarrow> saved_leaves c cm = Some l \<Longrightarrow> f s l st d = (s1, False) \<Longrightarrow> Q s1"
    and finish: "\<And>s cm. I s cm \<Longrightarrow> Q s"
  shows "Q s'"
proof -
  have "c' = c \<longrightarrow> f' = f \<longrightarrow> I s cm \<longrightarrow> Q (fst out)" if "visit_loop c' t fin f' s cm = Some out" for c' t fin f' s cm out
  proof (rule visit_loop.raw_induct [where P = "\<lambda>c' t fin f' s cm out. c' = c \<longrightarrow> f' = f \<longrightarrow> I s cm \<longrightarrow> Q (fst out)", OF _ that], intro impI)
    fix rec c' t fin f' s cm out
    assume IH: "\<And>c' t fin f' s cm out. rec c' t fin f' s cm = Some out \<Longrightarrow> c' = c \<longrightarrow> f' = f \<longrightarrow> I s cm \<longrightarrow> Q (fst out)"
      and eq: "(case saved_leaves c' cm of
        None \<Rightarrow> Some (s, Err (MissingLeaf cm))
      | Some l \<Rightarrow>
          (case state_and_delta (l2_view_number l) c' of
             (None, _) \<Rightarrow> Some (s, Err (InvalidState ''View state does not exist in state map''))
           | (Some st, delta) \<Rightarrow>
               if t = Exclusive (l2_view_number l) then
                 Some (s, if fin then Ok () else Err (MissingLeaf cm))
               else
                 (case f' s l st delta of
                    (s', go_on) \<Rightarrow>
                      if \<not> go_on then Some (s', Ok ())
                      else if t = Inclusive (l2_view_number l) then
                        Some (s', if fin then Ok () else Err (MissingLeaf (l2_parent_commitment l)))
                      else rec c' t fin f' s' (l2_parent_commitment l)))) = Some out"
      and [simp]: "c' = c" "f' = f" and I: "I s cm"
    show "Q (fst out)"
    proof (cases "saved_leaves c cm")
      case None
      then show ?thesis using eq finish [OF I] by auto
    next
      case (Some l)
      obtain sto d where sd: "state_and_delta (l2_view_number l) c = (sto, d)" by fastforce
      show ?thesis
      proof (cases "sto = None \<or> t = Exclusive (l2_view_number l)")
        case True
        then show ?thesis using eq Some sd finish [OF I] by (auto split: option.splits)
      next
        case False
        then obtain st where st: "sto = Some st" by auto
        obtain s1 b where f: "f s l st d = (s1, b)" by fastforce
        show ?thesis
          using eq Some sd st False f stop [OF I Some, of st d s1] step [OF I Some, of st d s1] finish [of s1 "l2_parent_commitment l"] IH
          by (cases b) (auto split: if_splits)
      qed
    qed
  qed
  from this [OF assms(1)] assms(2) show ?thesis by simp
qed

text \<open>The reported leaves, from a commitment on, linked by parent commitments.\<close>

fun parent_linked :: "Consensus \<Rightarrow> commitment \<Rightarrow> LeafInfo list \<Rightarrow> commitment \<Rightarrow> bool" where
  "parent_linked c cm [] cm' = (cm = cm')"
| "parent_linked c cm (i # is) cm' =
     (case saved_leaves c cm of None \<Rightarrow> False
      | Some l \<Rightarrow> li_leaf i = with_saved_payload c l \<and> parent_linked c (l2_parent_commitment l) is cm')"

lemma parent_linked_snoc:
  "parent_linked c cm is cm' \<Longrightarrow> saved_leaves c cm' = Some l \<Longrightarrow> li_leaf i = with_saved_payload c l \<Longrightarrow>
   parent_linked c cm (is @ [i]) (l2_parent_commitment l)"
  by (induction "is" arbitrary: cm) (auto split: option.splits)

definition three_chain :: "Consensus \<Rightarrow> u64 \<Rightarrow> commitment \<Rightarrow> LeafChainTraversalOutcome \<Rightarrow> commitment \<Rightarrow> bool" where
  "three_chain c view cm1 res cm \<longleftrightarrow>
     (\<exists>l1 l2 l3. saved_leaves c cm1 = Some l1 \<and> saved_leaves c (l2_parent_commitment l1) = Some l2 \<and>
        saved_leaves c (l2_parent_commitment l2) = Some l3 \<and>
        view = l2_view_number l1 + 1 \<and> l2_view_number l1 = l2_view_number l2 + 1 \<and> l2_view_number l2 = l2_view_number l3 + 1 \<and>
        new_locked_view_number res = Some (l2_view_number l2) \<and> new_decide_qc res = Some (l2_justify_qc l2) \<and>
        new_decided_view_number res = Some (l2_view_number l3) \<and> leaf_views res \<noteq> [] \<and>
        parent_linked c (l2_parent_commitment l2) (leaf_views res) cm)"

text \<open>Where the walk stands: the length of the chain tells which leaves have been seen.\<close>

definition chain_at :: "Consensus \<Rightarrow> u64 \<Rightarrow> commitment \<Rightarrow> chain_state \<Rightarrow> commitment \<Rightarrow> bool" where
  "chain_at c view cm1 s cm =
     (case s of (lv, n, res) \<Rightarrow>
        if n = 0 then lv = view \<and> cm = cm1 \<and> res = outcome_default
        else if n = 1 then res = outcome_default \<and>
          (\<exists>l1. saved_leaves c cm1 = Some l1 \<and> view = l2_view_number l1 + 1 \<and> lv = l2_view_number l1 \<and> cm = l2_parent_commitment l1)
        else if n = 2 then
          (\<exists>l1 l2. saved_leaves c cm1 = Some l1 \<and> view = l2_view_number l1 + 1 \<and> saved_leaves c (l2_parent_commitment l1) = Some l2 \<and>
             l2_view_number l1 = l2_view_number l2 + 1 \<and> lv = l2_view_number l2 \<and> cm = l2_parent_commitment l2 \<and>
             res = outcome_default\<lparr>new_locked_view_number := Some (l2_view_number l2), new_decide_qc := Some (l2_justify_qc l2)\<rparr>)
        else n = 3 \<and> three_chain c view cm1 res cm)"

lemma record_decided_simps [simp]:
  "new_locked_view_number (record_decided ops c k ex view l st d res) = new_locked_view_number res"
  "new_decided_view_number (record_decided ops c k ex view l st d res) = new_decided_view_number res"
  "new_decide_qc (record_decided ops c k ex view l st d res) = new_decide_qc res"
  by (simp_all add: record_decided_def Let_def)

lemma record_decided_leaf_views:
  "\<exists>i. leaf_views (record_decided ops c k ex view l st d res) = leaf_views res @ [i] \<and> li_leaf i = with_saved_payload c l"
  by (auto simp: record_decided_def Let_def)

lemma three_chain_step:
  assumes "three_chain c view cm1 res cm" and "saved_leaves c cm = Some l"
  shows "three_chain c view cm1 (record_decided ops c k ex v l st d res) (l2_parent_commitment l)"
proof -
  obtain i where "leaf_views (record_decided ops c k ex v l st d res) = leaf_views res @ [i]" "li_leaf i = with_saved_payload c l"
    using record_decided_leaf_views by blast
  then show ?thesis
    using assms parent_linked_snoc [of c _ "leaf_views res" cm l i] unfolding three_chain_def by fastforce
qed

lemma three_chain_decides: "three_chain c view cm1 res cm \<Longrightarrow> new_decided_view_number res \<noteq> None"
  by (auto simp: three_chain_def)

lemma three_chain_start:
  assumes "saved_leaves c cm1 = Some l1" and "saved_leaves c (l2_parent_commitment l1) = Some l2" and "saved_leaves c (l2_parent_commitment l2) = Some l3"
    and "view = l2_view_number l1 + 1" and "l2_view_number l1 = l2_view_number l2 + 1" and "l2_view_number l2 = l2_view_number l3 + 1"
  shows "three_chain c view cm1
     (record_decided ops c k ex v l3 st d (outcome_default\<lparr>new_locked_view_number := Some (l2_view_number l2),
        new_decide_qc := Some (l2_justify_qc l2), new_decided_view_number := Some (l2_view_number l3)\<rparr>)) (l2_parent_commitment l3)"
proof -
  let ?r = "outcome_default\<lparr>new_locked_view_number := Some (l2_view_number l2), new_decide_qc := Some (l2_justify_qc l2),
    new_decided_view_number := Some (l2_view_number l3)\<rparr>"
  obtain i where "leaf_views (record_decided ops c k ex v l3 st d ?r) = [i]" "li_leaf i = with_saved_payload c l3"
    using record_decided_leaf_views [of ops c k ex v l3 st d ?r] by (auto simp: outcome_default_def)
  then show ?thesis using assms unfolding three_chain_def by (intro exI [of _ l1] exI [of _ l2] exI [of _ l3]) simp
qed

lemma decide_visitor_go:
  assumes "decide_visitor ops c k ex v (lv, n, res) l st d = (s1, True)"
  shows "new_decided_view_number res = None \<Longrightarrow> lv = l2_view_number l + 1"
    and "new_decided_view_number res = None \<Longrightarrow> n = 0 \<Longrightarrow> s1 = (l2_view_number l, 1, res)"
    and "new_decided_view_number res = None \<Longrightarrow> n = 1 \<Longrightarrow> s1 = (l2_view_number l, 2,
           res\<lparr>new_locked_view_number := Some (l2_view_number l), new_decide_qc := Some (l2_justify_qc l)\<rparr>)"
    and "new_decided_view_number res = None \<Longrightarrow> n = 2 \<Longrightarrow> s1 = (l2_view_number l, 3,
           record_decided ops c k ex v l st d (res\<lparr>new_decided_view_number := Some (l2_view_number l)\<rparr>))"
    and "new_decided_view_number res \<noteq> None \<Longrightarrow> s1 = (lv, n, record_decided ops c k ex v l st d res)"
  using assms by (auto simp: decide_visitor_def extend_chain_def Let_def split: if_splits)

lemma outcome_default_simps [simp]:
  "new_decided_view_number outcome_default = None" "leaf_views outcome_default = []"
  by (simp_all add: outcome_default_def)

lemma chain_at_lengths:
  "chain_at c view cm1 (lv, 1, res) cm \<longleftrightarrow> res = outcome_default \<and>
     (\<exists>l1. saved_leaves c cm1 = Some l1 \<and> view = l2_view_number l1 + 1 \<and> lv = l2_view_number l1 \<and> cm = l2_parent_commitment l1)"
  "chain_at c view cm1 (lv, 2, res) cm \<longleftrightarrow>
     (\<exists>l1 l2. saved_leaves c cm1 = Some l1 \<and> view = l2_view_number l1 + 1 \<and> saved_leaves c (l2_parent_commitment l1) = Some l2 \<and>
        l2_view_number l1 = l2_view_number l2 + 1 \<and> lv = l2_view_number l2 \<and> cm = l2_parent_commitment l2 \<and>
        res = outcome_default\<lparr>new_locked_view_number := Some (l2_view_number l2), new_decide_qc := Some (l2_justify_qc l2)\<rparr>)"
  "chain_at c view cm1 (lv, 3, res) cm \<longleftrightarrow> three_chain c view cm1 res cm"
  by (simp_all add: chain_at_def)

lemma chain_at_length:
  "chain_at c view cm1 (lv, n, res) cm \<Longrightarrow> n = 0 \<or> n = 1 \<or> n = 2 \<or> n = 3 \<and> three_chain c view cm1 res cm"
  unfolding chain_at_def prod.case by (simp only: split: if_splits) blast+

lemma chain_at_step:
  assumes at: "chain_at c view cm1 s cm" and l: "saved_leaves c cm = Some l" and go: "decide_visitor ops c k ex v s l st d = (s1, True)"
  shows "chain_at c view cm1 s1 (l2_parent_commitment l)"
proof -
  obtain lv n res where s: "s = (lv, n, res)" by (metis surj_pair)
  note visit = decide_visitor_go [OF go [unfolded s]]
  consider "n = 0" | "n = 1" | "n = 2" | "n = 3" and "three_chain c view cm1 res cm"
    using at chain_at_length s by blast
  then show ?thesis
  proof cases
    case 1
    then have "lv = view" "cm = cm1" "res = outcome_default" using at by (simp_all add: chain_at_def s)
    then show ?thesis using visit(1,2) 1 l by (auto simp: chain_at_def)
  next
    case 2
    then obtain l1 where "saved_leaves c cm1 = Some l1" "view = l2_view_number l1 + 1" "lv = l2_view_number l1"
        "cm = l2_parent_commitment l1" "res = outcome_default"
      using at unfolding s 2 chain_at_lengths by blast
    then show ?thesis using visit(1,3) 2 l by (simp add: chain_at_lengths)
  next
    case 3
    then obtain l1 l2 where l12: "saved_leaves c cm1 = Some l1" "saved_leaves c (l2_parent_commitment l1) = Some l2" "cm = l2_parent_commitment l2"
        "view = l2_view_number l1 + 1" "l2_view_number l1 = l2_view_number l2 + 1" "lv = l2_view_number l2"
      and res: "res = outcome_default\<lparr>new_locked_view_number := Some (l2_view_number l2), new_decide_qc := Some (l2_justify_qc l2)\<rparr>"
      using at unfolding s 3 chain_at_lengths by blast
    then have lv: "l2_view_number l2 = l2_view_number l + 1" using visit(1) by simp
    show ?thesis
      using three_chain_start [OF l12(1,2) l [unfolded l12(3)] l12(4,5) lv, of ops k ex v st d] visit(4) 3 res
      by (simp add: chain_at_def)
  next
    case 4
    then show ?thesis
      using three_chain_step [OF 4(2) l] three_chain_decides [OF 4(2)] visit(5) by (simp add: chain_at_def)
  qed
qed

lemma chain_at_init: "chain_at c view cm (view, 0, outcome_default) cm"
  by (simp add: chain_at_def)

lemma chain_at_stop:
  assumes "chain_at c view cm1 s cm" and "decide_visitor ops c k ex v s l st d = (s1, False)"
  shows "s1 = s"
  using assms(2) by (auto simp: decide_visitor_def Let_def split: if_splits prod.splits)

lemma chain_at_decided:
  "chain_at c view cm1 (lv, n, res) cm \<Longrightarrow> new_decided_view_number res = Some v \<Longrightarrow> three_chain c view cm1 res cm"
  by (auto simp: chain_at_def outcome_default_def split: if_splits)

lemma chain_visit_sound:
  assumes run: "visit_loop c t fin (decide_visitor ops c k ex v) (view, 0, outcome_default) cm1 = Some ((lv, n, res), r)"
  shows "new_decided_view_number res = None \<or> (\<exists>cm. three_chain c view cm1 res cm)"
proof -
  let ?Q = "\<lambda>(lv, n, res). new_decided_view_number res = None \<or> (\<exists>cm. three_chain c view cm1 res cm)"
  have "?Q (lv, n, res)"
  proof (rule visit_loop_rule [OF run, where I = "chain_at c view cm1" and Q = ?Q])
    show Q: "?Q s" if "chain_at c view cm1 s cm" for s cm
      using that chain_at_decided by (cases s) (fastforce simp del: not_None_eq)
    show "?Q s1" if "chain_at c view cm1 s cm" "decide_visitor ops c k ex v s l st d = (s1, False)" for s cm l st d s1
      using Q [OF that(1)] chain_at_stop [OF that] by simp
  qed (rule chain_at_init, erule (2) chain_at_step)
  then show ?thesis by simp
qed

text \<open>Three leaves at consecutive views below a view, all above the last decided view and with states.\<close>

definition chain_leaves :: "Consensus \<Rightarrow> u64 \<Rightarrow> commitment \<Rightarrow> bool" where
  "chain_leaves c view cm1 \<longleftrightarrow>
     (\<exists>l1 l2 l3. saved_leaves c cm1 = Some l1 \<and> saved_leaves c (l2_parent_commitment l1) = Some l2 \<and>
        saved_leaves c (l2_parent_commitment l2) = Some l3 \<and> map l2_view_number [l1, l2, l3] = [view - 1, view - 2, view - 3] \<and>
        (\<forall>l \<in> {l1, l2, l3}. has_state c l \<and> l2_view_number l \<noteq> last_decided_view c))"

definition consecutive_chain :: "Consensus \<Rightarrow> u64 \<Rightarrow> u64 \<Rightarrow> bool" where
  "consecutive_chain c view parent_view =
     (case Option.bind (bt_get parent_view (validated_state_map c)) leaf_commitment of
        None \<Rightarrow> False | Some cm1 \<Rightarrow> chain_leaves c view cm1)"

lemma visit_loop_step:
  assumes "saved_leaves c cm = Some l" and "has_state c l" and "l2_view_number l \<noteq> a"
  obtains st d where "\<And>f s s1. f s l st d = (s1, True) \<Longrightarrow>
    visit_loop c (Exclusive a) fin f s cm = visit_loop c (Exclusive a) fin f s1 (l2_parent_commitment l)"
proof -
  obtain st d where "state_and_delta (l2_view_number l) c = (Some st, d)"
    using assms(2) unfolding has_state_def by (metis fst_conv not_None_eq surj_pair)
  then have "visit_loop c (Exclusive a) fin f s cm = visit_loop c (Exclusive a) fin f s1 (l2_parent_commitment l)"
    if "f s l st d = (s1, True)" for f s s1
    using that assms by (subst visit_loop.simps) simp
  then show thesis using that by blast
qed

lemma decide_visitor_goes:
  "new_decided_view_number res = None \<Longrightarrow> lv = l2_view_number l + 1 \<Longrightarrow>
   decide_visitor ops c k ex v (lv, 0, res) l st d = ((l2_view_number l, 1, res), True)"
  "new_decided_view_number res = None \<Longrightarrow> lv = l2_view_number l + 1 \<Longrightarrow>
   decide_visitor ops c k ex v (lv, 1, res) l st d =
     ((l2_view_number l, 2, res\<lparr>new_locked_view_number := Some (l2_view_number l), new_decide_qc := Some (l2_justify_qc l)\<rparr>), True)"
  "new_decided_view_number res = None \<Longrightarrow> lv = l2_view_number l + 1 \<Longrightarrow>
   decide_visitor ops c k ex v (lv, 2, res) l st d =
     ((l2_view_number l, 3, record_decided ops c k ex v l st d (res\<lparr>new_decided_view_number := Some (l2_view_number l)\<rparr>)), True)"
  "new_decided_view_number res = Some w \<Longrightarrow>
   decide_visitor ops c k ex v (lv, n, res) l st d = ((lv, n, record_decided ops c k ex v l st d res), True)"
  by (simp_all add: decide_visitor_def extend_chain_def Let_def)

lemma decided_stays:
  assumes run: "visit_loop c t fin (decide_visitor ops c k ex v) (lv, n, res) cm = Some ((lv', n', res'), r)"
    and "new_decided_view_number res = Some w"
  shows "new_decided_view_number res' = Some w"
proof -
  let ?Q = "\<lambda>(lv, n, res). new_decided_view_number res = Some w"
  have "?Q (lv', n', res')"
    by (rule visit_loop_rule [OF run, where I = "\<lambda>s cm. ?Q s" and Q = ?Q])
       (use assms(2) in \<open>auto simp: decide_visitor_goes\<close>)
  then show ?thesis by simp
qed

lemma chain_visit_complete:
  assumes run: "visit_loop c (Exclusive (last_decided_view c)) fin (decide_visitor ops c k ex v) (view, 0, outcome_default) cm1 = Some ((lv, n, res), r)"
    and "chain_leaves c view cm1"
  shows "new_decided_view_number res = Some (view - 3)"
proof -
  let ?f = "decide_visitor ops c k ex v" and ?a = "last_decided_view c"
  obtain l1 l2 l3 where l: "saved_leaves c cm1 = Some l1" "saved_leaves c (l2_parent_commitment l1) = Some l2"
      "saved_leaves c (l2_parent_commitment l2) = Some l3"
    and views: "l2_view_number l1 = view - 1" "l2_view_number l2 = view - 2" "l2_view_number l3 = view - 3"
    and ok: "has_state c l1" "has_state c l2" "has_state c l3" "l2_view_number l1 \<noteq> ?a" "l2_view_number l2 \<noteq> ?a" "l2_view_number l3 \<noteq> ?a"
    using assms(2) unfolding chain_leaves_def by auto
  have succ: "view = l2_view_number l1 + 1" "l2_view_number l1 = l2_view_number l2 + 1" "l2_view_number l2 = l2_view_number l3 + 1"
    unfolding views by simp_all
  let ?r2 = "outcome_default\<lparr>new_locked_view_number := Some (l2_view_number l2), new_decide_qc := Some (l2_justify_qc l2)\<rparr>"
  obtain st1 d1 where 1: "\<And>s s1. ?f s l1 st1 d1 = (s1, True) \<Longrightarrow>
      visit_loop c (Exclusive ?a) fin ?f s cm1 = visit_loop c (Exclusive ?a) fin ?f s1 (l2_parent_commitment l1)"
    using visit_loop_step [OF l(1) ok(1,4), of fin] by metis
  obtain st2 d2 where 2: "\<And>s s1. ?f s l2 st2 d2 = (s1, True) \<Longrightarrow>
      visit_loop c (Exclusive ?a) fin ?f s (l2_parent_commitment l1) = visit_loop c (Exclusive ?a) fin ?f s1 (l2_parent_commitment l2)"
    using visit_loop_step [OF l(2) ok(2,5), of fin] by metis
  obtain st3 d3 where 3: "\<And>s s1. ?f s l3 st3 d3 = (s1, True) \<Longrightarrow>
      visit_loop c (Exclusive ?a) fin ?f s (l2_parent_commitment l2) = visit_loop c (Exclusive ?a) fin ?f s1 (l2_parent_commitment l3)"
    using visit_loop_step [OF l(3) ok(3,6), of fin] by metis
  have "new_decided_view_number ?r2 = None" by simp
  note run' = run [unfolded 1 [OF decide_visitor_goes(1) [OF outcome_default_simps(1) succ(1)]]
      2 [OF decide_visitor_goes(2) [OF outcome_default_simps(1) succ(2)]] 3 [OF decide_visitor_goes(3) [OF this succ(3)]]]
  from decided_stays [OF run'] show ?thesis by (simp add: views)
qed

lemma linked_down_saved:
  "linked_down c k a start is \<Longrightarrow> (case start of None \<Rightarrow> True | Some i \<Rightarrow> \<exists>cm. saved_leaves c cm = Some (li_leaf i)) \<Longrightarrow>
   i \<in> set is \<Longrightarrow> \<exists>cm. saved_leaves c cm = Some (li_leaf i)"
proof (induction "is" arbitrary: start)
  case (Cons j js)
  have "case parent_leaf_info (li_leaf j) k c of None \<Rightarrow> True | Some i \<Rightarrow> \<exists>cm. saved_leaves c cm = Some (li_leaf i)"
    using parent_leaf_info_eq_Some [of "li_leaf j" k c] by (auto split: option.split)
  then show ?case using Cons by auto
qed simp

text \<open>
  The leaves that the two-chain rule reports are the saved leaves as they are: the payload is filled into the
  entry after it was pushed, so a saved payload is never part of what is reported.
\<close>

lemma two_chain_reports_no_payload:
  assumes "justify_older c" and "decide_from_proposal_2 ops hooks proposal c ex k we m = Some (res, m')"
    and "\<forall>cm l. saved_leaves c cm = Some l \<longrightarrow> l2_block_payload l = None" and "i \<in> set (leaf_views res)"
  shows "l2_block_payload (li_leaf i) = None"
proof (rule decide_from_proposal_2_cases [OF assms(1), where proposal = proposal and k = k and ops = ops and hooks = hooks and ex = ex and we = we and m = m])
  fix pi gi res' m''
  assume run: "decide_from_proposal_2 ops hooks proposal c ex k we m = Some (res', m'')"
    and p: "parent_leaf_info (from_quorum_proposal proposal) k c = Some pi"
    and g: "Option.bind (parent_leaf_info (from_quorum_proposal proposal) k c) (\<lambda>i. parent_leaf_info (li_leaf i) k c) = Some gi"
    and down: "linked_down c k (last_decided_view c) (Some gi) (leaf_views res')"
  from p g have "parent_leaf_info (li_leaf pi) k c = Some gi" by simp
  then have "\<exists>cm. saved_leaves c cm = Some (li_leaf gi)" using parent_leaf_info_eq_Some by blast
  with linked_down_saved [OF down] assms(2,3,4) run show ?thesis by fastforce
qed (use assms(2,4) in auto)

section \<open>Properties\<close>

text \<open>
  C4. \<open>decide_from_proposal_2\<close> always returns when certificates point to older leaves.  It locks the view of the
  proposal's certificate, and it decides the grandparent's view exactly when grandparent and parent are saved
  and have consecutive views.  It then reports the certificate of the grandparent, the unbroken chain of leaves
  from the grandparent down to the last decided view, newest first, and the transactions of all of them.
\<close>

theorem decide_two_chain:
  assumes "justify_older c"
  shows "\<exists>res m'. decide_from_proposal_2 ops hooks proposal c ex k we m = Some (res, m') \<and>
     new_locked_view_number res = Some (c_view_number (q2_justify_qc (qw_proposal proposal))) \<and>
     (case Option.bind (parent_leaf_info (from_quorum_proposal proposal) k c) (\<lambda>p. map_option (Pair p) (parent_leaf_info (li_leaf p) k c)) of
        None \<Rightarrow> new_decided_view_number res = None
      | Some (p, g) \<Rightarrow>
          if l2_view_number (li_leaf g) + 1 = l2_view_number (li_leaf p) then
            new_decided_view_number res = Some (l2_view_number (li_leaf g)) \<and> new_decide_qc res = Some (l2_justify_qc (li_leaf p)) \<and>
            linked_down c k (last_decided_view c) (Some g) (leaf_views res) \<and>
            included_txns res = (let t = (\<Union>i \<in> set (leaf_views res). leaf_txns ops (with_saved_payload c (li_leaf i)))
                                 in if t = {} then None else Some t)
          else new_decided_view_number res = None)"
  by (rule decide_from_proposal_2_cases [OF assms, where proposal = proposal and k = k and ops = ops and hooks = hooks and ex = ex and we = we and m = m])
     (auto split: option.splits bind_splits)

text \<open>
  C5. \<open>decide_from_proposal\<close> returns when parents are older than their children, and when it decides, it
  does so by the three-chain rule: the leaf of the proposal's certificate and its two ancestors are saved and
  have consecutive views ending just below the proposal's, the deepest is decided, the middle one locked, the
  middle one's certificate reported, and the reported leaves are the decided leaf and its ancestors, each with
  its saved payload.  Conversely such a chain above the last decided view, with all states present, is decided.
\<close>

theorem decide_three_chain:
  assumes "parents_older c"
  shows "\<exists>res m'. decide_from_proposal ops hooks proposal c ex k we m = Some (res, m') \<and>
     (new_decided_view_number res = None \<or>
      (\<exists>view cm1 cm. bt_get (c_view_number (q2_justify_qc (qw_proposal proposal))) (validated_state_map c) = Some view \<and>
         leaf_commitment view = Some cm1 \<and> three_chain c (q2_view_number (qw_proposal proposal)) cm1 res cm)) \<and>
     (consecutive_chain c (q2_view_number (qw_proposal proposal)) (c_view_number (q2_justify_qc (qw_proposal proposal))) \<longrightarrow>
        new_decided_view_number res = Some (q2_view_number (qw_proposal proposal) - 3))"
proof -
  let ?pv = "c_view_number (q2_justify_qc (qw_proposal proposal))" and ?v = "q2_view_number (qw_proposal proposal)"
  show ?thesis
  proof (cases "Option.bind (bt_get ?pv (validated_state_map c)) leaf_commitment")
    case None
    then show ?thesis
      by (auto simp: decide_from_proposal_def visit_leaf_ancestors_def consecutive_chain_def Let_def split: option.splits bind_splits)
  next
    case (Some cm1)
    then obtain view where view: "bt_get ?pv (validated_state_map c) = Some view" "leaf_commitment view = Some cm1"
      by (auto split: bind_splits)
    obtain lv n res r where run: "visit_loop c (Exclusive (last_decided_view c)) True (decide_visitor ops c k ex ?v) (?v, 0, outcome_default) cm1 = Some ((lv, n, res), r)"
      using visit_loop_ends [OF assms] by (metis surj_pair)
    show ?thesis
      using run chain_visit_sound [OF run] chain_visit_complete [OF run] view
      by (auto simp: decide_from_proposal_def visit_leaf_ancestors_def consecutive_chain_def Let_def)
  qed
qed

text \<open>A chain of leaves at consecutive views, and a proposal that extends it.\<close>

primrec chain_leaf :: "crypto \<Rightarrow> nat \<Rightarrow> Leaf2" where
  "chain_leaf cr 0 = genesis_leaf"
| "chain_leaf cr (Suc n) = toy_leaf (word_of_nat (Suc n)) (toy_qc (word_of_nat n) (commit_Leaf2 cr (chain_leaf cr n)))"

definition chain_consensus :: "crypto \<Rightarrow> nat \<Rightarrow> Consensus" where
  "chain_consensus cr n =
     (genesis_consensus cr)\<lparr>validated_state_map := map (\<lambda>i. (word_of_nat i, LeafView (commit_Leaf2 cr (chain_leaf cr i)) 0 (Some 0) None)) [0..<Suc n],
        saved_leaves := map_of (map (\<lambda>i. (commit_Leaf2 cr (chain_leaf cr i), chain_leaf cr i)) [0..<Suc n])\<rparr>"

definition toy_proposal :: "u64 \<Rightarrow> QuorumCertificate2 \<Rightarrow> QuorumProposalWrapper" where
  "toy_proposal v qc = \<lparr>qw_proposal = \<lparr>q2_block_header = toy_header v, q2_view_number = v, q2_epoch = None, q2_justify_qc = qc,
     q2_next_epoch_justify_qc = None, q2_upgrade_certificate = None, q2_view_change_evidence = None, q2_next_drb_result = None\<rparr>\<rparr>"

declare chain_leaf.simps(2) [simp del]

lemma chain_leaf_view [simp]: "l2_view_number (chain_leaf cr n) = word_of_nat n"
  by (cases n) (simp_all add: chain_leaf.simps genesis_leaf_def toy_leaf_def)

lemma chain_leaf_inj:
  assumes "i < 2 ^ 64" and "j < 2 ^ 64"
  shows "commit_Leaf2 inj_crypto (chain_leaf inj_crypto i) = commit_Leaf2 inj_crypto (chain_leaf inj_crypto j) \<longleftrightarrow> i = j"
proof
  assume "commit_Leaf2 inj_crypto (chain_leaf inj_crypto i) = commit_Leaf2 inj_crypto (chain_leaf inj_crypto j)"
  from commit_Leaf2_view [OF binding_inj_crypto this] have "(word_of_nat i :: u64) = word_of_nat j" by simp
  then show "i = j" using assms by (simp add: word_unat_eq_iff unsigned_of_nat take_bit_nat_eq_self)
qed simp

lemma chain_saved:
  assumes "n < 2 ^ 64"
  shows "i \<le> n \<Longrightarrow> saved_leaves (chain_consensus inj_crypto n) (commit_Leaf2 inj_crypto (chain_leaf inj_crypto i)) = Some (chain_leaf inj_crypto i)"
    and "saved_leaves (chain_consensus inj_crypto n) cm = Some l \<Longrightarrow>
         \<exists>i \<le> n. l = chain_leaf inj_crypto i \<and> cm = commit_Leaf2 inj_crypto (chain_leaf inj_crypto i)"
proof -
  have "inj_on (\<lambda>i. commit_Leaf2 inj_crypto (chain_leaf inj_crypto i)) {0..<Suc n}"
    using assms chain_leaf_inj by (intro inj_onI) auto
  then have d: "distinct (map (\<lambda>i. commit_Leaf2 inj_crypto (chain_leaf inj_crypto i)) [0..<Suc n])"
    by (simp add: distinct_map del: upt_Suc)
  then show "saved_leaves (chain_consensus inj_crypto n) (commit_Leaf2 inj_crypto (chain_leaf inj_crypto i)) = Some (chain_leaf inj_crypto i)"
    if "i \<le> n" using that by (simp add: chain_consensus_def map_of_eq_Some_iff comp_def image_iff del: upt_Suc) auto
  show "\<exists>i \<le> n. l = chain_leaf inj_crypto i \<and> cm = commit_Leaf2 inj_crypto (chain_leaf inj_crypto i)"
    if "saved_leaves (chain_consensus inj_crypto n) cm = Some l"
    using that by (auto simp: chain_consensus_def less_Suc_eq_le simp del: upt_Suc dest!: map_of_SomeD) blast
qed

lemma chain_parent: "l2_parent_commitment (chain_leaf cr n) = leaf_commit (c_data (l2_justify_qc (chain_leaf cr n)))"
  by (cases n) (simp_all add: chain_leaf.simps genesis_leaf_def toy_leaf_def)

lemma chain_older:
  assumes "n < 2 ^ 64"
  shows "parents_older (chain_consensus inj_crypto n)" and "justify_older (chain_consensus inj_crypto n)"
proof -
  have older: "l2_view_number p < l2_view_number l"
    if l: "saved_leaves (chain_consensus inj_crypto n) cm = Some l"
      and p: "saved_leaves (chain_consensus inj_crypto n) (l2_parent_commitment l) = Some p" for cm l p
  proof -
    from chain_saved(2) [OF assms l] obtain i where i: "i \<le> n" "l = chain_leaf inj_crypto i" by blast
    show ?thesis
    proof (cases i)
      case 0
      then have "l2_parent_commitment l = []" using i by (simp add: genesis_leaf_def toy_leaf_def toy_qc_def)
      then show ?thesis using chain_saved(2) [OF assms p] two_view_commits(1) by metis
    next
      case (Suc j)
      then have "l2_parent_commitment l = commit_Leaf2 inj_crypto (chain_leaf inj_crypto j)" using i by (simp add: chain_leaf.simps toy_leaf_def toy_qc_def)
      then have "p = chain_leaf inj_crypto j" using p chain_saved(1) [OF assms, of j] i Suc by simp
      then show ?thesis using i Suc assms by (simp add: word_less_nat_alt unsigned_of_nat take_bit_nat_eq_self del: of_nat_Suc)
    qed
  qed
  then show "parents_older (chain_consensus inj_crypto n)" unfolding parents_older_def by blast
  from older show "justify_older (chain_consensus inj_crypto n)"
    unfolding justify_older_def using chain_saved(2) [OF assms] chain_parent by metis
qed

lemma chain_state:
  assumes "i \<le> n" and "n < 2 ^ 64"
  shows "state_and_delta (word_of_nat i) (chain_consensus cr n) = (Some 0, Some 0)"
    and "bt_get (word_of_nat i) (validated_state_map (chain_consensus cr n)) = Some (LeafView (commit_Leaf2 cr (chain_leaf cr i)) 0 (Some 0) None)"
proof -
  have "inj_on (word_of_nat :: nat \<Rightarrow> u64) {0..<Suc n}"
    using assms(2) by (intro inj_onI) (simp add: word_unat_eq_iff unsigned_of_nat take_bit_nat_eq_self)
  then have "distinct (map (word_of_nat :: nat \<Rightarrow> u64) [0..<Suc n])" by (simp add: distinct_map del: upt_Suc)
  then show get: "bt_get (word_of_nat i) (validated_state_map (chain_consensus cr n)) = Some (LeafView (commit_Leaf2 cr (chain_leaf cr i)) 0 (Some 0) None)"
    using assms(1) by (simp add: chain_consensus_def bt_get_def map_of_eq_Some_iff comp_def image_iff del: upt_Suc) auto
  then show "state_and_delta (word_of_nat i) (chain_consensus cr n) = (Some 0, Some 0)" by (simp add: state_and_delta_def)
qed

lemma chain_parent_info:
  assumes "n < 2 ^ 64" "i \<le> n" and "l2_justify_qc l = toy_qc (word_of_nat i) (commit_Leaf2 inj_crypto (chain_leaf inj_crypto i))"
  shows "parent_leaf_info l k (chain_consensus inj_crypto n) =
     Some \<lparr>li_leaf = chain_leaf inj_crypto i, li_state = 0, li_delta = Some 0, li_vid_share = None\<rparr>"
  using chain_saved(1) [OF assms(1,2)] chain_state(1) [OF assms(2,1)] assms(3)
  by (simp add: parent_leaf_info_def toy_qc_def Let_def) (simp add: chain_consensus_def genesis_consensus_def consensus_new_def bt_get_def)

definition toy_ops :: payload_ops where
  "toy_ops = \<lparr>from_transactions = (\<lambda>ts st. Some (Payload (map word_of_nat ts), [])), from_bytes = (\<lambda>b md. Payload b),
     empty_payload = (Payload [], []), transactions = (\<lambda>p md. map unat (encode p)), commit_transaction = (\<lambda>t. [word_of_nat t]),
     builder_commitment = (\<lambda>p md. encode p), header_genesis = (\<lambda>pc bc md. toy_header 0)\<rparr>"

lemma chain_qc:
  "l2_justify_qc (chain_leaf cr (Suc i)) = toy_qc (word_of_nat i) (commit_Leaf2 cr (chain_leaf cr i))"
  "l2_justify_qc (from_quorum_proposal (toy_proposal v q)) = q"
  by (simp_all add: chain_leaf.simps from_quorum_proposal_def toy_proposal_def)

definition toy_membership :: membership where
  "toy_membership = static_membership (static_new [peer 1 1, peer 2 1, peer 3 1, peer 4 1] [])"

lemma chain_infos:
  assumes "i \<le> n" and "n < 2 ^ 64"
  shows "parent_leaf_info (from_quorum_proposal (toy_proposal v (toy_qc (word_of_nat i) (commit_Leaf2 inj_crypto (chain_leaf inj_crypto i))))) k (chain_consensus inj_crypto n) =
       Some \<lparr>li_leaf = chain_leaf inj_crypto i, li_state = 0, li_delta = Some 0, li_vid_share = None\<rparr>"
    and "i = Suc j \<Longrightarrow> parent_leaf_info (chain_leaf inj_crypto i) k (chain_consensus inj_crypto n) =
       Some \<lparr>li_leaf = chain_leaf inj_crypto j, li_state = 0, li_delta = Some 0, li_vid_share = None\<rparr>"
  using chain_parent_info [OF assms(2,1)] chain_parent_info [OF assms(2), of j] assms(1) chain_qc by simp_all

theorem decide_two_chain_witness:
  "\<exists>res m'. decide_from_proposal_2 toy_ops default_hooks (toy_proposal 3 (toy_qc 2 (commit_Leaf2 inj_crypto (chain_leaf inj_crypto 2))))
       (chain_consensus inj_crypto 2) None 2 False toy_membership = Some (res, m') \<and>
     new_locked_view_number res = Some 2 \<and> new_decided_view_number res = Some 1 \<and> map (l2_view_number \<circ> li_leaf) (leaf_views res) = [1]"
proof -
  let ?c = "chain_consensus inj_crypto 2" and ?i = "\<lambda>i. \<lparr>li_leaf = chain_leaf inj_crypto i, li_state = 0, li_delta = Some 0, li_vid_share = None\<rparr> :: LeafInfo"
  let ?p = "toy_proposal 3 (toy_qc 2 (commit_Leaf2 inj_crypto (chain_leaf inj_crypto 2)))"
  have infos: "parent_leaf_info (from_quorum_proposal ?p) 2 ?c = Some (?i 2)"
      "parent_leaf_info (chain_leaf inj_crypto 2) 2 ?c = Some (?i 1)" "parent_leaf_info (chain_leaf inj_crypto 1) 2 ?c = Some (?i 0)"
  proof -
    have small: "(2 :: nat) < 2 ^ 64" by simp
    show "parent_leaf_info (from_quorum_proposal ?p) 2 ?c = Some (?i 2)"
      using chain_infos(1) [OF order_refl small, of 3 2] unfolding of_nat_numeral .
    show "parent_leaf_info (chain_leaf inj_crypto 2) 2 ?c = Some (?i 1)"
      by (rule chain_infos(2) [OF order_refl small]) simp
    show "parent_leaf_info (chain_leaf inj_crypto 1) 2 ?c = Some (?i 0)"
      by (rule chain_infos(2) [OF _ small]) simp_all
  qed
  have anchor: "last_decided_view ?c = 0" by (simp add: chain_consensus_def genesis_consensus_def consensus_new_def)
  have views: "l2_view_number (chain_leaf inj_crypto 1) + 1 = l2_view_number (chain_leaf inj_crypto 2)" by simp
  from decide_two_chain [OF chain_older(2), of 2 toy_ops default_hooks ?p None 2 False toy_membership]
  obtain res m' where run: "decide_from_proposal_2 toy_ops default_hooks ?p ?c None 2 False toy_membership = Some (res, m')"
      and lock: "new_locked_view_number res = Some (c_view_number (q2_justify_qc (qw_proposal ?p)))"
      and dec: "new_decided_view_number res = Some (l2_view_number (chain_leaf inj_crypto 1)) \<and> linked_down ?c 2 (last_decided_view ?c) (Some (?i 1)) (leaf_views res)"
    unfolding infos bind.simps option.map option.case prod.case LeafInfo.simps if_P [OF views] by auto
  from dec have "leaf_views res = [?i 1]"
    by (cases "leaf_views res"; cases "tl (leaf_views res)") (auto simp: infos anchor simp del: One_nat_def)
  then show ?thesis using run lock dec by (intro exI [of _ res] exI [of _ m']) (simp add: toy_proposal_def toy_qc_def)
qed

lemma toy_chain_leaves:
  "chain_leaves (chain_consensus inj_crypto 3) 4 (commit_Leaf2 inj_crypto (chain_leaf inj_crypto 3))"
  "bt_get 3 (validated_state_map (chain_consensus inj_crypto 3)) = Some (LeafView (commit_Leaf2 inj_crypto (chain_leaf inj_crypto 3)) 0 (Some 0) None)"
  "last_decided_view (chain_consensus inj_crypto 3) = 0" "locked_view (chain_consensus inj_crypto 3) = 0" "(3 :: nat) < 2 ^ 64"
proof -
  let ?c = "chain_consensus inj_crypto 3" and ?l = "chain_leaf inj_crypto"
  show small: "(3 :: nat) < 2 ^ 64" by simp
  have saved: "saved_leaves ?c (commit_Leaf2 inj_crypto (?l i)) = Some (?l i)" "has_state ?c (?l i)" if "i \<le> 3" for i
    using chain_saved(1) [OF small that] chain_state(1) [OF that small] by (simp_all add: has_state_def)
  have parent: "l2_parent_commitment (?l 3) = commit_Leaf2 inj_crypto (?l 2)" "l2_parent_commitment (?l 2) = commit_Leaf2 inj_crypto (?l 1)"
    using chain_qc(1) [of inj_crypto 2] chain_qc(1) [of inj_crypto 1] by (simp_all add: chain_parent toy_qc_def eval_nat_numeral)
  show anchor: "last_decided_view ?c = 0" and "locked_view ?c = 0"
    by (simp_all add: chain_consensus_def genesis_consensus_def consensus_new_def)
  show "chain_leaves ?c 4 (commit_Leaf2 inj_crypto (?l 3))"
    unfolding chain_leaves_def using saved [of 1] saved [of 2] saved [of 3]
    by (intro exI [of _ "?l 3"] exI [of _ "?l 2"] exI [of _ "?l 1"]) (simp add: parent anchor)
  show "bt_get 3 (validated_state_map ?c) = Some (LeafView (commit_Leaf2 inj_crypto (?l 3)) 0 (Some 0) None)"
    using chain_state(2) [OF order_refl small, of inj_crypto] unfolding of_nat_numeral .
qed

theorem decide_three_chain_witness:
  "\<exists>res m'. decide_from_proposal toy_ops default_hooks (toy_proposal 4 (toy_qc 3 (commit_Leaf2 inj_crypto (chain_leaf inj_crypto 3))))
       (chain_consensus inj_crypto 3) None 2 False toy_membership = Some (res, m') \<and> new_decided_view_number res = Some 1"
proof -
  have "consecutive_chain (chain_consensus inj_crypto 3) 4 3" using toy_chain_leaves(1,2) by (simp add: consecutive_chain_def)
  with decide_three_chain [OF chain_older(1) [OF toy_chain_leaves(5)], of toy_ops default_hooks
      "toy_proposal 4 (toy_qc 3 (commit_Leaf2 inj_crypto (chain_leaf inj_crypto 3)))" None 2 False toy_membership]
  show ?thesis by (fastforce simp: toy_proposal_def toy_qc_def)
qed

end
