(* ===== verification/Handlers.thy ===== *)
theory Handlers
  imports Messages Decide
begin

text \<open>
  The setting in which a task handles an event.  A handler reads and changes a state, sends events and stores
  data, and ends with a result, as the \<open>async fn ... -> Result\<close> functions of \<open>crates/task-impls\<close> do: state
  changes and events before an error remain.  \<open>None\<close> stands for a handler that does not return.  What a
  handler does up to its next suspension is one step; handlers run one after the other.
  The collection \<open>wp_simps\<close> computes weakest preconditions of handlers; the proofs about handlers use nothing else.
\<close>

named_theorems wp_simps "weakest preconditions of handler combinators"

section \<open>Storage\<close>

text \<open>
  The operations of the \<open>Storage\<close> trait.  The storage of a node is the list of the operations that
  succeeded; whether the next one succeeds depends on them and is decided by the environment.
\<close>

datatype storage_op =
    Append_vid "VidDisperseShare2 Proposal"
  | Append_da "DaProposal2 Proposal" commitment
  | Append_proposal "QuorumProposalWrapper Proposal"
  | Record_action u64 "epoch option" HotShotAction
  | Update_high_qc QuorumCertificate2
  | Update_next_epoch_high_qc NextEpochQuorumCertificate2
  | Update_undecided_state "commitment \<rightharpoonup> Leaf2" "(u64, ViewInner) btree"
  | Update_decided_upgrade_certificate "UpgradeCertificate option"

type_synonym storage = "storage_op list"

section \<open>Environment and shared state\<close>

text \<open>
  Everything a node is given and never changes: cryptography, versions, VID, the application's types and their
  state transition function, the hooks of the membership, the outcome of storage operations, and the proposals
  that arrive in response to a request before it times out.
\<close>

record env =
  e_crypto :: crypto
  e_versions :: versions
  e_vid :: vid_scheme
  e_ops :: payload_ops
  e_hooks :: epoch_hooks
  e_from_header :: "block_header \<Rightarrow> validated_state"
  e_validate_and_apply_header :: "validated_state \<Rightarrow> Leaf2 \<Rightarrow> block_header \<Rightarrow> vid_common \<Rightarrow> Version \<Rightarrow> u64 \<Rightarrow> (validated_state \<times> state_delta) option"
  e_store_ok :: "storage \<Rightarrow> storage_op \<Rightarrow> bool"
  e_responses :: "u64 \<Rightarrow> QuorumProposalWrapper Proposal list"
  e_key_bytes :: "pubkey \<Rightarrow> bytes"
  e_sha256 :: "bytes \<Rightarrow> bytes"
  e_bincode_signatures :: "qc_type option \<Rightarrow> bytes option"

text \<open>What the tasks of a node share; the state of each task extends it.\<close>

record shared =
  sh_consensus :: Consensus
  sh_membership :: membership
  sh_upgrade_lock :: UpgradeLock
  sh_storage :: storage
  sh_public_key :: pubkey
  sh_private_key :: nat
  sh_epoch_height :: u64

text \<open>An event for the other tasks, an event for the application, or a spawned task with the view it is for.\<close>

datatype effect = Internal HotShotEvent | External Event | Spawn string u64

section \<open>Handlers\<close>

type_synonym ('s, 'a) handler = "'s \<Rightarrow> (('a, error) result \<times> 's \<times> effect list) option"

definition ret :: "'a \<Rightarrow> ('s, 'a) handler" where
  "ret x s = Some (Ok x, s, [])"

definition lift :: "('a, error) result \<Rightarrow> ('s, 'a) handler" where
  "lift r s = Some (r, s, [])"

definition fail :: "error \<Rightarrow> ('s, 'a) handler" where
  "fail e = lift (Err e)"

definition bail :: "string \<Rightarrow> ('s, 'a) handler" where
  "bail txt = fail (Error Unspecified [txt])"

definition gets :: "('s \<Rightarrow> 'a) \<Rightarrow> ('s, 'a) handler" where
  "gets f s = Some (Ok (f s), s, [])"

text \<open>A check of the state, without effect on it.\<close>

definition check_state :: "('s \<Rightarrow> ('a, error) result) \<Rightarrow> ('s, 'a) handler" where
  "check_state f s = Some (f s, s, [])"

definition modify :: "('s \<Rightarrow> 's) \<Rightarrow> ('s, unit) handler" where
  "modify f s = Some (Ok (), f s, [])"

text \<open>A computation on the state that may not end.\<close>

definition run :: "('s \<Rightarrow> 'a option) \<Rightarrow> ('s, 'a) handler" where
  "run f s = map_option (\<lambda>x. (Ok x, s, [])) (f s)"

definition emit :: "effect \<Rightarrow> ('s, unit) handler" where
  "emit x s = Some (Ok (), s, [x])"

definition broadcast_event :: "HotShotEvent \<Rightarrow> ('s, unit) handler" where
  "broadcast_event e = emit (Internal e)"

definition notify :: "u64 \<Rightarrow> EventType \<Rightarrow> ('s, unit) handler" where
  "notify view ev = emit (External (Event view ev))"

definition andThen :: "('s, 'a) handler \<Rightarrow> ('a \<Rightarrow> ('s, 'b) handler) \<Rightarrow> ('s, 'b) handler" where
  "andThen h f s =
     (case h s of
        None \<Rightarrow> None
      | Some (Ok x, s1, out1) \<Rightarrow> map_option (\<lambda>(r, s2, out2). (r, s2, out1 @ out2)) (f x s1)
      | Some (Err e, s1, out1) \<Rightarrow> Some (Err e, s1, out1)
      | Some (Panic, s1, out1) \<Rightarrow> Some (Panic, s1, out1))"

definition seq :: "('s, 'a) handler \<Rightarrow> ('s, 'b) handler \<Rightarrow> ('s, 'b) handler" where
  "seq h k = andThen h (\<lambda>_. k)"

text \<open>Attaching context to an error, and carrying on after an error, as with \<open>if let Err(e) = ...\<close>.\<close>

definition contextual :: "error \<Rightarrow> ('s, 'a) handler \<Rightarrow> ('s, 'a) handler" where
  "contextual err h s = map_option (\<lambda>(r, s1, out). (with_context err r, s1, out)) (h s)"

definition attempt :: "('s, 'a) handler \<Rightarrow> ('s, 'a option) handler" where
  "attempt h s =
     map_option (\<lambda>(r, s1, out). (case r of Ok x \<Rightarrow> Ok (Some x) | Err e \<Rightarrow> Ok None | Panic \<Rightarrow> Panic, s1, out)) (h s)"

definition on_cond :: "bool \<Rightarrow> ('s, unit) handler \<Rightarrow> ('s, unit) handler" where
  "on_cond b h = (if b then h else ret ())"

text \<open>Going on with a value, or leaving with a result when there is only an error.\<close>

definition or_return :: "('a, error) result \<Rightarrow> 'b \<Rightarrow> ('a \<Rightarrow> ('s, 'b) handler) \<Rightarrow> ('s, 'b) handler" where
  "or_return r x k = (case r of Ok y \<Rightarrow> k y | Err _ \<Rightarrow> ret x | Panic \<Rightarrow> lift Panic)"

text \<open>Running a handler on a part of the state.\<close>

definition zoom :: "('s \<Rightarrow> 't) \<Rightarrow> ('t \<Rightarrow> 's \<Rightarrow> 's) \<Rightarrow> ('s \<Rightarrow> ('t, 'a) handler) \<Rightarrow> ('s, 'a) handler" where
  "zoom get put h s = map_option (\<lambda>(r, t, out). (r, put t s, out)) (h s (get s))"

definition guard :: "bool \<Rightarrow> error \<Rightarrow> ('s, unit) handler" where
  "guard b e = lift (ensure b e)"

section \<open>Weakest preconditions\<close>

text \<open>
  \<open>wp h Q s\<close>: if \<open>h\<close> returns from \<open>s\<close>, its result, final state and output satisfy \<open>Q\<close>.
  \<open>returns h s\<close>: it does return.
\<close>

definition wp :: "('s, 'a) handler \<Rightarrow> (('a, error) result \<Rightarrow> 's \<Rightarrow> effect list \<Rightarrow> bool) \<Rightarrow> 's \<Rightarrow> bool" where
  "wp h Q s = (case h s of None \<Rightarrow> True | Some (r, s1, out) \<Rightarrow> Q r s1 out)"

definition returns :: "('s, 'a) handler \<Rightarrow> 's \<Rightarrow> bool" where
  "returns h s \<longleftrightarrow> h s \<noteq> None"

lemma wp_basic [wp_simps]:
  "wp (ret x) Q s = Q (Ok x) s []"
  "wp (lift r) Q4 s = Q4 r s []"
  "wp (fail e) Q5 s = Q5 (Err e) s []"
  "wp (bail txt) Q6 s = Q6 (Err (Error Unspecified [txt])) s []"
  "wp (gets f) Q2 s = Q2 (Ok (f s)) s []"
  "wp (check_state q) Q7 s = Q7 (q s) s []"
  "wp (modify g) Q1 s = Q1 (Ok ()) (g s) []"
  "wp (emit eff) Q1 s = Q1 (Ok ()) s [eff]"
  "wp (broadcast_event ev) Q1 s = Q1 (Ok ()) s [Internal ev]"
  "wp (notify view et) Q1 s = Q1 (Ok ()) s [External (Event view et)]"
  "wp (run k) Q3 s = (case k s of None \<Rightarrow> True | Some x1 \<Rightarrow> Q3 (Ok x1) s [])"
  by (simp_all add: wp_def ret_def lift_def fail_def bail_def gets_def check_state_def modify_def emit_def broadcast_event_def notify_def run_def
      split: option.splits)

lemma wp_andThen [wp_simps]:
  "wp (andThen h f) Q s =
     wp h (\<lambda>r s1 out1. case r of Ok x \<Rightarrow> wp (f x) (\<lambda>r' s2 out2. Q r' s2 (out1 @ out2)) s1 | Err e \<Rightarrow> Q (Err e) s1 out1 | Panic \<Rightarrow> Q Panic s1 out1) s"
  by (auto simp: wp_def andThen_def split: option.splits result.splits prod.splits)

lemma wp_seq [wp_simps]:
  "wp (seq h k) Q s =
     wp h (\<lambda>r s1 out1. case r of Ok x \<Rightarrow> wp k (\<lambda>r' s2 out2. Q r' s2 (out1 @ out2)) s1 | Err e \<Rightarrow> Q (Err e) s1 out1 | Panic \<Rightarrow> Q Panic s1 out1) s"
  by (simp add: seq_def wp_andThen)

lemma wp_contextual [wp_simps]: "wp (contextual err h) Q s = wp h (\<lambda>r. Q (with_context err r)) s"
  by (auto simp: wp_def contextual_def split: option.splits)

lemma wp_attempt [wp_simps]:
  "wp (attempt h) Q s =
     wp h (\<lambda>r s1 out. Q (case r of Ok x \<Rightarrow> Ok (Some x) | Err e \<Rightarrow> Ok None | Panic \<Rightarrow> Panic) s1 out) s"
  by (auto simp: wp_def attempt_def split: option.splits)

lemma wp_on_cond [wp_simps]: "wp (on_cond b h) Q s = (if b then wp h Q s else Q (Ok ()) s [])"
  by (simp add: on_cond_def wp_simps)

lemma wp_guard [wp_simps]: "wp (guard b e) Q s = (if b then Q (Ok ()) s [] else Q (Err e) s [])"
  by (simp add: guard_def wp_simps)

lemma wp_zoom [wp_simps]: "wp (zoom get put h) Q s = wp (h s) (\<lambda>r t out. Q r (put t s) out) (get s)"
  by (auto simp: wp_def zoom_def split: option.splits)

lemma wp_or_return [wp_simps]:
  "wp (or_return r x k) Q s = (case r of Ok y \<Rightarrow> wp (k y) Q s | Err _ \<Rightarrow> Q (Ok x) s [] | Panic \<Rightarrow> Q Panic s [])"
  by (simp add: or_return_def wp_simps split: result.split)

lemma wp_if [wp_simps]: "wp (if b then h else k) Q s = (if b then wp h Q s else wp k Q s)"
  by simp

lemma wp_mono: "wp h P s \<Longrightarrow> (\<And>r s1 out. P r s1 out \<Longrightarrow> Q r s1 out) \<Longrightarrow> wp h Q s"
  by (auto simp: wp_def split: option.splits)

lemma wp_conj: "wp h P s \<Longrightarrow> wp h Q s \<Longrightarrow> wp h (\<lambda>r s1 out. P r s1 out \<and> Q r s1 out) s"
  by (auto simp: wp_def split: option.splits)

lemma wpD: "wp h Q s \<Longrightarrow> h s = Some (r, s1, out) \<Longrightarrow> Q r s1 out"
  by (simp add: wp_def)

lemma wpI: "(\<And>r s1 out. h s = Some (r, s1, out) \<Longrightarrow> Q r s1 out) \<Longrightarrow> wp h Q s"
  by (auto simp: wp_def split: option.splits)

lemma returns_basic [simp]:
  "returns (ret x) s" "returns (lift r) s" "returns (fail e) s" "returns (bail txt) s" "returns (gets f) s" "returns (check_state q) s" "returns (modify g) s"
  "returns (emit eff) s" "returns (broadcast_event ev) s" "returns (notify view et) s" "returns (guard b e) s"
  by (simp_all add: returns_def ret_def lift_def fail_def bail_def gets_def check_state_def modify_def emit_def broadcast_event_def notify_def guard_def)

lemma returns_run [simp]: "returns (run f) s \<longleftrightarrow> f s \<noteq> None"
  by (simp add: returns_def run_def)

lemma returns_andThen:
  "returns (andThen h f) s \<longleftrightarrow> returns h s \<and> wp h (\<lambda>r s1 out. case r of Ok x \<Rightarrow> returns (f x) s1 | _ \<Rightarrow> True) s"
  by (auto simp: returns_def wp_def andThen_def split: option.splits result.splits prod.splits)

lemma returns_seq:
  "returns (seq h k) s \<longleftrightarrow> returns h s \<and> wp h (\<lambda>r s1 out. case r of Ok x \<Rightarrow> returns k s1 | _ \<Rightarrow> True) s"
  by (simp add: seq_def returns_andThen)

lemma returns_wrappers [simp]:
  "returns (contextual err h) s = returns h s" "returns (attempt h) s = returns h s"
  by (simp_all add: returns_def contextual_def attempt_def)

lemma returns_on_cond [simp]: "returns (on_cond b h) s \<longleftrightarrow> (b \<longrightarrow> returns h s)"
  by (simp add: on_cond_def)

section \<open>Handlers on the shared state\<close>

definition with_consensus :: "(Consensus \<Rightarrow> Consensus) \<Rightarrow> ('a shared_scheme, unit) handler" where
  "with_consensus f = modify (\<lambda>s. s\<lparr>sh_consensus := f (sh_consensus s)\<rparr>)"

text \<open>An update of the shared state that may be refused.\<close>

definition try_consensus :: "(Consensus \<Rightarrow> (Consensus, error) result) \<Rightarrow> ('a shared_scheme, unit) handler" where
  "try_consensus f s =
     (case f (sh_consensus s) of
        Ok c \<Rightarrow> Some (Ok (), s\<lparr>sh_consensus := c\<rparr>, [])
      | Err e \<Rightarrow> Some (Err e, s, [])
      | Panic \<Rightarrow> Some (Panic, s, []))"

text \<open>An update of the shared state whose refusal is only logged.\<close>

definition settle :: "('c \<Rightarrow> ('c, error) result) \<Rightarrow> 'c \<Rightarrow> 'c" where
  "settle f c = (case f c of Ok c' \<Rightarrow> c' | _ \<Rightarrow> c)"

definition log_consensus :: "(Consensus \<Rightarrow> (Consensus, error) result) \<Rightarrow> ('a shared_scheme, unit) handler" where
  "log_consensus f s =
     (if f (sh_consensus s) = Panic then Some (Panic, s, [])
      else Some (Ok (), s\<lparr>sh_consensus := settle f (sh_consensus s)\<rparr>, []))"

definition store :: "env \<Rightarrow> storage_op \<Rightarrow> ('a shared_scheme, unit) handler" where
  "store E sop s =
     (if e_store_ok E (sh_storage s) sop then Some (Ok (), s\<lparr>sh_storage := sh_storage s @ [sop]\<rparr>, [])
      else Some (Err (Error Unspecified []), s, []))"

lemma wp_with_consensus [wp_simps]:
  "wp (with_consensus f) Q s = Q (Ok ()) (s\<lparr>sh_consensus := f (sh_consensus s)\<rparr>) []"
  by (simp add: with_consensus_def wp_simps)

lemma wp_try_consensus [wp_simps]:
  "wp (try_consensus f) Q s =
     (case f (sh_consensus s) of Ok c \<Rightarrow> Q (Ok ()) (s\<lparr>sh_consensus := c\<rparr>) [] | Err e \<Rightarrow> Q (Err e) s [] | Panic \<Rightarrow> Q Panic s [])"
  by (simp add: wp_def try_consensus_def split: result.splits)

definition log_store :: "env \<Rightarrow> storage_op \<Rightarrow> ('a shared_scheme, unit) handler" where
  "log_store E sop s =
     Some (Ok (), if e_store_ok E (sh_storage s) sop then s\<lparr>sh_storage := sh_storage s @ [sop]\<rparr> else s, [])"

lemma wp_log_consensus [wp_simps]:
  "wp (log_consensus f) Q s =
     (if f (sh_consensus s) = Panic then Q Panic s [] else Q (Ok ()) (s\<lparr>sh_consensus := settle f (sh_consensus s)\<rparr>) [])"
  by (simp add: wp_def log_consensus_def)

lemma wp_log_store [wp_simps]:
  "wp (log_store E sop) Q s =
     Q (Ok ()) (if e_store_ok E (sh_storage s) sop then s\<lparr>sh_storage := sh_storage s @ [sop]\<rparr> else s) []"
  by (simp add: wp_def log_store_def)

lemma wp_store [wp_simps]:
  "wp (store E sop) Q s =
     (if e_store_ok E (sh_storage s) sop then Q (Ok ()) (s\<lparr>sh_storage := sh_storage s @ [sop]\<rparr>) [] else Q (Err (Error Unspecified [])) s [])"
  by (simp add: wp_def store_def)

lemma returns_shared [simp]:
  "returns (with_consensus f) s" "returns (try_consensus g) s" "returns (store E sop) s"
  "returns (log_consensus g) s" "returns (log_store E sop) s"
  by (simp_all add: returns_def with_consensus_def modify_def try_consensus_def store_def log_consensus_def log_store_def split: result.splits)

section \<open>Rules for straight-line handlers\<close>

text \<open>One rule per way a handler can go on; the side goals are the branches that leave it.\<close>

named_theorems wp_intros "one step of a straight-line handler"

lemma wp_seq_guardI [wp_intros]: "(b \<Longrightarrow> wp k Q s) \<Longrightarrow> (\<not> b \<Longrightarrow> Q (Err e) s []) \<Longrightarrow> wp (seq (guard b e) k) Q s"
  by (simp add: wp_simps)

lemma wp_seq_checkI [wp_intros]:
  "(\<And>x. q s = Ok x \<Longrightarrow> wp k Q s) \<Longrightarrow> (\<And>e. q s = Err e \<Longrightarrow> Q (Err e) s []) \<Longrightarrow> (q s = Panic \<Longrightarrow> Q Panic s []) \<Longrightarrow>
   wp (seq (check_state q) k) Q s"
  by (simp add: wp_simps split: result.split)

lemma wp_andThen_checkI [wp_intros]:
  "(\<And>x. q s = Ok x \<Longrightarrow> wp (f x) Q s) \<Longrightarrow> (\<And>e. q s = Err e \<Longrightarrow> Q (Err e) s []) \<Longrightarrow> (q s = Panic \<Longrightarrow> Q Panic s []) \<Longrightarrow>
   wp (andThen (check_state q) f) Q s"
  by (simp add: wp_simps split: result.split)

lemma wp_andThen_liftI [wp_intros]:
  "(\<And>x. r = Ok x \<Longrightarrow> wp (f x) Q s) \<Longrightarrow> (\<And>e. r = Err e \<Longrightarrow> Q (Err e) s []) \<Longrightarrow> (r = Panic \<Longrightarrow> Q Panic s []) \<Longrightarrow>
   wp (andThen (lift r) f) Q s"
  by (simp add: wp_simps split: result.split)

lemma wp_andThen_getsI [wp_intros]: "wp (f (g s)) Q s \<Longrightarrow> wp (andThen (gets g) f) Q s"
  by (simp add: wp_simps)

lemma wp_andThen_runI [wp_intros]: "(\<And>x. k s = Some x \<Longrightarrow> wp (f x) Q s) \<Longrightarrow> wp (andThen (run k) f) Q s"
  by (simp add: wp_simps split: option.split)

lemma wp_seq_logI [wp_intros]:
  "(f (sh_consensus s) \<noteq> Panic \<Longrightarrow> wp k Q (s\<lparr>sh_consensus := settle f (sh_consensus s)\<rparr>)) \<Longrightarrow>
   (f (sh_consensus s) = Panic \<Longrightarrow> Q Panic s []) \<Longrightarrow> wp (seq (log_consensus f) k) Q s"
  by (simp add: wp_simps)

lemma wp_seq_log_storeI [wp_intros]:
  assumes "\<And>st. wp k Q (s\<lparr>sh_storage := st\<rparr>)"
  shows "wp (seq (log_store E sop) k) Q s"
proof -
  have "s\<lparr>sh_storage := sh_storage s\<rparr> = s" by simp
  with assms [of "sh_storage s"] assms [of "sh_storage s @ [sop]"] show ?thesis by (simp add: wp_simps)
qed

lemma wp_seq_broadcastI [wp_intros]: "wp k (\<lambda>r s2 out. Q r s2 (Internal ev # out)) s \<Longrightarrow> wp (seq (broadcast_event ev) k) Q s"
  by (simp add: wp_simps)

lemma wp_seq_notifyI [wp_intros]: "wp k (\<lambda>r s2 out. Q r s2 (External (Event view et) # out)) s \<Longrightarrow> wp (seq (notify view et) k) Q s"
  by (simp add: wp_simps)

lemma wp_seq_emitI [wp_intros]: "wp k (\<lambda>r s2 out. Q r s2 (eff # out)) s \<Longrightarrow> wp (seq (emit eff) k) Q s"
  by (simp add: wp_simps)

lemma wp_seq_modifyI [wp_intros]: "wp k Q (g s) \<Longrightarrow> wp (seq (modify g) k) Q s"
  by (simp add: wp_simps)

lemma wp_seq_retI [wp_intros]: "wp k Q s \<Longrightarrow> wp (seq (ret x) k) Q s"
  by (simp add: wp_simps)

lemma wp_seq_on_condI [wp_intros]: "(b \<Longrightarrow> wp (seq h k) Q s) \<Longrightarrow> (\<not> b \<Longrightarrow> wp k Q s) \<Longrightarrow> wp (seq (on_cond b h) k) Q s"
  by (simp add: on_cond_def wp_simps)

lemma wp_seqI:
  "wp h P s \<Longrightarrow> (\<And>x s1 out. P (Ok x) s1 out \<Longrightarrow> wp k (\<lambda>r s2 out2. Q r s2 (out @ out2)) s1) \<Longrightarrow>
   (\<And>e s1 out. P (Err e) s1 out \<Longrightarrow> Q (Err e) s1 out) \<Longrightarrow> (\<And>s1 out. P Panic s1 out \<Longrightarrow> Q Panic s1 out) \<Longrightarrow> wp (seq h k) Q s"
  unfolding wp_seq by (erule wp_mono) (auto split: result.split)

lemma wp_andThenI:
  "wp h P s \<Longrightarrow> (\<And>x s1 out. P (Ok x) s1 out \<Longrightarrow> wp (f x) (\<lambda>r s2 out2. Q r s2 (out @ out2)) s1) \<Longrightarrow>
   (\<And>e s1 out. P (Err e) s1 out \<Longrightarrow> Q (Err e) s1 out) \<Longrightarrow> (\<And>s1 out. P Panic s1 out \<Longrightarrow> Q Panic s1 out) \<Longrightarrow> wp (andThen h f) Q s"
  unfolding wp_andThen by (erule wp_mono) (auto split: result.split)

text \<open>The same steps as equations, to run a handler on a concrete state.\<close>

named_theorems exec_simps "execution of straight-line handlers"

definition prepend :: "effect list \<Rightarrow> (('a, error) result \<times> 's \<times> effect list) option \<Rightarrow> (('a, error) result \<times> 's \<times> effect list) option" where
  "prepend out1 x = map_option (\<lambda>(r, s, out). (r, s, out1 @ out)) x"

lemma prepend_simps [simp]:
  "prepend out1 None = None" "prepend out1 (Some (r, s, out)) = Some (r, s, out1 @ out)" "prepend [] x = x"
  by (simp_all add: prepend_def option.map_id)

lemma exec_andThen [exec_simps]:
  "andThen (check_state q) f s = (case q s of Ok x \<Rightarrow> f x s | Err e \<Rightarrow> Some (Err e, s, []) | Panic \<Rightarrow> Some (Panic, s, []))"
  "andThen (lift t) f1 s = (case t of Ok x \<Rightarrow> f1 x s | Err e \<Rightarrow> Some (Err e, s, []) | Panic \<Rightarrow> Some (Panic, s, []))"
  "andThen (gets g) f2 s = f2 (g s) s"
  "andThen (run k) f3 s = (case k s of None \<Rightarrow> None | Some x \<Rightarrow> f3 x s)"
  by (simp_all add: andThen_def check_state_def lift_def gets_def run_def option.map_id split: result.split option.split)

lemma exec_seq [exec_simps]:
  "seq (check_state q) k s = (case q s of Ok x \<Rightarrow> k s | Err e \<Rightarrow> Some (Err e, s, []) | Panic \<Rightarrow> Some (Panic, s, []))"
  "seq (guard b e') k s = (if b then k s else Some (Err e', s, []))"
  "seq (broadcast_event ev) k s = prepend [Internal ev] (k s)"
  "seq (notify view et) k s = prepend [External (Event view et)] (k s)"
  "seq (emit eff) k s = prepend [eff] (k s)"
  "seq (modify g) k s = k (g s)"
  "seq (ret y) k s = k s"
  by (simp_all add: seq_def andThen_def check_state_def guard_def lift_def ensure_def broadcast_event_def notify_def emit_def modify_def ret_def
      prepend_def option.map_id split: result.split)

lemma exec_seq_shared [exec_simps]:
  "seq (log_consensus f) k s =
     (if f (sh_consensus s) = Panic then Some (Panic, s, []) else k (s\<lparr>sh_consensus := settle f (sh_consensus s)\<rparr>))"
  "seq (try_consensus f) k s =
     (case f (sh_consensus s) of Ok c \<Rightarrow> k (s\<lparr>sh_consensus := c\<rparr>) | Err e \<Rightarrow> Some (Err e, s, []) | Panic \<Rightarrow> Some (Panic, s, []))"
  "seq (with_consensus u) k s = k (s\<lparr>sh_consensus := u (sh_consensus s)\<rparr>)"
  "seq (store E sop) k s =
     (if e_store_ok E (sh_storage s) sop then k (s\<lparr>sh_storage := sh_storage s @ [sop]\<rparr>) else Some (Err (Error Unspecified []), s, []))"
  "seq (log_store E sop) k s = k (if e_store_ok E (sh_storage s) sop then s\<lparr>sh_storage := sh_storage s @ [sop]\<rparr> else s)"
  by (simp_all add: seq_def andThen_def log_consensus_def try_consensus_def with_consensus_def modify_def store_def log_store_def
      option.map_id split: result.split)

lemma exec_nested [exec_simps]:
  "seq (seq h j) k s = seq h (seq j k) s"
  "seq (andThen h f) k s = andThen h (\<lambda>x. seq (f x) k) s"
  by (auto simp: seq_def andThen_def option.map_comp comp_def case_prod_unfold split: option.splits result.splits)

lemma exec_nested_andThen [exec_simps]:
  "andThen (andThen h f) g s = andThen h (\<lambda>x. andThen (f x) g) s"
  "andThen (seq h j) g s = seq h (andThen j g) s"
  "andThen (ret x) g s = g x s"
  by (auto simp: option.map_ident seq_def andThen_def ret_def option.map_comp option.map_id comp_def case_prod_unfold split: option.splits result.splits)

lemma exec_wrapped [exec_simps]:
  "contextual err (store E sop) s =
     (if e_store_ok E (sh_storage s) sop then Some (Ok (), s\<lparr>sh_storage := sh_storage s @ [sop]\<rparr>, [])
      else Some (with_context err (Err (Error Unspecified [])), s, []))"
  "seq (contextual err (store E sop)) k s =
     (if e_store_ok E (sh_storage s) sop then k (s\<lparr>sh_storage := sh_storage s @ [sop]\<rparr>)
      else Some (with_context err (Err (Error Unspecified [])), s, []))"
  by (simp_all add: contextual_def store_def seq_def andThen_def option.map_id with_context_def split: result.split)

lemma exec_known_value: "h s = Some (Ok x, s1, out) \<Longrightarrow> andThen h f s = prepend out (f x s1)"
  by (simp add: andThen_def prepend_def)

lemma exec_known: "h s = Some (Ok x, s1, out) \<Longrightarrow> seq h k s = prepend out (k s1)"
  by (simp add: seq_def andThen_def prepend_def)

lemma exec_final [exec_simps]:
  "ret x s = Some (Ok x, s, [])" "broadcast_event ev s = Some (Ok (), s, [Internal ev])" "guard b e s = Some (ensure b e, s, [])"
  by (simp_all add: ret_def broadcast_event_def emit_def guard_def lift_def)

text \<open>The updates of the consensus state never panic, garbage collection apart.\<close>

lemma and_then_neq_Panic: "r \<noteq> Panic \<Longrightarrow> (\<And>x. f x \<noteq> Panic) \<Longrightarrow> and_then r f \<noteq> Panic"
  by (cases r) auto

lemma updates_neq_Panic [simp]:
  "update_view v c \<noteq> Panic" "update_epoch e c \<noteq> Panic" "update_proposed_view p c \<noteq> Panic" "update_last_decided_view v c \<noteq> Panic"
  "update_locked_view v c \<noteq> Panic" "update_saved_payloads v pl c \<noteq> Panic" "update_high_qc qc c \<noteq> Panic" "update_next_epoch_high_qc nqc c \<noteq> Panic"
  "update_validated_state_map v vi c \<noteq> Panic" "update_leaf cr l st d c \<noteq> Panic" "update_da_view v oe pc c \<noteq> Panic"
  by (simp_all add: update_view_def update_epoch_def update_proposed_view_def update_last_decided_view_def update_locked_view_def
      update_saved_payloads_def update_high_qc_def update_next_epoch_high_qc_def update_validated_state_map_def update_leaf_def
      update_da_view_def Let_def ensure_def and_then_neq_Panic split: option.split ViewInner.split)

section \<open>Handlers that follow a preorder\<close>

named_theorems follows_intros "handlers built from steps along a preorder"

definition follows :: "('s \<Rightarrow> 's \<Rightarrow> bool) \<Rightarrow> ('s, 'a) handler \<Rightarrow> bool" where
  "follows R h \<longleftrightarrow> (\<forall>s. wp h (\<lambda>r s1 out. R s s1) s)"

text \<open>
  The contract of a preorder on states: a handler composed of steps along it is one.  Interpreted below for
  the refinement of the shared consensus state.
\<close>

locale state_preorder =
  fixes R :: "'s \<Rightarrow> 's \<Rightarrow> bool"
  assumes R_refl: "R s s" and R_trans: "R s t \<Longrightarrow> R t u \<Longrightarrow> R s u"
begin

lemma follows_ret [follows_intros]: "follows R (ret x)"
  by (simp add: follows_def wp_simps R_refl)

lemma follows_lift [follows_intros]: "follows R (lift r)"
  by (simp add: follows_def wp_simps R_refl)

lemma follows_fail [follows_intros]: "follows R (fail e)"
  by (simp add: follows_def wp_simps R_refl)

lemma follows_bail [follows_intros]: "follows R (bail txt)"
  by (simp add: follows_def wp_simps R_refl)

lemma follows_gets [follows_intros]: "follows R (gets f)"
  by (simp add: follows_def wp_simps R_refl)

lemma follows_check_state [follows_intros]: "follows R (check_state q)"
  by (simp add: follows_def wp_simps R_refl)

lemma follows_emit [follows_intros]: "follows R (emit x)"
  by (simp add: follows_def wp_simps R_refl)

lemma follows_broadcast_event [follows_intros]: "follows R (broadcast_event ev)"
  by (simp add: follows_def wp_simps R_refl)

lemma follows_notify [follows_intros]: "follows R (notify view et)"
  by (simp add: follows_def wp_simps R_refl)

lemma follows_run [follows_intros]: "follows R (run k)"
  by (simp add: follows_def wp_simps R_refl split: option.splits)

lemma follows_guard [follows_intros]: "follows R (guard b e)"
  by (simp add: follows_def wp_simps R_refl)

lemma follows_andThen [follows_intros]:
  assumes "follows R h" and "\<And>x. follows R (f x)"
  shows "follows R (andThen h f)"
  unfolding follows_def wp_simps
proof
  fix s
  show "wp h (\<lambda>r s1 out1. case r of Ok x \<Rightarrow> wp (f x) (\<lambda>r' s2 out2. R s s2) s1 | Err e \<Rightarrow> R s s1 | Panic \<Rightarrow> R s s1) s"
  proof (rule wp_mono)
    show "wp h (\<lambda>r s1 out. R s s1) s" using assms(1) by (simp add: follows_def)
    show "case r of Ok x \<Rightarrow> wp (f x) (\<lambda>r' s2 out2. R s s2) s1 | Err e \<Rightarrow> R s s1 | Panic \<Rightarrow> R s s1" if "R s s1" for r s1 and out :: "effect list"
      using that assms(2) by (auto simp: follows_def split: result.splits intro: wp_mono R_trans)
  qed
qed

lemma follows_seq [follows_intros]: "follows R h \<Longrightarrow> follows R k \<Longrightarrow> follows R (seq h k)"
  unfolding seq_def by (rule follows_andThen)

lemma follows_contextual [follows_intros]: "follows R h \<Longrightarrow> follows R (contextual err h)"
  by (simp add: follows_def wp_simps)

lemma follows_attempt [follows_intros]: "follows R h \<Longrightarrow> follows R (attempt h)"
  by (simp add: follows_def wp_simps)

lemma follows_on_cond [follows_intros]: "(b \<Longrightarrow> follows R h) \<Longrightarrow> follows R (on_cond b h)"
  by (simp add: follows_def wp_simps R_refl)

lemma follows_if [follows_intros]: "(b \<Longrightarrow> follows R h) \<Longrightarrow> (\<not> b \<Longrightarrow> follows R k) \<Longrightarrow> follows R (if b then h else k)"
  by simp

lemma follows_option [follows_intros]:
  "(x = None \<Longrightarrow> follows R h) \<Longrightarrow> (\<And>y. x = Some y \<Longrightarrow> follows R (k y)) \<Longrightarrow> follows R (case x of None \<Rightarrow> h | Some y \<Rightarrow> k y)"
  by (cases x) auto

lemma follows_prod [follows_intros]: "(\<And>a b. x = (a, b) \<Longrightarrow> follows R (k a b)) \<Longrightarrow> follows R (case x of (a, b) \<Rightarrow> k a b)"
  by (cases x) auto

lemma follows_result [follows_intros]:
  "(\<And>y. x = Ok y \<Longrightarrow> follows R (h y)) \<Longrightarrow> (\<And>e. x = Err e \<Longrightarrow> follows R (k e)) \<Longrightarrow> (x = Panic \<Longrightarrow> follows R m) \<Longrightarrow>
   follows R (case x of Ok y \<Rightarrow> h y | Err e \<Rightarrow> k e | Panic \<Rightarrow> m)"
  by (cases x) auto

lemma follows_or_return [follows_intros]: "(\<And>y. r = Ok y \<Longrightarrow> follows R (k y)) \<Longrightarrow> follows R (or_return r x k)"
  by (cases r) (simp_all add: or_return_def follows_ret follows_lift)

lemma follows_zoom: "(\<And>s t. R s (put t s)) \<Longrightarrow> follows R (zoom get put h)"
  by (auto simp: follows_def wp_def zoom_def split: option.splits)

lemma follows_modify: "(\<And>s. R s (g s)) \<Longrightarrow> follows R (modify g)"
  by (simp add: follows_def wp_simps)

end

section \<open>Refinement of the shared consensus state\<close>

text \<open>
  The abstract machine is the consensus state with its operations; a handler refines it if its whole
  effect on the consensus state is that of a sequence of operations, some of which may have been refused.
\<close>

definition consensus_refines :: "crypto \<Rightarrow> 'a shared_scheme \<Rightarrow> 'a shared_scheme \<Rightarrow> bool" where
  "consensus_refines cr s s' \<longleftrightarrow> (\<exists>as. run_steps (cons_apply cr) as (sh_consensus s) = Some (sh_consensus s'))"

lemma consensus_refines_same: "sh_consensus s' = sh_consensus s \<Longrightarrow> consensus_refines cr s s'"
  unfolding consensus_refines_def by (rule exI [of _ "[]"]) simp

lemma run_steps_append:
  "run_steps step xs s = Some t \<Longrightarrow> run_steps step ys t = Some u \<Longrightarrow> run_steps step (xs @ ys) s = Some u"
  by (induction xs arbitrary: s) (auto split: option.splits)

interpretation cr: state_preorder "consensus_refines cr"
proof
  show "consensus_refines cr s s" for s :: "'a shared_scheme" by (rule consensus_refines_same) simp
  show "consensus_refines cr s u" if "consensus_refines cr s t" "consensus_refines cr t u" for s t u :: "'a shared_scheme"
    using that unfolding consensus_refines_def by (metis run_steps_append)
qed

lemma consensus_refines_step: "cons_step cr a (sh_consensus s) = Ok (sh_consensus s') \<Longrightarrow> consensus_refines cr s s'"
  unfolding consensus_refines_def by (rule exI [of _ "[a]"]) (simp add: cons_apply_def)

lemma follows_try_consensus: "(\<And>c. f c = cons_step cr a c) \<Longrightarrow> follows (consensus_refines cr) (try_consensus f)"
  by (auto simp: follows_def wp_simps cr.R_refl split: result.splits intro: consensus_refines_step)

lemma follows_log_consensus: "(\<And>c. f c = cons_step cr a c) \<Longrightarrow> follows (consensus_refines cr) (log_consensus f)"
  by (auto simp: follows_def wp_simps cr.R_refl settle_def split: result.splits intro: consensus_refines_step consensus_refines_same)

lemma follows_log_store [follows_intros]: "follows (consensus_refines cr) (log_store E sop)"
  by (simp add: follows_def wp_simps consensus_refines_same)

lemma follows_with_consensus: "(\<And>c. Ok (f c) = cons_step cr a c) \<Longrightarrow> follows (consensus_refines cr) (with_consensus f)"
  by (auto simp: follows_def wp_simps intro: consensus_refines_step)

lemma follows_store [follows_intros]: "follows (consensus_refines cr) (store E sop)"
  by (simp add: follows_def wp_simps consensus_refines_same)

lemma follows_update_view [follows_intros]:
  "follows (consensus_refines cr) (try_consensus (update_view v))" "follows (consensus_refines cr) (log_consensus (update_view v))"
  by (rule follows_try_consensus [where a = "OpView v"], simp) (rule follows_log_consensus [where a = "OpView v"], simp)

lemma follows_update_epoch [follows_intros]:
  "follows (consensus_refines cr) (try_consensus (update_epoch e))" "follows (consensus_refines cr) (log_consensus (update_epoch e))"
  by (rule follows_try_consensus [where a = "OpEpoch e"], simp) (rule follows_log_consensus [where a = "OpEpoch e"], simp)

lemma follows_update_proposed_view [follows_intros]:
  "follows (consensus_refines cr) (try_consensus (update_proposed_view p))" "follows (consensus_refines cr) (log_consensus (update_proposed_view p))"
  by (rule follows_try_consensus [where a = "OpProposed p"], simp) (rule follows_log_consensus [where a = "OpProposed p"], simp)

lemma follows_update_last_decided_view [follows_intros]:
  "follows (consensus_refines cr) (try_consensus (update_last_decided_view v))" "follows (consensus_refines cr) (log_consensus (update_last_decided_view v))"
  by (rule follows_try_consensus [where a = "OpDecided v"], simp) (rule follows_log_consensus [where a = "OpDecided v"], simp)

lemma follows_update_locked_view [follows_intros]:
  "follows (consensus_refines cr) (try_consensus (update_locked_view v))" "follows (consensus_refines cr) (log_consensus (update_locked_view v))"
  by (rule follows_try_consensus [where a = "OpLocked v"], simp) (rule follows_log_consensus [where a = "OpLocked v"], simp)

lemma follows_update_da_view [follows_intros]:
  "follows (consensus_refines cr) (try_consensus (update_da_view v e pc))" "follows (consensus_refines cr) (log_consensus (update_da_view v e pc))"
  by (rule follows_try_consensus [where a = "OpDa v e pc"], simp) (rule follows_log_consensus [where a = "OpDa v e pc"], simp)

lemma follows_update_leaf [follows_intros]:
  "follows (consensus_refines cr) (try_consensus (update_leaf cr l st d))" "follows (consensus_refines cr) (log_consensus (update_leaf cr l st d))"
  by (rule follows_try_consensus [where a = "OpLeaf l st d"], simp) (rule follows_log_consensus [where a = "OpLeaf l st d"], simp)

lemma follows_update_saved_payloads [follows_intros]:
  "follows (consensus_refines cr) (try_consensus (update_saved_payloads v p))" "follows (consensus_refines cr) (log_consensus (update_saved_payloads v p))"
  by (rule follows_try_consensus [where a = "OpPayload v p"], simp) (rule follows_log_consensus [where a = "OpPayload v p"], simp)

lemma follows_update_high_qc [follows_intros]:
  "follows (consensus_refines cr) (try_consensus (update_high_qc qc))" "follows (consensus_refines cr) (log_consensus (update_high_qc qc))"
  by (rule follows_try_consensus [where a = "OpHighQc qc"], simp) (rule follows_log_consensus [where a = "OpHighQc qc"], simp)

lemma follows_update_next_epoch_high_qc [follows_intros]:
  "follows (consensus_refines cr) (try_consensus (update_next_epoch_high_qc qc))" "follows (consensus_refines cr) (log_consensus (update_next_epoch_high_qc qc))"
  by (rule follows_try_consensus [where a = "OpNextHighQc qc"], simp) (rule follows_log_consensus [where a = "OpNextHighQc qc"], simp)

lemma follows_collect_garbage [follows_intros]:
  "follows (consensus_refines cr) (try_consensus (collect_garbage x y))" "follows (consensus_refines cr) (log_consensus (collect_garbage x y))"
  by (rule follows_try_consensus [where a = "OpGc x y"], simp) (rule follows_log_consensus [where a = "OpGc x y"], simp)

lemma follows_update_vid_shares [follows_intros]: "follows (consensus_refines cr) (with_consensus (update_vid_shares v sh))"
  by (rule follows_with_consensus [where a = "OpShare v sh"]) simp

lemma follows_update_saved_da_certs [follows_intros]: "follows (consensus_refines cr) (with_consensus (update_saved_da_certs v cert))"
  by (rule follows_with_consensus [where a = "OpDaCert v cert"]) simp

lemma follows_drb [follows_intros]:
  "follows (consensus_refines cr) (with_consensus (\<lambda>c. c\<lparr>drb_seeds_and_results := f (drb_seeds_and_results c)\<rparr>))"
  by (auto simp: follows_def wp_simps intro: consensus_refines_step [where a = "OpDrb d" for d])

text \<open>What the operations guarantee therefore holds across handlers.\<close>

lemma consensus_refines_ok:
  assumes "consensus_refines cr s s'" and "binding (finalize cr)" and "cons_inv cr (sh_consensus s)"
  shows "cons_inv cr (sh_consensus s') \<and> forward (sh_consensus s) (sh_consensus s')"
  using assms ci.run_inv [of cr "sh_consensus s"] cm.run_le unfolding consensus_refines_def by blast

lemma follows_wp: "follows R h \<Longrightarrow> wp h (\<lambda>r s1 out. R s s1) s"
  by (simp add: follows_def)

section \<open>What handlers leave alone\<close>

text \<open>Keys, membership, versions and the epoch height stay, and the storage only grows.\<close>

definition undisturbed :: "'a shared_scheme \<Rightarrow> 'a shared_scheme \<Rightarrow> bool" where
  "undisturbed s s' \<longleftrightarrow>
     sh_membership s' = sh_membership s \<and> sh_upgrade_lock s' = sh_upgrade_lock s \<and> sh_public_key s' = sh_public_key s \<and>
     sh_private_key s' = sh_private_key s \<and> sh_epoch_height s' = sh_epoch_height s \<and> set (sh_storage s) \<subseteq> set (sh_storage s')"

interpretation ud: state_preorder undisturbed
  by standard (auto simp: undisturbed_def)

lemma undisturbed_consensus [simp]: "undisturbed s (s\<lparr>sh_consensus := c\<rparr>)"
  by (simp add: undisturbed_def)

lemma follows_undisturbed [follows_intros]:
  "follows undisturbed (with_consensus f)" "follows undisturbed (try_consensus g)" "follows undisturbed (log_consensus g)"
  "follows undisturbed (store E sop)" "follows undisturbed (log_store E sop)"
  by (auto simp: follows_def wp_simps ud.R_refl split: result.splits) (auto simp: undisturbed_def)

lemma undisturbedD:
  assumes "undisturbed s s'"
  shows "sh_membership s' = sh_membership s" "sh_upgrade_lock s' = sh_upgrade_lock s" "sh_public_key s' = sh_public_key s"
    "sh_private_key s' = sh_private_key s" "sh_epoch_height s' = sh_epoch_height s" "sop \<in> set (sh_storage s) \<Longrightarrow> sop \<in> set (sh_storage s')"
  using assms by (auto simp: undisturbed_def)

text \<open>The fields a task adds to the shared state stay.\<close>

definition same_task :: "'a shared_scheme \<Rightarrow> 'a shared_scheme \<Rightarrow> bool" where
  "same_task s s' \<longleftrightarrow> shared.more s' = shared.more s"

interpretation st: state_preorder same_task
  by standard (simp_all add: same_task_def)

lemma follows_same_task [follows_intros]:
  "follows same_task (with_consensus f)" "follows same_task (try_consensus g)" "follows same_task (log_consensus g)"
  "follows same_task (store E sop)" "follows same_task (log_store E sop)"
  by (auto simp: follows_def wp_simps st.R_refl split: result.splits) (auto simp: same_task_def)

text \<open>An invariant is kept.\<close>

definition keeps :: "('s \<Rightarrow> bool) \<Rightarrow> 's \<Rightarrow> 's \<Rightarrow> bool" where
  "keeps I s s' \<longleftrightarrow> (I s \<longrightarrow> I s')"

interpretation kp: state_preorder "keeps I"
  by standard (auto simp: keeps_def)

lemma follows_weaken: "follows R h \<Longrightarrow> (\<And>s s'. R s s' \<Longrightarrow> R' s s') \<Longrightarrow> follows R' h"
  unfolding follows_def by (intro allI) (rule wp_mono, blast, blast)

section \<open>What handlers send\<close>

text \<open>Every effect of the handler satisfies \<open>P\<close>.\<close>

named_theorems emits_intros "effects of handlers built from others"

definition emits :: "(effect \<Rightarrow> bool) \<Rightarrow> ('s, 'a) handler \<Rightarrow> bool" where
  "emits P h \<longleftrightarrow> (\<forall>s. wp h (\<lambda>r s1 out. \<forall>x \<in> set out. P x) s)"

lemma emits_silent [emits_intros]:
  "emits P (ret x)" "emits P (lift r)" "emits P (fail e)" "emits P (bail txt)" "emits P (gets f)" "emits P (check_state q)" "emits P (modify g)"
  "emits P (run k)" "emits P (guard b e)" "emits P (with_consensus cf)" "emits P (try_consensus tf)" "emits P (log_consensus tf)"
  "emits P (store E sop)" "emits P (log_store E sop)"
  by (auto simp: emits_def wp_simps split: option.splits result.splits)

lemma emits_send [emits_intros]:
  "P (Internal ev) \<Longrightarrow> emits P (broadcast_event ev)" "P (External (Event view et)) \<Longrightarrow> emits P (notify view et)" "P eff \<Longrightarrow> emits P (emit eff)"
  by (simp_all add: emits_def wp_simps)

lemma emits_andThen [emits_intros]:
  assumes "emits P h" and "\<And>x. emits P (f x)"
  shows "emits P (andThen h f)"
  unfolding emits_def wp_simps
proof
  fix s
  show "wp h (\<lambda>r s1 out1. case r of Ok x \<Rightarrow> wp (f x) (\<lambda>r' s2 out2. \<forall>x \<in> set (out1 @ out2). P x) s1
    | Err e \<Rightarrow> \<forall>x \<in> set out1. P x | Panic \<Rightarrow> \<forall>x \<in> set out1. P x) s"
  proof (rule wp_mono)
    show "wp h (\<lambda>r s1 out. \<forall>x \<in> set out. P x) s" using assms(1) by (simp add: emits_def)
    show "case r of Ok x \<Rightarrow> wp (f x) (\<lambda>r' s2 out2. \<forall>x \<in> set (out1 @ out2). P x) s1
      | Err e \<Rightarrow> \<forall>x \<in> set out1. P x | Panic \<Rightarrow> \<forall>x \<in> set out1. P x" if "\<forall>x \<in> set out1. P x" for r s1 out1
      using that assms(2) by (auto simp: emits_def split: result.splits intro: wp_mono)
  qed
qed

lemma emits_seq [emits_intros]: "emits P h \<Longrightarrow> emits P k \<Longrightarrow> emits P (seq h k)"
  unfolding seq_def by (rule emits_andThen)

lemma emits_wrappers [emits_intros]:
  "emits P h \<Longrightarrow> emits P (contextual err h)" "emits P h \<Longrightarrow> emits P (attempt h)"
  by (simp_all add: emits_def wp_simps)

lemma emits_branches [emits_intros]:
  "(b \<Longrightarrow> emits P k) \<Longrightarrow> emits P (on_cond b k)"
  "(b \<Longrightarrow> emits P h) \<Longrightarrow> (\<not> b \<Longrightarrow> emits P h') \<Longrightarrow> emits P (if b then h else h')"
  "(x = None \<Longrightarrow> emits P h) \<Longrightarrow> (\<And>y. x = Some y \<Longrightarrow> emits P (f y)) \<Longrightarrow> emits P (case x of None \<Rightarrow> h | Some y \<Rightarrow> f y)"
  "(\<And>a c. z = (a, c) \<Longrightarrow> emits P (g a c)) \<Longrightarrow> emits P (case z of (a, c) \<Rightarrow> g a c)"
  by (auto simp: emits_def wp_simps split: option.splits prod.splits)

lemma emits_or_return [emits_intros]: "(\<And>y. r = Ok y \<Longrightarrow> emits P (k y)) \<Longrightarrow> emits P (or_return r x k)"
  by (cases r) (simp_all add: or_return_def emits_silent)

lemma emits_mono: "emits P h \<Longrightarrow> (\<And>x. P x \<Longrightarrow> Q x) \<Longrightarrow> emits Q h"
  unfolding emits_def by (intro allI) (rule wp_mono, blast, blast)

lemma guard_False: "seq (guard False e) k = fail e"
  by (rule ext) (simp add: exec_simps fail_def lift_def)

lemma emits_andThen_lift: "(\<And>x. r = Ok x \<Longrightarrow> emits P (f x)) \<Longrightarrow> emits P (andThen (lift r) f)"
  by (cases r) (auto simp: emits_def wp_simps)

lemma emitsD: "emits P h \<Longrightarrow> h s = Some (r, s1, out) \<Longrightarrow> x \<in> set out \<Longrightarrow> P x"
  by (auto simp: emits_def wp_def split: option.splits dest: spec [of _ s])

lemma emits_wp: "emits P h \<Longrightarrow> wp h (\<lambda>r s1 out. \<forall>x \<in> set out. P x) s"
  by (simp add: emits_def)

section \<open>Handlers that do not panic\<close>

text \<open>From a state with \<open>I\<close> the handler, if it returns, does not panic and keeps \<open>I\<close>.\<close>

named_theorems calm_intros "handlers that do not panic, built from others"

definition calm :: "('s \<Rightarrow> bool) \<Rightarrow> ('s, 'a) handler \<Rightarrow> bool" where
  "calm I h \<longleftrightarrow> (\<forall>s. I s \<longrightarrow> wp h (\<lambda>r s1 out. r \<noteq> Panic \<and> I s1) s)"

lemma calm_basic [calm_intros]:
  "calm I (ret x)" "calm I (fail e)" "calm I (bail txt)" "calm I (gets f)" "calm I (run k)" "calm I (guard b e)" "calm I (emit eff)"
  "calm I (broadcast_event ev)" "calm I (notify view et)"
  by (auto simp: calm_def wp_simps split: option.splits)

lemma calm_lift [calm_intros]: "r \<noteq> Panic \<Longrightarrow> calm I (lift r)"
  by (simp add: calm_def wp_simps)

lemma calm_check_state [calm_intros]: "(\<And>s. I s \<Longrightarrow> q s \<noteq> Panic) \<Longrightarrow> calm I (check_state q)"
  by (simp add: calm_def wp_simps)

lemma calm_modify: "(\<And>s. I s \<Longrightarrow> I (g s)) \<Longrightarrow> calm I (modify g)"
  by (simp add: calm_def wp_simps)

lemma calm_andThen [calm_intros]:
  assumes "calm I h" and "\<And>x. calm I (f x)"
  shows "calm I (andThen h f)"
  unfolding calm_def wp_simps
proof (intro allI impI)
  fix s
  assume "I s"
  show "wp h (\<lambda>r s1 out1. case r of Ok x \<Rightarrow> wp (f x) (\<lambda>r' s2 out2. r' \<noteq> Panic \<and> I s2) s1
    | Err e \<Rightarrow> Err e \<noteq> Panic \<and> I s1 | Panic \<Rightarrow> Panic \<noteq> Panic \<and> I s1) s"
  proof (rule wp_mono)
    show "wp h (\<lambda>r s1 out. r \<noteq> Panic \<and> I s1) s" using assms(1) \<open>I s\<close> by (simp add: calm_def)
    show "case r of Ok x \<Rightarrow> wp (f x) (\<lambda>r' s2 out2. r' \<noteq> Panic \<and> I s2) s1 | Err e \<Rightarrow> Err e \<noteq> Panic \<and> I s1 | Panic \<Rightarrow> Panic \<noteq> Panic \<and> I s1"
      if "r \<noteq> Panic \<and> I s1" for r s1 and out :: "effect list"
      using that assms(2) by (auto simp: calm_def split: result.splits)
  qed
qed

lemma calm_seq [calm_intros]: "calm I h \<Longrightarrow> calm I k \<Longrightarrow> calm I (seq h k)"
  unfolding seq_def by (rule calm_andThen)

lemma with_context_neq_Panic [simp]: "with_context err r = Panic \<longleftrightarrow> r = Panic"
  by (cases r) (simp_all add: with_context_def)

lemma calm_contextual [calm_intros]: "calm I h \<Longrightarrow> calm I (contextual err h)"
  unfolding calm_def wp_contextual by (intro allI impI) (rule wp_mono, blast, simp)

lemma calm_attempt [calm_intros]: "calm I h \<Longrightarrow> calm I (attempt h)"
  unfolding calm_def wp_attempt by (intro allI impI) (rule wp_mono, blast, auto split: result.splits)

lemma calm_branches [calm_intros]:
  "(b \<Longrightarrow> calm I k) \<Longrightarrow> calm I (on_cond b k)"
  "(b \<Longrightarrow> calm I h) \<Longrightarrow> (\<not> b \<Longrightarrow> calm I h') \<Longrightarrow> calm I (if b then h else h')"
  "(x = None \<Longrightarrow> calm I h) \<Longrightarrow> (\<And>y. x = Some y \<Longrightarrow> calm I (f y)) \<Longrightarrow> calm I (case x of None \<Rightarrow> h | Some y \<Rightarrow> f y)"
  "(\<And>a c. z = (a, c) \<Longrightarrow> calm I (g a c)) \<Longrightarrow> calm I (case z of (a, c) \<Rightarrow> g a c)"
  by (auto simp: calm_def wp_simps split: option.splits prod.splits)

lemma calm_wp: "calm I h \<Longrightarrow> I s \<Longrightarrow> wp h (\<lambda>r s1 out. r \<noteq> Panic \<and> I s1) s"
  by (simp add: calm_def)

lemma consensus_refines_forward: "consensus_refines cr s s' \<Longrightarrow> forward (sh_consensus s) (sh_consensus s')"
  using cm.run_le unfolding consensus_refines_def by blast

section \<open>Running handlers\<close>

text \<open>A task logs the errors of its handler; after a panic it is gone.\<close>

definition perform :: "('s, 'a) handler \<Rightarrow> 's \<Rightarrow> ('s \<times> effect list) option" where
  "perform h s = (case h s of Some (r, s1, out) \<Rightarrow> if r = Panic then None else Some (s1, out) | None \<Rightarrow> None)"

lemma perform_wp: "perform h s = Some (s1, out) \<Longrightarrow> wp h Q s \<Longrightarrow> \<exists>r. r \<noteq> Panic \<and> Q r s1 out"
  by (auto simp: perform_def wp_def split: option.splits if_splits)

text \<open>A sequence of steps with the effects of all of them.\<close>

fun run_effects :: "('a \<Rightarrow> 's \<Rightarrow> ('s \<times> 'o list) option) \<Rightarrow> 'a list \<Rightarrow> 's \<Rightarrow> ('s \<times> 'o list) option" where
  "run_effects f [] s = Some (s, [])"
| "run_effects f (a # as) s =
     (case f a s of None \<Rightarrow> None
      | Some (s1, out1) \<Rightarrow> map_option (\<lambda>(s2, out2). (s2, out1 @ out2)) (run_effects f as s1))"

lemma run_effects_invariant:
  assumes "run_effects f as s = Some (s', out)" and "I s"
    and step: "\<And>a s s1 out1. a \<in> set as \<Longrightarrow> I s \<Longrightarrow> f a s = Some (s1, out1) \<Longrightarrow> I s1 \<and> (\<forall>x \<in> set out1. Q x)"
  shows "I s' \<and> (\<forall>x \<in> set out. Q x)"
  using assms(1,2) step
proof (induction as arbitrary: s out)
  case (Cons a as)
  then obtain s1 out1 out2 where a: "f a s = Some (s1, out1)" and as: "run_effects f as s1 = Some (s', out2)" and out: "out = out1 @ out2"
    by (auto split: option.splits)
  have 1: "I s1 \<and> (\<forall>x \<in> set out1. Q x)" using Cons.prems(3) [of a s s1 out1] Cons.prems(2) a by simp
  have "I s' \<and> (\<forall>x \<in> set out2. Q x)"
  proof (rule Cons.IH [OF as])
    show "I s1" using 1 by simp
    show "I t1 \<and> (\<forall>x \<in> set o1. Q x)" if "b \<in> set as" "I t" "f b t = Some (t1, o1)" for b t t1 o1
      using Cons.prems(3) [of b t t1 o1] that by simp
  qed
  then show ?case using 1 out by auto
qed simp

end
