(* ===== verification/Validation.thy ===== *)
theory Validation
  imports Handlers
begin

text \<open>
  Validation of quorum proposals: the checks of \<open>crates/task-impls/src/helpers.rs\<close> and the receiving task
  \<open>crates/task-impls/src/quorum_proposal_recv\<close>, from an incoming proposal to the events that announce it as
  validated.  The lemmas say what a validated proposal satisfies, in terms of the node's state.
\<close>

section \<open>Certificates against the membership\<close>

definition valid_qc2 :: "env \<Rightarrow> 'a shared_scheme \<Rightarrow> epoch option \<Rightarrow> QuorumCertificate2 \<Rightarrow> (unit, error) result" where
  "valid_qc2 E s e qc =
     is_valid_cert (e_crypto E) (e_versions E) (commit_QuorumData2 (finalize (e_crypto E))) (sh_upgrade_lock s)
       (m_stake_table (sh_membership s) e) (m_success_threshold (sh_membership s) e) qc"

definition valid_next_epoch_qc2 :: "env \<Rightarrow> 'a shared_scheme \<Rightarrow> epoch option \<Rightarrow> NextEpochQuorumCertificate2 \<Rightarrow> (unit, error) result" where
  "valid_next_epoch_qc2 E s e qc =
     is_valid_cert (e_crypto E) (e_versions E) (commit_NextEpochQuorumData2 (finalize (e_crypto E))) (sh_upgrade_lock s)
       (m_stake_table (sh_membership s) e) (m_success_threshold (sh_membership s) e) qc"

section \<open>Fetching a proposal\<close>

definition commit_ProposalRequestPayload :: "env \<Rightarrow> ProposalRequestPayload \<Rightarrow> commitment" where
  "commit_ProposalRequestPayload E r =
     finalize (e_crypto E) [Tag ''signed proposal request commitment'', U64_field ''view number'' (request_view r),
       Var_size_bytes (e_key_bytes E (request_key r))]"

text \<open>The first response for the view whose signature is valid, if one arrives in time.\<close>

definition await_proposal :: "env \<Rightarrow> 'a shared_scheme \<Rightarrow> u64 \<Rightarrow> QuorumProposalWrapper Proposal option" where
  "await_proposal E s view =
     List.find (\<lambda>p. q2_view_number (qw_proposal (pr_data p)) = view \<and>
         is_ok (validate_signature (e_crypto E) (sh_membership s) (sh_epoch_height s) p)) (e_responses E view)"

definition fetch_proposal :: "env \<Rightarrow> u64 \<Rightarrow> ('a shared_scheme, Leaf2 \<times> ViewInner) handler" where
  "fetch_proposal E view =
     andThen (gets (\<lambda>s. ProposalRequestPayload view (sh_public_key s))) (\<lambda>request.
     andThen (check_state (\<lambda>s. opt_context (Error ErrorLevel [''Failed to sign proposal. This should never happen.''])
       (key_sign (e_crypto E) (sh_private_key s) (commit_ProposalRequestPayload E request)))) (\<lambda>signature.
     seq (broadcast_event (QuorumProposalRequestSend request signature))
     (andThen (check_state (\<lambda>s. ok_or (await_proposal E s view) (Error Unspecified [''Request for proposal failed'']))) (\<lambda>proposal.
     let qp = qw_proposal (pr_data proposal); leaf = from_quorum_proposal (pr_data proposal); st = e_from_header E (q2_block_header qp) in
     seq (check_state (\<lambda>s. with_context (Error Warn [''Invalid justify_qc in proposal''])
       (valid_qc2 E s (qd_epoch (c_data (q2_justify_qc qp))) (q2_justify_qc qp))))
     (seq (log_consensus (update_leaf (e_crypto E) leaf st None))
     (gets (\<lambda>s. (leaf, LeafView (commit_Leaf2 (e_crypto E) leaf) st None (l2_epoch leaf (sh_epoch_height s))))))))))"

definition parent_leaf_and_state :: "env \<Rightarrow> u64 \<Rightarrow> ('a shared_scheme, Leaf2 \<times> validated_state) handler" where
  "parent_leaf_and_state E parent_view =
     andThen (gets (\<lambda>s. bt_contains parent_view (validated_state_map (sh_consensus s)))) (\<lambda>known.
     seq (if known then ret () else seq (contextual (Error Info [''Failed to fetch proposal'']) (fetch_proposal E parent_view)) (ret ()))
     (andThen (check_state (\<lambda>s. opt_context (Error Debug [''Couldn't find parent view in state map, waiting for replica to see proposal''])
       (bt_get parent_view (validated_state_map (sh_consensus s))))) (\<lambda>view.
     andThen (lift (opt_context (Error Info [''Parent of high QC points to a view without a proposal'']) (leaf_and_state view))) (\<lambda>(lc, st).
     andThen (check_state (\<lambda>s. opt_context (Error Info [''Failed to find high QC of parent'']) (saved_leaves (sh_consensus s) lc))) (\<lambda>leaf.
     ret (leaf, st))))))"

section \<open>View and certificates of a proposal\<close>

definition check_evidence :: "env \<Rightarrow> 'a shared_scheme \<Rightarrow> u64 \<Rightarrow> ViewChangeEvidence2 \<Rightarrow> (unit, error) result" where
  "check_evidence E s view ev =
     (case ev of
        Timeout2 tc \<Rightarrow>
          and_then (ensure (timeout_view (c_data tc) = view - 1)
            (Error Unspecified [''Timeout certificate was not for the immediately preceding view''])) (\<lambda>_.
          with_context (Error Warn [''Timeout certificate was invalid''])
            (is_valid_cert (e_crypto E) (e_versions E) (commit_TimeoutData2 (finalize (e_crypto E))) (sh_upgrade_lock s)
              (m_stake_table (sh_membership s) (timeout_epoch (c_data tc)))
              (m_success_threshold (sh_membership s) (timeout_epoch (c_data tc))) tc))
      | ViewSync2 vc \<Rightarrow>
          and_then (ensure (c_view_number vc = view)
            (Error Unspecified [''View sync cert view number does not match proposal view number''])) (\<lambda>_.
          with_context (Error Warn [''Invalid view sync finalize cert provided''])
            (is_valid_cert (e_crypto E) (e_versions E) (commit_ViewSyncFinalizeData2 (finalize (e_crypto E))) (sh_upgrade_lock s)
              (m_stake_table (sh_membership s) (epoch_ViewSyncFinalizeData2 (c_data vc)))
              (m_success_threshold (sh_membership s) (epoch_ViewSyncFinalizeData2 (c_data vc))) vc)))"

definition validate_proposal_view_and_certs :: "env \<Rightarrow> QuorumProposalWrapper Proposal \<Rightarrow> 'a shared_scheme \<Rightarrow> (unit, error) result" where
  "validate_proposal_view_and_certs E proposal s =
     (let qp = qw_proposal (pr_data proposal); view = q2_view_number qp in
      and_then (ensure (cur_view (sh_consensus s) \<le> view) (Error Unspecified [''Proposal is from an older view''])) (\<lambda>_.
      and_then (validate_signature (e_crypto E) (sh_membership s) (sh_epoch_height s) proposal) (\<lambda>_.
      and_then (if c_view_number (q2_justify_qc qp) \<noteq> view - 1 then
           and_then (opt_context (Error Debug [''Quorum proposal needed a timeout or view sync certificate, but did not have one''])
             (q2_view_change_evidence qp)) (check_evidence E s view)
         else Ok ()) (\<lambda>_.
      upgrade_validate (e_crypto E) (e_versions E) (q2_upgrade_certificate qp) (sh_membership s)
        (option_epoch_from_block_number (q2_epoch qp \<noteq> None) (block_number (q2_block_header qp)) (sh_epoch_height s))
        (sh_upgrade_lock s)))))"

section \<open>Safety and liveness of a proposal\<close>

text \<open>The visitor of the safety check stops, with success, at the locked view.\<close>

definition safety_visitor :: "u64 \<Rightarrow> unit visitor" where
  "safety_visitor locked u l st delta = ((), l2_view_number l \<noteq> locked)"

definition safety_outcome :: "u64 \<Rightarrow> Consensus \<Rightarrow> (unit, HotShotError) result option" where
  "safety_outcome justify_view c =
     map_option snd (visit_leaf_ancestors justify_view (Inclusive (locked_view c)) False (safety_visitor (locked_view c)) () c)"

definition epoch_safe :: "env \<Rightarrow> Leaf2 \<Rightarrow> Leaf2 \<Rightarrow> 'a shared_scheme \<Rightarrow> bool option" where
  "epoch_safe E proposed_leaf parent_leaf s =
     (if epoch_from_block_number (l2_height proposed_leaf) (sh_epoch_height s) =
         epoch_from_block_number (l2_height parent_leaf) (sh_epoch_height s)
      then Some True else check_eqc (e_crypto E) proposed_leaf parent_leaf (sh_consensus s))"

definition validate_proposal_safety_and_liveness ::
  "env \<Rightarrow> QuorumProposalWrapper Proposal \<Rightarrow> Leaf2 \<Rightarrow> pubkey \<Rightarrow> ('a shared_scheme, unit) handler" where
  "validate_proposal_safety_and_liveness E proposal parent_leaf sender =
     (let qp = qw_proposal (pr_data proposal); view = q2_view_number qp; leaf = from_quorum_proposal (pr_data proposal);
          justify_view = c_view_number (q2_justify_qc qp) in
      seq (guard (l2_parent_commitment leaf = commit_Leaf2 (e_crypto E) parent_leaf)
        (Error Unspecified [''Proposed leaf does not extend the parent leaf.'']))
     (seq (log_consensus (update_leaf (e_crypto E) leaf (e_from_header E (q2_block_header qp)) None))
     (seq (log_consensus (update_proposed_view proposal))
     (seq (check_state (\<lambda>s. upgrade_validate (e_crypto E) (e_versions E) (q2_upgrade_certificate qp) (sh_membership s)
        (if l2_with_epoch leaf then Some (epoch_from_block_number (l2_height leaf) (sh_epoch_height s)) else None) (sh_upgrade_lock s)))
     (seq (check_state (\<lambda>s. extends_upgrade leaf parent_leaf (decided_upgrade_certificate (sh_upgrade_lock s))))
     (andThen (run (epoch_safe E leaf parent_leaf)) (\<lambda>epoch_ok.
      seq (guard epoch_ok (Error ErrorLevel [''Failed epoch safety check'']))
     (seq (check_state (\<lambda>s. if is_last_block_in_epoch (l2_height parent_leaf) (sh_epoch_height s)
        then ensure (q2_next_epoch_justify_qc qp \<noteq> None)
          (Error Unspecified [''Epoch transition proposal does not include the next epoch justify QC. Do not vote!''])
        else Ok ()))
     (andThen (gets (\<lambda>s. locked_view (sh_consensus s) < justify_view)) (\<lambda>liveness_check.
      andThen (run (\<lambda>s. safety_outcome justify_view (sh_consensus s))) (\<lambda>outcome.
      seq (if is_ok outcome \<or> liveness_check then ret ()
           else seq (case outcome of Err e \<Rightarrow> notify view (ErrorEvent e) | _ \<Rightarrow> ret ())
                  (fail (Error ErrorLevel [''Failed safety and liveness check''])))
     (seq (notify view (QuorumProposalEvent proposal sender))
          (broadcast_event (QuorumProposalValidated proposal parent_leaf))))))))))))))"

section \<open>Receiving a proposal\<close>

definition validate_proposal_liveness :: "env \<Rightarrow> QuorumProposalWrapper Proposal \<Rightarrow> ('a shared_scheme, unit) handler" where
  "validate_proposal_liveness E proposal =
     (let qp = qw_proposal (pr_data proposal); leaf = from_quorum_proposal (pr_data proposal);
          justify_view = c_view_number (q2_justify_qc qp) in
      seq (log_consensus (update_leaf (e_crypto E) leaf (e_from_header E (q2_block_header qp)) None))
     (seq (andThen (gets (\<lambda>s. Update_undecided_state (saved_leaves (sh_consensus s)) (validated_state_map (sh_consensus s)))) (\<lambda>sop.
        log_store E sop))
     (andThen (gets (\<lambda>s. locked_view (sh_consensus s) < justify_view)) (\<lambda>liveness_check.
      andThen (gets (\<lambda>s. case version (e_versions E) (sh_upgrade_lock s) (l2_view_number leaf) of
          Ok v \<Rightarrow> version_ge (e_versions E) v (V_Epochs (e_versions E)) | _ \<Rightarrow> False)) (\<lambda>epochs.
      seq (on_cond (liveness_check \<and> epochs) (try_consensus (update_locked_view justify_view)))
          (guard liveness_check (Error Unspecified [''Quorum Proposal failed the liveness check''])))))))"

definition same_as_justify_qc :: "QuorumCertificate2 \<Rightarrow> NextEpochQuorumCertificate2 \<Rightarrow> bool" where
  "same_as_justify_qc qc nqc \<longleftrightarrow>
     c_view_number qc = c_view_number nqc \<and> qd_epoch (c_data qc) = epoch_NextEpochQuorumData2 (c_data nqc) \<and>
     leaf_commit (c_data qc) = (case c_data nqc of NextEpochQuorumData2 d \<Rightarrow> leaf_commit d)"

definition check_next_epoch_qc :: "env \<Rightarrow> QuorumCertificate2 \<Rightarrow> NextEpochQuorumCertificate2 option \<Rightarrow> 'a shared_scheme \<Rightarrow> (unit, error) result" where
  "check_next_epoch_qc E qc maybe_nqc s =
     (case maybe_nqc of
        None \<Rightarrow> Ok ()
      | Some nqc \<Rightarrow>
          and_then (ensure (same_as_justify_qc qc nqc)
            (Error Unspecified [''Next epoch justify qc exists but it's not equal with justify qc.''])) (\<lambda>_.
          with_context (Error Warn [''Invalid certificate''])
            (valid_next_epoch_qc2 E s (map_option (\<lambda>x. x + 1) (qd_epoch (c_data qc))) nqc)))"

definition store_new_high_qc :: "env \<Rightarrow> QuorumCertificate2 \<Rightarrow> NextEpochQuorumCertificate2 option \<Rightarrow> ('a shared_scheme, unit) handler" where
  "store_new_high_qc E qc maybe_nqc =
     andThen (gets (\<lambda>s. c_view_number (high_qc (sh_consensus s)) < c_view_number qc)) (\<lambda>newer.
     if \<not> newer then ret ()
     else seq (contextual (Error Unspecified [''Failed to store High QC, not voting'']) (store E (Update_high_qc qc)))
       (case maybe_nqc of None \<Rightarrow> ret ()
        | Some nqc \<Rightarrow> contextual (Error Unspecified [''Failed to store next epoch High QC, not voting'']) (store E (Update_next_epoch_high_qc nqc))))"

text \<open>The part of \<open>handle_quorum_proposal_recv\<close> after the parent has been looked up.\<close>

definition process_proposal :: "env \<Rightarrow> QuorumProposalWrapper Proposal \<Rightarrow> pubkey \<Rightarrow> Leaf2 option \<Rightarrow> ('a shared_scheme, unit) handler" where
  "process_proposal E proposal sender parent_leaf =
     (let qp = qw_proposal (pr_data proposal); view = q2_view_number qp; qc = q2_justify_qc qp; nqc = q2_next_epoch_justify_qc qp in
      seq (check_state (\<lambda>s. case parent_leaf of
          Some leaf \<Rightarrow> ensure (fst (state_and_delta (l2_view_number leaf) (sh_consensus s)) \<noteq> None)
            (Error Unspecified [''Parent state not found! Consensus internally inconsistent''])
        | None \<Rightarrow> Ok ()))
     (seq (store_new_high_qc E qc nqc)
     (seq (log_consensus (update_high_qc qc))
     (seq (case nqc of None \<Rightarrow> ret () | Some n \<Rightarrow> log_consensus (update_next_epoch_high_qc n))
     (andThen (gets (\<lambda>s. option_epoch_from_block_number (q2_epoch qp \<noteq> None) (block_number (q2_block_header qp)) (sh_epoch_height s))) (\<lambda>proposal_epoch.
      seq (case parent_leaf of
             None \<Rightarrow> validate_proposal_liveness E proposal
           | Some leaf \<Rightarrow> validate_proposal_safety_and_liveness E proposal leaf sender)
          (broadcast_event (ViewChange view proposal_epoch))))))))"

definition handle_quorum_proposal_recv :: "env \<Rightarrow> QuorumProposalWrapper Proposal \<Rightarrow> pubkey \<Rightarrow> ('a shared_scheme, unit) handler" where
  "handle_quorum_proposal_recv E proposal sender =
     (let qp = qw_proposal (pr_data proposal); qc = q2_justify_qc qp; nqc = q2_next_epoch_justify_qc qp in
      seq (check_state (\<lambda>s. validate_epoch (e_versions E) (sh_upgrade_lock s) (sh_epoch_height s) qp))
     (seq (check_state (\<lambda>s. with_context (Error Warn [''Failed to validate proposal view or attached certs'']) (validate_proposal_view_and_certs E proposal s)))
     (seq (check_state (\<lambda>s. with_context (Error Warn [''Invalid certificate'']) (valid_qc2 E s (qd_epoch (c_data qc)) qc)))
     (seq (check_state (check_next_epoch_qc E qc nqc))
     (seq (broadcast_event (QuorumProposalPreliminarilyValidated proposal))
     (andThen (gets (\<lambda>s. saved_leaves (sh_consensus s) (leaf_commit (c_data qc)))) (\<lambda>parent_leaf.
      seq (on_cond (parent_leaf = None) (emit (Spawn ''fetch_proposal'' (c_view_number qc))))
          (process_proposal E proposal sender parent_leaf))))))))"

section \<open>The receiving task\<close>

record QuorumProposalRecvTaskState = shared +
  qpr_cur_view :: u64
  qpr_cur_epoch :: "epoch option"
  qpr_spawned_tasks :: "(u64, nat) btree"

definition qpr_cancel_tasks :: "u64 \<Rightarrow> QuorumProposalRecvTaskState \<Rightarrow> QuorumProposalRecvTaskState" where
  "qpr_cancel_tasks view s = s\<lparr>qpr_spawned_tasks := bt_split_off view (qpr_spawned_tasks s)\<rparr>"

text \<open>The order on optional epochs is that of Rust: \<open>None\<close> is below every epoch.\<close>

definition option_less :: "epoch option \<Rightarrow> epoch option \<Rightarrow> bool" where
  "option_less a b = (case (a, b) of (None, Some _) \<Rightarrow> True | (Some x, Some y) \<Rightarrow> x < y | _ \<Rightarrow> False)"

definition qpr_handle :: "env \<Rightarrow> HotShotEvent \<Rightarrow> (QuorumProposalRecvTaskState, unit) handler" where
  "qpr_handle E ev =
     (case ev of
        QuorumProposalRecv proposal sender \<Rightarrow>
          let view = q2_view_number (qw_proposal (pr_data proposal)) in
          andThen (gets (\<lambda>s. view < cur_view (sh_consensus s) \<or> view < qpr_cur_view s)) (\<lambda>old.
          if old then ret () else seq (attempt (handle_quorum_proposal_recv E proposal sender)) (ret ()))
      | ViewChange view epoch \<Rightarrow>
          seq (modify (\<lambda>s. if option_less (qpr_cur_epoch s) epoch then s\<lparr>qpr_cur_epoch := epoch\<rparr> else s))
            (modify (\<lambda>s. if view \<le> qpr_cur_view s then s else qpr_cancel_tasks (saturating_sub view 1) (s\<lparr>qpr_cur_view := view\<rparr>)))
      | _ \<Rightarrow> ret ())"

section \<open>Refinement\<close>

lemma follows_fetch_proposal [follows_intros]: "follows (consensus_refines (e_crypto E)) (fetch_proposal E view)"
  unfolding fetch_proposal_def Let_def by (intro follows_intros)

lemma follows_parent_leaf_and_state [follows_intros]: "follows (consensus_refines (e_crypto E)) (parent_leaf_and_state E view)"
  unfolding parent_leaf_and_state_def by (intro follows_intros)

lemma follows_validate_proposal_safety_and_liveness [follows_intros]:
  "follows (consensus_refines (e_crypto E)) (validate_proposal_safety_and_liveness E proposal parent_leaf sender)"
  unfolding validate_proposal_safety_and_liveness_def Let_def by (intro follows_intros)

lemma follows_validate_proposal_liveness [follows_intros]:
  "follows (consensus_refines (e_crypto E)) (validate_proposal_liveness E proposal)"
  unfolding validate_proposal_liveness_def Let_def by (intro follows_intros)

lemma follows_store_new_high_qc [follows_intros]: "follows (consensus_refines (e_crypto E)) (store_new_high_qc E qc nqc)"
  unfolding store_new_high_qc_def by (intro follows_intros)

lemma follows_process_proposal [follows_intros]:
  "follows (consensus_refines (e_crypto E)) (process_proposal E proposal sender parent_leaf)"
  unfolding process_proposal_def Let_def by (intro follows_intros)

lemma follows_handle_quorum_proposal_recv [follows_intros]:
  "follows (consensus_refines (e_crypto E)) (handle_quorum_proposal_recv E proposal sender)"
  unfolding handle_quorum_proposal_recv_def Let_def by (intro follows_intros)

lemma follows_qpr_handle: "follows (consensus_refines (e_crypto E)) (qpr_handle E ev)"
  unfolding qpr_handle_def Let_def qpr_cancel_tasks_def
  by (cases ev) (auto intro!: follows_intros cr.follows_modify consensus_refines_same split: if_splits)

section \<open>What validation establishes\<close>

lemma settle_locked [simp]:
  "locked_view (settle (update_leaf cr l st d) c) = locked_view c"
  "locked_view (settle (update_proposed_view p) c) = locked_view c"
  "locked_view (settle (update_high_qc qc) c) = locked_view c"
  "locked_view (settle (update_next_epoch_high_qc nqc) c) = locked_view c"
  by (auto simp: settle_def update_proposed_view_def update_high_qc_def update_next_epoch_high_qc_def update_leaf_eq_Ok Let_def ensure_def
      split: result.splits option.splits)

definition lock_rule :: "u64 \<Rightarrow> Consensus \<Rightarrow> bool" where
  "lock_rule justify_view c \<longleftrightarrow> locked_view c < justify_view \<or> safety_outcome justify_view c = Some (Ok ())"

lemma safety_and_liveness_validated:
  "wp (validate_proposal_safety_and_liveness E proposal parent_leaf sender)
     (\<lambda>r s1 out. \<forall>q l. Internal (QuorumProposalValidated q l) \<in> set out \<longrightarrow>
        q = proposal \<and> l = parent_leaf \<and>
        l2_parent_commitment (from_quorum_proposal (pr_data proposal)) = commit_Leaf2 (e_crypto E) parent_leaf \<and>
        locked_view (sh_consensus s1) = locked_view (sh_consensus s) \<and>
        lock_rule (c_view_number (q2_justify_qc (qw_proposal (pr_data proposal)))) (sh_consensus s1)) s"
  unfolding validate_proposal_safety_and_liveness_def Let_def
  by (intro wp_intros) (auto simp: lock_rule_def is_ok_iff wp_simps split: result.splits)

text \<open>A leaf reached from a commitment by following parents.\<close>

inductive ancestor :: "Consensus \<Rightarrow> commitment \<Rightarrow> Leaf2 \<Rightarrow> bool" for c where
  ancestor_self: "saved_leaves c cm = Some l \<Longrightarrow> ancestor c cm l"
| ancestor_parent: "saved_leaves c cm = Some l' \<Longrightarrow> ancestor c (l2_parent_commitment l') l \<Longrightarrow> ancestor c cm l"

inductive_cases ancestorE: "ancestor c cm l"

lemma safety_loop_ancestor:
  assumes "visit_loop c (Inclusive lk) False (safety_visitor lk) u cm = Some out"
  shows "snd out = Ok () \<longrightarrow> (\<exists>l. ancestor c cm l \<and> l2_view_number l = lk)"
proof (rule mp)
  let ?P = "\<lambda>c' t fin f u cm out. t = Inclusive lk \<longrightarrow> \<not> fin \<longrightarrow> f = safety_visitor lk \<longrightarrow> snd out = Ok () \<longrightarrow>
    (\<exists>l. ancestor c' cm l \<and> l2_view_number l = lk)"
  have "?P c (Inclusive lk) False (safety_visitor lk) u cm out"
  proof (rule visit_loop.raw_induct [where P = ?P, OF _ assms], intro impI)
    fix rec c' t fin f u cm out
    assume IH: "\<And>c' t fin f u cm out. rec c' t fin f u cm = Some out \<Longrightarrow> ?P c' t fin f u cm out"
      and eq: "(case saved_leaves c' cm of
        None \<Rightarrow> Some (u, Err (MissingLeaf cm))
      | Some l \<Rightarrow>
          (case state_and_delta (l2_view_number l) c' of
             (None, _) \<Rightarrow> Some (u, Err (InvalidState ''View state does not exist in state map''))
           | (Some st, delta) \<Rightarrow>
               if t = Exclusive (l2_view_number l) then Some (u, if fin then Ok () else Err (MissingLeaf cm))
               else
                 (case f u l st delta of
                    (s', go_on) \<Rightarrow>
                      if \<not> go_on then Some (s', Ok ())
                      else if t = Inclusive (l2_view_number l) then
                        Some (s', if fin then Ok () else Err (MissingLeaf (l2_parent_commitment l)))
                      else rec c' t fin f s' (l2_parent_commitment l)))) = Some out"
      and [simp]: "t = Inclusive lk" "f = safety_visitor lk" and "\<not> fin" and ok: "snd out = Ok ()"
    then obtain l st d where l: "saved_leaves c' cm = Some l" "state_and_delta (l2_view_number l) c' = (Some st, d)"
      by (cases "saved_leaves c' cm") (auto split: option.splits prod.splits)
    show "\<exists>l. ancestor c' cm l \<and> l2_view_number l = lk"
    proof (cases "l2_view_number l = lk")
      case True
      then show ?thesis using l ancestor_self by blast
    next
      case False
      then have rec: "rec c' t fin f () (l2_parent_commitment l) = Some out" using eq l by (simp add: safety_visitor_def)
      then show ?thesis using IH [OF rec] ok \<open>\<not> fin\<close> ancestor_parent [OF l(1)] by auto
    qed
  qed
  then show "True \<longrightarrow> (snd out = Ok () \<longrightarrow> (\<exists>l. ancestor c cm l \<and> l2_view_number l = lk))" by simp
qed simp

lemma lock_rule_cases:
  assumes "lock_rule jv c"
  obtains "locked_view c < jv"
  | cm l where "Option.bind (bt_get jv (validated_state_map c)) leaf_commitment = Some cm" and "ancestor c cm l" and "l2_view_number l = locked_view c"
proof (cases "locked_view c < jv")
  case False
  then have "safety_outcome jv c = Some (Ok ())" using assms by (simp add: lock_rule_def)
  then obtain view cm u where "bt_get jv (validated_state_map c) = Some view" "leaf_commitment view = Some cm"
      "visit_loop c (Inclusive (locked_view c)) False (safety_visitor (locked_view c)) () cm = Some (u, Ok ())"
    by (auto simp: safety_outcome_def visit_leaf_ancestors_def split: option.splits)
  then show thesis using safety_loop_ancestor [of c "locked_view c" "()" cm] that(2) by fastforce
qed (rule that(1))

lemma from_quorum_proposal_simps [simp]:
  "l2_parent_commitment (from_quorum_proposal p) = leaf_commit (c_data (q2_justify_qc (qw_proposal p)))"
  "l2_view_number (from_quorum_proposal p) = q2_view_number (qw_proposal p)"
  "l2_justify_qc (from_quorum_proposal p) = q2_justify_qc (qw_proposal p)"
  "l2_block_header (from_quorum_proposal p) = q2_block_header (qw_proposal p)"
  "l2_upgrade_certificate (from_quorum_proposal p) = q2_upgrade_certificate (qw_proposal p)"
  by (simp_all add: from_quorum_proposal_def Let_def)

lemma liveness_not_validated:
  "wp (validate_proposal_liveness E proposal) (\<lambda>r s1 out. \<forall>q l. Internal (QuorumProposalValidated q l) \<notin> set out) s"
  unfolding validate_proposal_liveness_def Let_def by (intro wp_intros) (auto simp: wp_simps split: result.splits)

lemma store_new_high_qc_frame:
  "wp (store_new_high_qc E qc nqc) (\<lambda>r s1 out. out = [] \<and> (\<exists>st. s1 = s\<lparr>sh_storage := st\<rparr>)) s"
proof -
  have "\<exists>st. s = s\<lparr>sh_storage := st\<rparr>" by (rule exI [of _ "sh_storage s"]) simp
  then show ?thesis
    unfolding store_new_high_qc_def by (intro wp_intros) (auto simp: wp_simps split: option.splits result.splits)
qed

lemma process_proposal_validated:
  "wp (process_proposal E proposal sender parent_leaf)
     (\<lambda>r s1 out. \<forall>q l. Internal (QuorumProposalValidated q l) \<in> set out \<longrightarrow>
        q = proposal \<and> parent_leaf = Some l \<and>
        leaf_commit (c_data (q2_justify_qc (qw_proposal (pr_data proposal)))) = commit_Leaf2 (e_crypto E) l \<and>
        locked_view (sh_consensus s1) = locked_view (sh_consensus s) \<and>
        lock_rule (c_view_number (q2_justify_qc (qw_proposal (pr_data proposal)))) (sh_consensus s1)) s"
    (is "wp _ ?Q s")
proof -
  have final: "wp (seq (case parent_leaf of None \<Rightarrow> validate_proposal_liveness E proposal
         | Some leaf \<Rightarrow> validate_proposal_safety_and_liveness E proposal leaf sender) (broadcast_event (ViewChange v e))) ?Q s1"
    if "locked_view (sh_consensus s1) = locked_view (sh_consensus s)" for s1 v e
  proof (cases parent_leaf)
    case None
    then show ?thesis by (simp, intro wp_seqI [OF liveness_not_validated]) (auto simp: wp_simps)
  next
    case (Some l)
    then show ?thesis using that by (simp, intro wp_seqI [OF safety_and_liveness_validated]) (auto simp: wp_simps)
  qed
  show ?thesis
    unfolding process_proposal_def Let_def
    by (intro wp_intros wp_seqI [OF store_new_high_qc_frame]; (elim conjE exE)?;
        cases "q2_next_epoch_justify_qc (qw_proposal (pr_data proposal))") (auto intro!: wp_intros final)
qed

lemma recv_validated:
  "wp (handle_quorum_proposal_recv E proposal sender)
     (\<lambda>r s1 out. \<forall>q l. Internal (QuorumProposalValidated q l) \<in> set out \<longrightarrow>
        q = proposal \<and> validate_proposal_view_and_certs E proposal s = Ok () \<and>
        valid_qc2 E s (qd_epoch (c_data (q2_justify_qc (qw_proposal (pr_data proposal))))) (q2_justify_qc (qw_proposal (pr_data proposal))) = Ok () \<and>
        saved_leaves (sh_consensus s) (leaf_commit (c_data (q2_justify_qc (qw_proposal (pr_data proposal))))) = Some l \<and>
        leaf_commit (c_data (q2_justify_qc (qw_proposal (pr_data proposal)))) = commit_Leaf2 (e_crypto E) l \<and>
        locked_view (sh_consensus s1) = locked_view (sh_consensus s) \<and>
        lock_rule (c_view_number (q2_justify_qc (qw_proposal (pr_data proposal)))) (sh_consensus s1)) s"
  unfolding handle_quorum_proposal_recv_def Let_def
  by (intro wp_intros wp_mono [OF process_proposal_validated]) (auto simp: with_context_eq_Ok)

section \<open>Properties\<close>

text \<open>
  C2. When receiving a proposal announces it as validated, the proposal was not for an old view, its leader's
  signature is valid for its leaf, its justifying certificate is valid for the stake table of its epoch, its
  parent is the saved leaf that the certificate names, and the voting rule holds: the certificate is newer
  than the locked view, or the leaf it certifies descends from the leaf of the locked view.
\<close>

theorem validated_proposal_ok:
  assumes "handle_quorum_proposal_recv E proposal sender s = Some (r, s', out)"
    and "Internal (QuorumProposalValidated q l) \<in> set out"
  shows "q = proposal \<and> cur_view (sh_consensus s) \<le> q2_view_number (qw_proposal (pr_data q)) \<and>
     validate_signature (e_crypto E) (sh_membership s) (sh_epoch_height s) q = Ok () \<and>
     valid_qc2 E s (qd_epoch (c_data (q2_justify_qc (qw_proposal (pr_data q))))) (q2_justify_qc (qw_proposal (pr_data q))) = Ok () \<and>
     saved_leaves (sh_consensus s) (leaf_commit (c_data (q2_justify_qc (qw_proposal (pr_data q))))) = Some l \<and>
     leaf_commit (c_data (q2_justify_qc (qw_proposal (pr_data q)))) = commit_Leaf2 (e_crypto E) l \<and>
     (locked_view (sh_consensus s) < c_view_number (q2_justify_qc (qw_proposal (pr_data q))) \<or>
      (\<exists>cm a. Option.bind (bt_get (c_view_number (q2_justify_qc (qw_proposal (pr_data q)))) (validated_state_map (sh_consensus s'))) leaf_commitment = Some cm \<and>
         ancestor (sh_consensus s') cm a \<and> l2_view_number a = locked_view (sh_consensus s)))"
proof -
  note facts = wpD [OF recv_validated assms(1), rule_format, OF assms(2)]
  then have "lock_rule (c_view_number (q2_justify_qc (qw_proposal (pr_data proposal)))) (sh_consensus s')" by simp
  from lock_rule_cases [OF this] have rule: "locked_view (sh_consensus s) < c_view_number (q2_justify_qc (qw_proposal (pr_data proposal))) \<or>
      (\<exists>cm a. Option.bind (bt_get (c_view_number (q2_justify_qc (qw_proposal (pr_data proposal)))) (validated_state_map (sh_consensus s'))) leaf_commitment = Some cm \<and>
         ancestor (sh_consensus s') cm a \<and> l2_view_number a = locked_view (sh_consensus s))"
    using facts by metis
  have "cur_view (sh_consensus s) \<le> q2_view_number (qw_proposal (pr_data proposal)) \<and>
     validate_signature (e_crypto E) (sh_membership s) (sh_epoch_height s) proposal = Ok ()"
    using facts by (auto simp: validate_proposal_view_and_certs_def Let_def result_simps)
  moreover from facts have q: "q = proposal" by simp
  ultimately show ?thesis unfolding q using facts rule by blast
qed

text \<open>A proposal that passes every check is announced.\<close>

lemma validate_accepts:
  fixes s :: "'a shared_scheme" and proposal E
  defines "leaf \<equiv> from_quorum_proposal (pr_data proposal)"
  defines "c1 \<equiv> settle (update_proposed_view proposal) (settle (update_leaf (e_crypto E) leaf (e_from_header E (l2_block_header leaf)) None) (sh_consensus s))"
  assumes "l2_parent_commitment leaf = commit_Leaf2 (e_crypto E) parent_leaf"
    and "upgrade_validate (e_crypto E) (e_versions E) (l2_upgrade_certificate leaf) (sh_membership s)
        (if l2_with_epoch leaf then Some (epoch_from_block_number (l2_height leaf) (sh_epoch_height s)) else None) (sh_upgrade_lock s) = Ok ()"
    and "extends_upgrade leaf parent_leaf (decided_upgrade_certificate (sh_upgrade_lock s)) = Ok ()"
    and "epoch_safe E leaf parent_leaf (s\<lparr>sh_consensus := c1\<rparr>) = Some True"
    and "\<not> is_last_block_in_epoch (l2_height parent_leaf) (sh_epoch_height s)"
    and "safety_outcome (c_view_number (l2_justify_qc leaf)) c1 = Some r"
    and "is_ok r \<or> locked_view c1 < c_view_number (l2_justify_qc leaf)"
  shows "validate_proposal_safety_and_liveness E proposal parent_leaf sender s =
     Some (Ok (), s\<lparr>sh_consensus := c1\<rparr>, [External (Event (l2_view_number leaf) (QuorumProposalEvent proposal sender)),
       Internal (QuorumProposalValidated proposal parent_leaf)])"
  using assms(3-) unfolding validate_proposal_safety_and_liveness_def Let_def
  by (cases "l2_with_epoch leaf") (simp_all add: exec_simps leaf_def c1_def)

definition toy_env :: env where
  "toy_env = \<lparr>e_crypto = inj_crypto, e_versions = toy_versions, e_vid = toy_vid, e_ops = toy_ops, e_hooks = default_hooks,
     e_from_header = (\<lambda>h. 0), e_validate_and_apply_header = (\<lambda>st l h vc v view. Some (Suc st, 0)), e_store_ok = (\<lambda>st sop. True),
     e_responses = (\<lambda>v. []), e_key_bytes = (\<lambda>k. [word_of_nat k]),
     e_sha256 = (\<lambda>b. replicate 32 0), e_bincode_signatures = (\<lambda>g. Some (replicate 32 0))\<rparr>"

definition toy_shared :: "Consensus \<Rightarrow> shared" where
  "toy_shared c = \<lparr>sh_consensus = c, sh_membership = toy_membership, sh_upgrade_lock = UpgradeLock None, sh_storage = [],
     sh_public_key = 1, sh_private_key = 1, sh_epoch_height = 10\<rparr>"

definition first_proposal :: "QuorumProposalWrapper Proposal" where
  "first_proposal = \<lparr>pr_data = toy_proposal 1 (toy_qc 0 (commit_Leaf2 inj_crypto genesis_leaf)), pr_signature = 2\<rparr>"

lemma first_proposal_received:
  "\<exists>s' out. handle_quorum_proposal_recv toy_env first_proposal 2 (toy_shared (genesis_consensus inj_crypto)) = Some (Ok (), s', out) \<and>
     Internal (QuorumProposalValidated first_proposal genesis_leaf) \<in> set out"
proof -
  let ?c = "genesis_consensus inj_crypto"
  have epochs: "validate_epoch toy_versions (UpgradeLock None) 10 (qw_proposal (pr_data first_proposal)) = Ok ()"
    by (simp add: validate_epoch_def first_proposal_def toy_proposal_def epochs_enabled_def version_infallible_def toy_versions_def
        option_epoch_from_block_number_def Let_def word_le_nat_alt)
  have sig: "validate_signature inj_crypto toy_membership 10 first_proposal = Ok ()"
    by (simp add: validate_signature_def first_proposal_def toy_proposal_def leader_def toy_membership_def static_membership_def
        static_lookup_leader_def static_new_def nth_leader_def positive_entries_def peer_def index_at_def inj_crypto_def toy_crypto_def Let_def)
  have certs: "validate_proposal_view_and_certs toy_env first_proposal (toy_shared ?c) = Ok ()"
    using sig
    by (simp add: validate_proposal_view_and_certs_def toy_env_def toy_shared_def genesis_consensus_def consensus_new_def
        upgrade_validate_def first_proposal_def toy_proposal_def toy_qc_def Let_def)
  have start: "handle_quorum_proposal_recv toy_env first_proposal 2 (toy_shared ?c) =
      prepend [Internal (QuorumProposalPreliminarilyValidated first_proposal)] (process_proposal toy_env first_proposal 2 (Some genesis_leaf) (toy_shared ?c))"
    using epochs certs
    by (simp add: handle_quorum_proposal_recv_def exec_simps toy_shared_def toy_env_def valid_qc2_def is_valid_cert_def check_next_epoch_qc_def
        first_proposal_def toy_proposal_def toy_qc_def genesis_consensus_def consensus_new_def on_cond_def Let_def)
  let ?l = "from_quorum_proposal (pr_data first_proposal)"
  let ?c1 = "settle (update_proposed_view first_proposal) (settle (update_leaf inj_crypto ?l 0 None) ?c)"
  have qc: "q2_justify_qc (qw_proposal (pr_data first_proposal)) = toy_qc 0 (commit_Leaf2 inj_crypto genesis_leaf)"
    by (simp add: first_proposal_def toy_proposal_def)
  have neq: "commit_Leaf2 inj_crypto ?l \<noteq> commit_Leaf2 inj_crypto genesis_leaf"
    using commit_Leaf2_view [OF binding_inj_crypto, of ?l genesis_leaf] by (auto simp: first_proposal_def toy_proposal_def genesis_leaf_def)
  have fp: "q2_view_number (qw_proposal (pr_data first_proposal)) = 1" "q2_epoch (qw_proposal (pr_data first_proposal)) = None"
      "q2_next_epoch_justify_qc (qw_proposal (pr_data first_proposal)) = None" "q2_upgrade_certificate (qw_proposal (pr_data first_proposal)) = None"
      "l2_with_epoch ?l = False"
    by (simp_all add: first_proposal_def toy_proposal_def from_quorum_proposal_def)
  have env: "e_crypto toy_env = inj_crypto" "e_versions toy_env = toy_versions" "e_from_header toy_env h = 0" "sh_consensus (toy_shared c) = c"
      "sh_upgrade_lock (toy_shared c) = UpgradeLock None" "sh_epoch_height (toy_shared c) = 10" "c_view_number (toy_qc v lc) = v"
      "leaf_commit (c_data (toy_qc v lc)) = lc" "(toy_shared c)\<lparr>sh_consensus := d\<rparr> = toy_shared d" for h c d v lc
    by (simp_all add: toy_env_def toy_shared_def toy_qc_def)
  have gl: "l2_view_number genesis_leaf = 0" "l2_height genesis_leaf = 0" "l2_upgrade_certificate genesis_leaf = None"
    by (simp_all add: genesis_leaf_def)
  have leaf: "update_leaf inj_crypto ?l 0 None ?c = Ok (settle (update_leaf inj_crypto ?l 0 None) ?c)"
    by (simp add: settle_def update_leaf_def update_validated_state_map_def genesis_consensus_def consensus_new_def bt_get_def
        first_proposal_def toy_proposal_def Let_def)
  then have c1: "bt_get 0 (validated_state_map ?c1) = Some (LeafView (commit_Leaf2 inj_crypto genesis_leaf) 0 (Some 0) None)"
      "saved_leaves ?c1 (commit_Leaf2 inj_crypto genesis_leaf) = Some genesis_leaf" "locked_view ?c1 = 0"
    using neq [symmetric]
    by (auto simp: update_leaf_eq_Ok settle_def update_proposed_view_def genesis_consensus_def consensus_new_def bt_get_def
        first_proposal_def toy_proposal_def Let_def ensure_def split: result.splits if_splits)
  have safe: "safety_outcome 0 ?c1 = Some (Ok ())"
    using c1 by (simp add: safety_outcome_def visit_leaf_ancestors_def)
      (subst visit_loop.simps, simp add: state_and_delta_def safety_visitor_def genesis_leaf_def)
  have valid: "validate_proposal_safety_and_liveness toy_env first_proposal genesis_leaf 2 (toy_shared ?c) =
      Some (Ok (), (toy_shared ?c)\<lparr>sh_consensus := ?c1\<rparr>, [External (Event 1 (QuorumProposalEvent first_proposal 2)),
        Internal (QuorumProposalValidated first_proposal genesis_leaf)])"
    using validate_accepts [where E = toy_env and proposal = first_proposal and parent_leaf = genesis_leaf and s = "toy_shared ?c" and sender = 2 and r = "Ok ()"] safe
    by (simp add: env(1-8) qc fp gl upgrade_validate_def extends_upgrade_def upgrade_extends_def epoch_safe_def check_eqc_def is_last_block_in_epoch_def)
  have high: "settle (update_high_qc (toy_qc 0 (commit_Leaf2 inj_crypto genesis_leaf))) ?c = ?c"
    by (simp add: settle_def update_high_qc_def genesis_consensus_def consensus_new_def)
  have stored: "store_new_high_qc toy_env (toy_qc 0 (commit_Leaf2 inj_crypto genesis_leaf)) None (toy_shared ?c) = Some (Ok (), toy_shared ?c, [])"
    by (simp add: store_new_high_qc_def exec_simps env genesis_consensus_def consensus_new_def)
  have "fst (state_and_delta 0 ?c) \<noteq> None" by (simp add: state_and_delta_def genesis_consensus_def consensus_new_def bt_get_def)
  then have "process_proposal toy_env first_proposal 2 (Some genesis_leaf) (toy_shared ?c) =
      Some (Ok (), (toy_shared ?c)\<lparr>sh_consensus := ?c1\<rparr>, [External (Event 1 (QuorumProposalEvent first_proposal 2)),
        Internal (QuorumProposalValidated first_proposal genesis_leaf), Internal (ViewChange 1 None)])"
    by (simp add: process_proposal_def exec_simps env qc fp gl option_epoch_from_block_number_def Let_def high
        exec_known [of "store_new_high_qc toy_env (toy_qc 0 (commit_Leaf2 inj_crypto genesis_leaf)) None", OF stored]
        exec_known [of "validate_proposal_safety_and_liveness toy_env first_proposal genesis_leaf 2", OF valid])
  then show ?thesis unfolding start by simp
qed

theorem validated_proposal_ok_witness:
  "\<exists>s' out. handle_quorum_proposal_recv toy_env first_proposal 2 (toy_shared (genesis_consensus inj_crypto)) = Some (Ok (), s', out) \<and>
     saved_leaves (genesis_consensus inj_crypto) (leaf_commit (c_data (q2_justify_qc (qw_proposal (pr_data first_proposal))))) = Some genesis_leaf"
  using first_proposal_received validated_proposal_ok [of toy_env first_proposal 2 "toy_shared (genesis_consensus inj_crypto)"]
  by (fastforce simp: toy_shared_def)

end
