(* ===== verification/Accumulator.thy ===== *)
theory Accumulator
  imports Certificates BTree
begin

text \<open>
  The vote accumulator of \<open>crates/types/src/vote.rs\<close>: it collects votes by commitment and assembles a
  certificate once the stake of the voters reaches the threshold of the certificate.  The lemmas
  keep the tally of a commitment in step with its bit vector and its signatures, and conclude that
  the accumulator never panics, that what it returns is a valid certificate, and that enough
  votes make it return one.
\<close>

section \<open>State\<close>

type_synonym tally = "u256 \<times> (pubkey, sig \<times> commitment) btree"

record VoteAccumulator =
  vote_outcomes :: "commitment \<rightharpoonup> tally"
  signers :: "commitment \<rightharpoonup> bitvec \<times> sig list"
  upgrade_lock :: UpgradeLock

definition accumulator_new :: "UpgradeLock \<Rightarrow> VoteAccumulator" where
  "accumulator_new lock = \<lparr>vote_outcomes = Map.empty, signers = Map.empty, upgrade_lock = lock\<rparr>"

section \<open>Accumulating votes\<close>

text \<open>Index of the first entry equal to the given one.\<close>

fun position_of :: "'a \<Rightarrow> 'a list \<Rightarrow> nat option" where
  "position_of x [] = None"
| "position_of x (y # ys) = (if y = x then Some 0 else map_option Suc (position_of x ys))"

text \<open>The two \<open>entry\<close> calls: the value stored for the commitment, or the one inserted.\<close>

definition outcome_at :: "VoteAccumulator \<Rightarrow> commitment \<Rightarrow> tally" where
  "outcome_at acc cm = (case vote_outcomes acc cm of Some x \<Rightarrow> x | None \<Rightarrow> (0, []))"

definition signers_at :: "nat \<Rightarrow> VoteAccumulator \<Rightarrow> commitment \<Rightarrow> bitvec \<times> sig list" where
  "signers_at total_nodes acc cm =
     (case signers acc cm of Some x \<Rightarrow> x | None \<Rightarrow> (replicate total_nodes False, []))"

definition accumulate ::
  "crypto \<Rightarrow> versions \<Rightarrow> ('d \<Rightarrow> commitment) \<Rightarrow> cert_kind \<Rightarrow> membership \<Rightarrow> epoch option \<Rightarrow> 'd SimpleVote \<Rightarrow>
   VoteAccumulator \<Rightarrow> (VoteAccumulator \<times> 'd SimpleCertificate option, error) result" where
  "accumulate cr V commit_data kind m e vote acc =
     (let key = signing_key vote in
      case versioned_new V (upgrade_lock acc) (v_data vote) (v_view_number vote) of
        Panic \<Rightarrow> Panic
      | Err _ \<Rightarrow> Ok (acc, None)
      | Ok vd \<Rightarrow>
       (let vote_commitment = commit_versioned (finalize cr) commit_data vd in
        if \<not> key_validate cr key (vote_signature vote) vote_commitment then Ok (acc, None)
        else
        (case cert_stake_table_entry kind m key e of
           None \<Rightarrow> Ok (acc, None)
         | Some entry \<Rightarrow>
          (let stake_table = cert_stake_table kind m e;
               total_nodes = cert_total_nodes kind m e;
               threshold = cert_threshold kind m e in
           case position_of entry stake_table of
             None \<Rightarrow> Ok (acc, None)
           | Some vote_node_id \<Rightarrow>
            (case outcome_at acc vote_commitment of
               (total_stake_casted, total_vote_map) \<Rightarrow>
              (let acc1 = acc\<lparr>vote_outcomes := (vote_outcomes acc)(vote_commitment \<mapsto> (total_stake_casted, total_vote_map))\<rparr> in
               if bt_contains key total_vote_map then Ok (acc1, None)
               else
               (case signers_at total_nodes acc1 vote_commitment of
                  (bits, sig_list) \<Rightarrow>
                 (let acc2 = acc1\<lparr>signers := (signers acc1)(vote_commitment \<mapsto> (bits, sig_list))\<rparr> in
                  if vote_node_id < length bits \<and> bits ! vote_node_id then Ok (acc2, None)
                  else if \<not> vote_node_id < length bits then Panic
                  else
                  (let bits' = bits[vote_node_id := True];
                       sig_list' = sig_list @ [vote_signature vote] in
                   and_then (u256_add total_stake_casted (stake_amount entry)) (\<lambda>total'.
                   (let total_vote_map' = bt_insert key (vote_signature vote, vote_commitment) total_vote_map;
                        acc3 = acc2\<lparr>vote_outcomes := (vote_outcomes acc2)(vote_commitment \<mapsto> (total', total_vote_map')),
                                    signers := (signers acc2)(vote_commitment \<mapsto> (bits', sig_list'))\<rparr> in
                    if threshold \<le> total' then
                      and_then (key_assemble cr (public_parameter stake_table threshold) bits' sig_list') (\<lambda>real_qc_sig.
                        Ok (acc3, Some (create_signed_certificate vote_commitment (v_data vote) real_qc_sig (v_view_number vote))))
                    else Ok (acc3, None))))))))))))"

text \<open>A sequence of votes, with the certificates returned along the way.\<close>

fun accumulate_votes ::
  "crypto \<Rightarrow> versions \<Rightarrow> ('d \<Rightarrow> commitment) \<Rightarrow> cert_kind \<Rightarrow> membership \<Rightarrow> epoch option \<Rightarrow> 'd SimpleVote list \<Rightarrow>
   VoteAccumulator \<Rightarrow> (VoteAccumulator \<times> 'd SimpleCertificate list, error) result" where
  "accumulate_votes cr V cd kind m e [] acc = Ok (acc, [])"
| "accumulate_votes cr V cd kind m e (v # vs) acc =
     and_then (accumulate cr V cd kind m e v acc) (\<lambda>(acc', c).
     and_then (accumulate_votes cr V cd kind m e vs acc') (\<lambda>(acc'', cs).
       Ok (acc'', (case c of Some x \<Rightarrow> x # cs | None \<Rightarrow> cs))))"

section \<open>The invariant\<close>

text \<open>
  The tally of a commitment is the stake of the set bits, and the keys of the set bits are the
  voters, each with a valid signature in the list.
\<close>

definition tally_ok :: "crypto \<Rightarrow> StakeTableEntry list \<Rightarrow> commitment \<Rightarrow> tally \<Rightarrow> bitvec \<times> sig list \<Rightarrow> bool" where
  "tally_ok cr tbl cm t s \<longleftrightarrow>
     length (fst s) = length tbl \<and> bt_ok (snd t) \<and> fst t = signer_weight tbl (fst s) \<and>
     (\<exists>ps. map snd ps = snd s \<and> mset (map fst ps) = mset (ver_keys tbl (fst s)) \<and> distinct (map fst ps) \<and>
        fst ` set ps = fst ` set (snd t) \<and> (\<forall>(k, g) \<in> set ps. key_validate cr k g cm))"

definition acc_inv :: "crypto \<Rightarrow> StakeTableEntry list \<Rightarrow> VoteAccumulator \<Rightarrow> bool" where
  "acc_inv cr tbl acc \<longleftrightarrow> (\<forall>cm. tally_ok cr tbl cm (outcome_at acc cm) (signers_at (length tbl) acc cm))"

definition voters :: "VoteAccumulator \<Rightarrow> commitment \<Rightarrow> pubkey set" where
  "voters acc cm = fst ` set (snd (outcome_at acc cm))"

definition stake_casted :: "VoteAccumulator \<Rightarrow> commitment \<Rightarrow> u256" where
  "stake_casted acc cm = fst (outcome_at acc cm)"

lemma position_of_Some: "position_of x xs = Some i \<Longrightarrow> i < length xs \<and> xs ! i = x"
  by (induction xs arbitrary: i) (auto split: if_splits)

lemma position_of_member: "x \<in> set xs \<Longrightarrow> \<exists>i. position_of x xs = Some i"
  by (induction xs) auto

lemma outcome_at_upd [simp]:
  "outcome_at (acc\<lparr>vote_outcomes := (vote_outcomes acc')(c \<mapsto> t)\<rparr>) cm =
     (if cm = c then t else outcome_at (acc\<lparr>vote_outcomes := vote_outcomes acc'\<rparr>) cm)"
  "outcome_at (acc\<lparr>signers := s\<rparr>) cm = outcome_at acc cm"
  "outcome_at (acc\<lparr>vote_outcomes := vote_outcomes acc\<rparr>) cm = outcome_at acc cm"
  by (simp_all add: outcome_at_def)

lemma signers_at_upd [simp]:
  "signers_at n (acc\<lparr>signers := (signers acc')(c \<mapsto> s)\<rparr>) cm =
     (if cm = c then s else signers_at n (acc\<lparr>signers := signers acc'\<rparr>) cm)"
  "signers_at n (acc\<lparr>vote_outcomes := t\<rparr>) cm = signers_at n acc cm"
  by (simp_all add: signers_at_def)

lemma acc_inv_new: "acc_inv cr tbl (accumulator_new lock)"
  by (simp add: acc_inv_def accumulator_new_def tally_ok_def outcome_at_def signers_at_def)

text \<open>Setting the bit of a new voter.\<close>

lemma tally_ok_add:
  assumes "tally_ok cr tbl cm (t, vm) (bits, sigs)" and "i < length tbl" and "\<not> bits ! i"
    and "stake_key (tbl ! i) = k" and "k \<notin> fst ` set vm" and "key_validate cr k g cm"
  shows "tally_ok cr tbl cm (t + stake_amount (tbl ! i), bt_insert k v vm) (bits[i := True], sigs @ [g])"
proof -
  obtain ps where ps: "length bits = length tbl" "bt_ok vm" "t = signer_weight tbl bits" "map snd ps = sigs"
      "mset (map fst ps) = mset (ver_keys tbl bits)" "distinct (map fst ps)" "fst ` set ps = fst ` set vm"
      "\<forall>(k, g) \<in> set ps. key_validate cr k g cm"
    using assms(1) unfolding tally_ok_def fst_conv snd_conv by blast
  show ?thesis
    unfolding tally_ok_def fst_conv snd_conv
  proof (intro conjI exI [of _ "ps @ [(k, g)]"])
    show "mset (map fst (ps @ [(k, g)])) = mset (ver_keys tbl (bits[i := True]))"
      using mset_ver_keys_set [OF ps(1) assms(2,3)] ps(5) assms(4) by simp
    show "distinct (map fst (ps @ [(k, g)]))" using ps(6) assms(5) [folded ps(7)] by simp
    show "fst ` set (ps @ [(k, g)]) = fst ` set (bt_insert k v vm)" using ps(7) by (auto simp: keys_bt_insert)
    show "\<forall>(k, g) \<in> set (ps @ [(k, g)]). key_validate cr k g cm" using ps(8) assms(6) by auto
  qed (use ps assms signer_weight_set in \<open>simp_all add: bt_ok_insert\<close>)
qed

text \<open>A tally at the threshold assembles, and what it assembles passes the check.\<close>

lemma tally_assembles:
  assumes "agg_complete cr" and "tally_ok cr tbl cm (w, vm) (bits, sigs)"
    and "t \<le> w" and "w < u256_limit"
  shows "\<exists>s. key_assemble cr (public_parameter tbl t) bits sigs = Ok (s, bits) \<and>
             key_check cr (public_parameter tbl t) cm (s, bits) = Ok ()"
proof -
  obtain ps where ps: "length bits = length tbl" "w = signer_weight tbl bits" "map snd ps = sigs"
      "mset (map fst ps) = mset (ver_keys tbl bits)" "\<forall>(k, g) \<in> set ps. key_validate cr k g cm"
    using assms(2) unfolding tally_ok_def fst_conv snd_conv by blast
  have len: "length (ver_keys tbl bits) = length sigs"
    using ps(3,4) by (metis length_map size_mset)
  obtain s where s: "bls_aggregate cr (ver_keys tbl bits) sigs = Some s"
      "bls_multi_sig_verify cr (ver_keys tbl bits) cm s"
    using assms(1) ps(3-5) unfolding agg_complete_def by metis
  have "assemble cr (public_parameter tbl t) bits sigs = Ok (s, bits)"
    using ps(1,2) assms(3,4) len s by (simp add: assemble_eq_Ok)
  moreover have "key_check cr (public_parameter tbl t) cm (s, bits) = Ok ()"
    using ps(1,2) assms(3,4) s by (simp add: result_simps)
  ultimately show ?thesis by (simp add: key_assemble_def)
qed

section \<open>One vote\<close>

text \<open>The commitment voted for and the voter's entry, when the vote passes the checks before the tally.\<close>

definition vote_accepted ::
  "crypto \<Rightarrow> versions \<Rightarrow> ('d \<Rightarrow> commitment) \<Rightarrow> cert_kind \<Rightarrow> membership \<Rightarrow> epoch option \<Rightarrow> UpgradeLock \<Rightarrow> 'd SimpleVote \<Rightarrow>
   commitment \<Rightarrow> StakeTableEntry \<Rightarrow> bool" where
  "vote_accepted cr V cd kind m e lock vote cm x \<longleftrightarrow>
     and_then (versioned_new V lock (v_data vote) (v_view_number vote))
       (\<lambda>vd. Ok (commit_versioned (finalize cr) cd vd)) = Ok cm \<and>
     key_validate cr (signing_key vote) (vote_signature vote) cm \<and>
     cert_stake_table_entry kind m (signing_key vote) e = Some x"

text \<open>The accumulator after a vote has been counted.\<close>

definition counted :: "VoteAccumulator \<Rightarrow> commitment \<Rightarrow> tally \<Rightarrow> bitvec \<times> sig list \<Rightarrow> VoteAccumulator" where
  "counted acc cm t s = acc\<lparr>vote_outcomes := (vote_outcomes acc)(cm \<mapsto> t), signers := (signers acc)(cm \<mapsto> s)\<rparr>"

lemma counted_simps [simp]:
  "outcome_at (counted acc cm t s) c = (if c = cm then t else outcome_at acc c)"
  "signers_at n (counted acc cm t s) c = (if c = cm then s else signers_at n acc c)"
  "upgrade_lock (counted acc cm t s) = upgrade_lock acc"
  by (simp_all add: counted_def outcome_at_def signers_at_def)

lemma acc_inv_counted: "acc_inv cr tbl acc \<Longrightarrow> tally_ok cr tbl cm t s \<Longrightarrow> acc_inv cr tbl (counted acc cm t s)"
  by (simp add: acc_inv_def)

lemma accumulate_counts:
  assumes "vote_accepted cr V cd kind m e (upgrade_lock acc) vote cm x"
    and "position_of x (cert_stake_table kind m e) = Some i"
    and "outcome_at acc cm = (t, vm)" and "signers_at (cert_total_nodes kind m e) acc cm = (bits, sigs)"
    and "signing_key vote \<notin> fst ` set vm" and "i < length bits" and "\<not> bits ! i" and "t + stake_amount x < u256_limit"
  shows "accumulate cr V cd kind m e vote acc =
     (let bits' = bits[i := True]; sigs' = sigs @ [vote_signature vote]; t' = t + stake_amount x;
          acc' = counted acc cm (t', bt_insert (signing_key vote) (vote_signature vote, cm) vm) (bits', sigs')
      in if cert_threshold kind m e \<le> t' then
           and_then (key_assemble cr (public_parameter (cert_stake_table kind m e) (cert_threshold kind m e)) bits' sigs')
             (\<lambda>q. Ok (acc', Some (create_signed_certificate cm (v_data vote) q (v_view_number vote))))
         else Ok (acc', None))"
proof -
  obtain vd where vd: "versioned_new V (upgrade_lock acc) (v_data vote) (v_view_number vote) = Ok vd"
      "cm = commit_versioned (finalize cr) cd vd"
    using assms(1) by (auto simp: vote_accepted_def result_simps)
  then show ?thesis
    using assms by (simp add: accumulate_def Let_def vote_accepted_def bt_contains_iff u256_add_def counted_def)
qed

lemma versioned_new_not_Panic: "versioned_new V lock d view \<noteq> Panic"
  by (simp add: versioned_new_def version_def split: option.splits)

text \<open>Votes that do not pass the checks, and repeated votes, change no tally.\<close>

lemma accumulate_unchanged:
  assumes "\<not> (\<exists>cm x. vote_accepted cr V cd kind m e (upgrade_lock acc) vote cm x \<and> signing_key vote \<notin> voters acc cm)"
  shows "\<exists>acc'. accumulate cr V cd kind m e vote acc = Ok (acc', None) \<and> upgrade_lock acc' = upgrade_lock acc \<and>
           outcome_at acc' = outcome_at acc \<and> signers_at n acc' = signers_at n acc"
  using assms
  by (cases "versioned_new V (upgrade_lock acc) (v_data vote) (v_view_number vote)")
    (auto simp: accumulate_def Let_def vote_accepted_def result_simps voters_def bt_contains_iff fun_eq_iff
      versioned_new_not_Panic split: option.splits prod.splits)

text \<open>
  What the accumulator relies on: the entry found for a key is in the table and carries that key,
  and the table has as many entries as there are nodes.
\<close>

locale voter_table =
  fixes kind :: cert_kind and m :: membership and e :: "epoch option"
  assumes entry_member:
      "cert_stake_table_entry kind m k e = Some x \<Longrightarrow> x \<in> set (cert_stake_table kind m e) \<and> stake_key x = k"
    and nodes_length: "cert_total_nodes kind m e = length (cert_stake_table kind m e)"
begin

lemma accumulate_fresh:
  assumes inv: "acc_inv cr (cert_stake_table kind m e) acc" and agg: "agg_complete cr"
    and lim: "sum_list (map stake_amount (cert_stake_table kind m e)) < u256_limit"
    and ok: "vote_accepted cr V cd kind m e (upgrade_lock acc) vote cm x" and new: "signing_key vote \<notin> voters acc cm"
  shows "\<exists>acc' c. accumulate cr V cd kind m e vote acc = Ok (acc', c) \<and>
           acc_inv cr (cert_stake_table kind m e) acc' \<and> upgrade_lock acc' = upgrade_lock acc \<and>
           voters acc' cm = insert (signing_key vote) (voters acc cm) \<and>
           stake_casted acc' cm = stake_casted acc cm + stake_amount x \<and>
           (c \<noteq> None \<longleftrightarrow> cert_threshold kind m e \<le> stake_casted acc' cm) \<and>
           (\<forall>cert. c = Some cert \<longrightarrow> is_valid_cert cr V cd (upgrade_lock acc) (cert_stake_table kind m e) (cert_threshold kind m e) cert = Ok ())"
proof -
  let ?tbl = "cert_stake_table kind m e" and ?k = "signing_key vote" and ?g = "vote_signature vote"
  have val: "key_validate cr ?k ?g cm" and ent: "cert_stake_table_entry kind m ?k e = Some x"
    and dc: "\<And>cert. c_data cert = v_data vote \<Longrightarrow> c_view_number cert = v_view_number vote \<Longrightarrow>
      data_commitment cr V cd (upgrade_lock acc) cert = Ok cm"
    using ok by (simp_all add: vote_accepted_def data_commitment_def)
  obtain i where i: "position_of x ?tbl = Some i" "i < length ?tbl" "?tbl ! i = x"
    using entry_member [OF ent] position_of_member position_of_Some by metis
  obtain t vm bits sigs where out: "outcome_at acc cm = (t, vm)" "signers_at (length ?tbl) acc cm = (bits, sigs)"
    by fastforce
  have tally: "tally_ok cr ?tbl cm (t, vm) (bits, sigs)" using inv out by (metis acc_inv_def)
  have key: "stake_key (?tbl ! i) = ?k" using entry_member [OF ent] i by simp
  have nin: "?k \<notin> fst ` set vm" using new out by (simp add: voters_def)
  have len: "length bits = length ?tbl" using tally by (simp add: tally_ok_def)
  have bit: "\<not> bits ! i"
    using tally ver_keys_nth [OF len i(2)] nin key unfolding tally_ok_def
    by (metis fst_conv list.set_map mset_eq_setD snd_conv)
  have tally': "tally_ok cr ?tbl cm (t + stake_amount x, bt_insert ?k (?g, cm) vm) (bits[i := True], sigs @ [?g])"
    using tally_ok_add [OF tally i(2) bit key nin val] i(3) by simp
  then have w: "t + stake_amount x < u256_limit"
    using lim signer_weight_le [of "bits[i := True]" ?tbl] len by (simp add: tally_ok_def)
  let ?acc = "counted acc cm (t + stake_amount x, bt_insert ?k (?g, cm) vm) (bits[i := True], sigs @ [?g])"
  note step = accumulate_counts [OF ok i(1) out(1) out(2) [folded nodes_length] nin _ bit w]
  have inv': "acc_inv cr ?tbl ?acc" using acc_inv_counted [OF inv tally'] .
  have acc: "voters ?acc cm = insert ?k (voters acc cm)" "stake_casted ?acc cm = stake_casted acc cm + stake_amount x"
    using out(1) by (simp_all add: voters_def stake_casted_def keys_bt_insert)
  show ?thesis
  proof (cases "cert_threshold kind m e \<le> t + stake_amount x")
    case True
    obtain s where s: "key_assemble cr (public_parameter ?tbl (cert_threshold kind m e)) (bits[i := True]) (sigs @ [?g]) = Ok (s, bits[i := True])"
        "key_check cr (public_parameter ?tbl (cert_threshold kind m e)) cm (s, bits[i := True]) = Ok ()"
      using tally_assembles [OF agg tally' True w] by blast
    let ?cert = "create_signed_certificate cm (v_data vote) (s, bits[i := True]) (v_view_number vote)"
    have "accumulate cr V cd kind m e vote acc = Ok (?acc, Some ?cert)"
      using step len i(2) True s(1) by (simp add: Let_def)
    moreover have "is_valid_cert cr V cd (upgrade_lock acc) ?tbl (cert_threshold kind m e) ?cert = Ok ()"
      using s(2) by (simp add: is_valid_cert_def dc create_signed_certificate_def wrap_eq_Ok with_context_eq_Ok)
    ultimately show ?thesis using inv' acc True out(1) by (simp add: stake_casted_def)
  next
    case False
    then have "accumulate cr V cd kind m e vote acc = Ok (?acc, None)"
      using step len i(2) by (simp add: Let_def)
    then show ?thesis using inv' acc False out(1) by (simp add: stake_casted_def)
  qed
qed

lemma accumulate_step:
  assumes inv: "acc_inv cr (cert_stake_table kind m e) acc" and agg: "agg_complete cr"
    and lim: "sum_list (map stake_amount (cert_stake_table kind m e)) < u256_limit"
  shows "\<exists>acc' c. accumulate cr V cd kind m e vote acc = Ok (acc', c) \<and>
           acc_inv cr (cert_stake_table kind m e) acc' \<and> upgrade_lock acc' = upgrade_lock acc \<and>
           (\<forall>cert. c = Some cert \<longrightarrow> is_valid_cert cr V cd (upgrade_lock acc) (cert_stake_table kind m e) (cert_threshold kind m e) cert = Ok ())"
proof (cases "\<exists>cm x. vote_accepted cr V cd kind m e (upgrade_lock acc) vote cm x \<and> signing_key vote \<notin> voters acc cm")
  case True
  then show ?thesis using accumulate_fresh [OF assms] by metis
next
  case False
  then obtain acc' where "accumulate cr V cd kind m e vote acc = Ok (acc', None)" "upgrade_lock acc' = upgrade_lock acc"
      "outcome_at acc' = outcome_at acc" "signers_at (length (cert_stake_table kind m e)) acc' = signers_at (length (cert_stake_table kind m e)) acc"
    using accumulate_unchanged by metis
  moreover from this have "acc_inv cr (cert_stake_table kind m e) acc'" using inv by (simp add: acc_inv_def)
  ultimately show ?thesis by (intro exI [of _ acc'] exI [of _ None]) simp
qed

lemma accumulate_votes_run:
  assumes "agg_complete cr" and "sum_list (map stake_amount (cert_stake_table kind m e)) < u256_limit"
  shows "acc_inv cr (cert_stake_table kind m e) acc \<Longrightarrow>
     \<exists>acc' cs. accumulate_votes cr V cd kind m e vs acc = Ok (acc', cs) \<and>
       acc_inv cr (cert_stake_table kind m e) acc' \<and>
       (\<forall>cert \<in> set cs. is_valid_cert cr V cd (upgrade_lock acc) (cert_stake_table kind m e) (cert_threshold kind m e) cert = Ok ())"
proof (induction vs arbitrary: acc)
  case (Cons v vs)
  obtain acc1 c where 1: "accumulate cr V cd kind m e v acc = Ok (acc1, c)" "acc_inv cr (cert_stake_table kind m e) acc1"
      "upgrade_lock acc1 = upgrade_lock acc"
      "\<forall>cert. c = Some cert \<longrightarrow> is_valid_cert cr V cd (upgrade_lock acc) (cert_stake_table kind m e) (cert_threshold kind m e) cert = Ok ()"
    using accumulate_step [OF Cons.prems assms] by blast
  show ?case using Cons.IH [OF 1(2)] 1 by (auto split: option.splits)
qed simp

lemma accumulate_votes_certifies:
  assumes "agg_complete cr" and "sum_list (map stake_amount (cert_stake_table kind m e)) < u256_limit"
  shows "acc_inv cr (cert_stake_table kind m e) acc \<Longrightarrow>
     \<forall>v \<in> set vs. \<exists>x. vote_accepted cr V cd kind m e (upgrade_lock acc) v cm x \<Longrightarrow>
     distinct (map signing_key vs) \<Longrightarrow> signing_key ` set vs \<inter> voters acc cm = {} \<Longrightarrow>
     stake_casted acc cm < cert_threshold kind m e \<Longrightarrow>
     cert_threshold kind m e \<le> stake_casted acc cm +
       sum_list (map (\<lambda>v. stake_amount (the (cert_stake_table_entry kind m (signing_key v) e))) vs) \<Longrightarrow>
     \<exists>acc' cs. accumulate_votes cr V cd kind m e vs acc = Ok (acc', cs) \<and> cs \<noteq> []"
proof (induction vs arbitrary: acc)
  case (Cons v vs)
  obtain x where x: "vote_accepted cr V cd kind m e (upgrade_lock acc) v cm x" using Cons.prems(2) by auto
  then have am: "cert_stake_table_entry kind m (signing_key v) e = Some x" by (simp add: vote_accepted_def)
  have "signing_key v \<notin> voters acc cm" using Cons.prems(4) by auto
  from accumulate_fresh [OF Cons.prems(1) assms x this]
  obtain acc1 c where 1: "accumulate cr V cd kind m e v acc = Ok (acc1, c)" "acc_inv cr (cert_stake_table kind m e) acc1"
      "upgrade_lock acc1 = upgrade_lock acc" "voters acc1 cm = insert (signing_key v) (voters acc cm)"
      "stake_casted acc1 cm = stake_casted acc cm + stake_amount x"
      "c \<noteq> None \<longleftrightarrow> cert_threshold kind m e \<le> stake_casted acc1 cm"
    by blast
  show ?case
  proof (cases "cert_threshold kind m e \<le> stake_casted acc1 cm")
    case True
    then show ?thesis using 1(1,6) accumulate_votes_run [OF assms 1(2), of V cd vs] by fastforce
  next
    case False
    have "\<exists>acc' cs. accumulate_votes cr V cd kind m e vs acc1 = Ok (acc', cs) \<and> cs \<noteq> []"
      using Cons.prems(2-6) False am 1(3-5) by (intro Cons.IH [OF 1(2)]) auto
    then show ?thesis using 1(1) False 1(6) by auto
  qed
qed simp

end

text \<open>Every committee is a table of voters, for every kind of certificate.\<close>

sublocale committee \<subseteq> voter: voter_table kind m e for kind
proof
  fix k x assume "cert_stake_table_entry kind m k e = Some x"
  then show "x \<in> set (cert_stake_table kind m e) \<and> stake_key x = k"
    using stake_member da_stake_member by (cases kind) auto
next
  show "cert_total_nodes kind m e = length (cert_stake_table kind m e)"
    using total_length da_total_length by (cases kind) auto
qed

section \<open>Properties\<close>

text \<open>
  C16. Accumulating votes for a static committee, in any order and with any invalid, repeated or
  foreign votes among them, never panics, and every certificate returned along the way passes
  \<open>is_valid_cert\<close> for the stake table and the threshold of its kind.
\<close>

theorem accumulator_certificates_valid:
  assumes "m = static_membership (static_new ms das)" and "agg_complete cr"
    and "sum_list (map stake_amount (cert_stake_table kind m e)) < u256_limit"
  shows "\<exists>acc cs. accumulate_votes cr V cd kind m e vs (accumulator_new lock) = Ok (acc, cs) \<and>
     (\<forall>cert \<in> set cs. is_valid_cert cr V cd lock (cert_stake_table kind m e) (cert_threshold kind m e) cert = Ok ())"
  using sc.voter.accumulate_votes_run [OF assms(2) assms(3) [unfolded assms(1)] acc_inv_new [where lock = lock]]
  by (fastforce simp: assms(1) accumulator_new_def)

definition qvote :: "pubkey \<Rightarrow> sig \<Rightarrow> QuorumVote" where
  "qvote k g = \<lparr>v_signature = (k, g), v_data = QuorumData [7], v_view_number = 5\<rparr>"

lemmas toy_vote_simps = qvote_def signing_key_def vote_signature_def toy_crypto_def vote_accepted_def versioned_new_def
  version_def upgrade_lock_new_def u256_limit_def

theorem accumulator_certificates_valid_witness:
  "\<exists>acc cs. accumulate_votes toy_crypto toy_versions (commit_QuorumData (finalize toy_crypto)) (QuorumCert SuccessThreshold)
       (static_membership four_nodes) None [qvote 1 1, qvote 1 1, qvote 2 9, qvote 8 8, qvote 2 2, qvote 3 3] (accumulator_new upgrade_lock_new) = Ok (acc, cs) \<and>
     (\<forall>cert \<in> set cs. is_valid_cert toy_crypto toy_versions (commit_QuorumData (finalize toy_crypto)) upgrade_lock_new
        (cert_stake_table (QuorumCert SuccessThreshold) (static_membership four_nodes) None)
        (cert_threshold (QuorumCert SuccessThreshold) (static_membership four_nodes) None) cert = Ok ())"
  by (rule accumulator_certificates_valid [OF _ toy_agg_complete, where ms = "[peer 1 1, peer 2 1, peer 3 1, peer 4 1]" and das = "[]"])
    (simp_all add: four_nodes_simps u256_limit_def)

text \<open>
  C17. The accumulator is live.  Valid votes of distinct members of a static committee for one
  commitment, whose stake adds up to the threshold, make it return a certificate.
\<close>

theorem accumulator_certifies_quorum:
  assumes "m = static_membership (static_new ms das)" and "agg_complete cr"
    and "sum_list (map stake_amount (cert_stake_table kind m e)) < u256_limit"
    and "\<forall>v \<in> set vs. \<exists>x. vote_accepted cr V cd kind m e lock v cm x" and "distinct (map signing_key vs)"
    and "0 < cert_threshold kind m e"
    and "cert_threshold kind m e \<le> sum_list (map (\<lambda>v. stake_amount (the (cert_stake_table_entry kind m (signing_key v) e))) vs)"
  shows "\<exists>acc cs. accumulate_votes cr V cd kind m e vs (accumulator_new lock) = Ok (acc, cs) \<and> cs \<noteq> []"
  unfolding assms(1)
  by (rule sc.voter.accumulate_votes_certifies [OF assms(2) assms(3) [unfolded assms(1)] acc_inv_new _ assms(5)])
    (use assms in \<open>simp_all add: accumulator_new_def voters_def stake_casted_def outcome_at_def\<close>)

theorem accumulator_certifies_quorum_witness:
  "\<exists>acc cs. accumulate_votes toy_crypto toy_versions (commit_QuorumData (finalize toy_crypto)) (QuorumCert SuccessThreshold)
       (static_membership four_nodes) None [qvote 4 4, qvote 2 2, qvote 3 3] (accumulator_new upgrade_lock_new) = Ok (acc, cs) \<and> cs \<noteq> []"
  by (rule accumulator_certifies_quorum [OF _ toy_agg_complete, where ms = "[peer 1 1, peer 2 1, peer 3 1, peer 4 1]" and das = "[]" and cm = "[]"])
    (simp_all add: four_nodes_simps toy_vote_simps commit_versioned_def index_entries_def bt_get_def)

end
