(* ===== verification/VoteCollection.thy ===== *)
theory VoteCollection
  imports Validation Accumulator
begin

text \<open>
  Collecting votes into certificates: \<open>crates/task-impls/src/vote_collection.rs\<close>.  What the traits
  \<open>AggregatableVote\<close> and \<open>HandleVoteEvent\<close> say of each kind of vote is a dictionary; the collector and the
  table of collectors are generic over it.  Membership, key and upgrade lock are shared with the
  collector, so each call takes their current values.
\<close>

section \<open>Kinds of votes\<close>

record 'd aggregatable =
  av_commit :: "finalizer \<Rightarrow> 'd \<Rightarrow> commitment"
  av_kind :: cert_kind
  av_leader :: "'d SimpleVote \<Rightarrow> membership \<Rightarrow> epoch option \<Rightarrow> (pubkey, error) result"
  av_make_cert_event :: "'d SimpleCertificate \<Rightarrow> pubkey \<Rightarrow> HotShotEvent"
  av_event_vote :: "HotShotEvent \<Rightarrow> 'd SimpleVote option"
  av_sender_epoch :: "epoch option \<Rightarrow> (epoch option, error) result"

definition quorum_votes :: "QuorumData2 aggregatable" where
  "quorum_votes = \<lparr>av_commit = commit_QuorumData2, av_kind = QuorumCert SuccessThreshold,
     av_leader = (\<lambda>v m. leader m (v_view_number v + 1)), av_make_cert_event = (\<lambda>cert _. Qc2Formed (Inl cert)),
     av_event_vote = (\<lambda>ev. case ev of QuorumVoteRecv v \<Rightarrow> Some v | _ \<Rightarrow> None), av_sender_epoch = Ok\<rparr>"

definition next_epoch_quorum_votes :: "NextEpochQuorumData2 aggregatable" where
  "next_epoch_quorum_votes = \<lparr>av_commit = commit_NextEpochQuorumData2, av_kind = QuorumCert SuccessThreshold,
     av_leader = (\<lambda>v m. leader m (v_view_number v + 1)), av_make_cert_event = (\<lambda>cert _. NextEpochQc2Formed (Inl cert)),
     av_event_vote = (\<lambda>ev. case ev of QuorumVoteRecv v \<Rightarrow> Some (next_epoch_vote v) | _ \<Rightarrow> None),
     av_sender_epoch = (\<lambda>e. case e of Some x \<Rightarrow> Ok (Some (x + 1))
       | None \<Rightarrow> Err (Error ErrorLevel [''epoch should not be none in handle_vote_event'']))\<rparr>"

definition upgrade_votes :: "UpgradeProposalData aggregatable" where
  "upgrade_votes = \<lparr>av_commit = commit_UpgradeProposalData, av_kind = QuorumCert UpgradeThreshold,
     av_leader = (\<lambda>v m. leader m (v_view_number v)), av_make_cert_event = (\<lambda>cert _. UpgradeCertificateFormed cert),
     av_event_vote = (\<lambda>ev. case ev of UpgradeVoteRecv v \<Rightarrow> Some v | _ \<Rightarrow> None), av_sender_epoch = Ok\<rparr>"

definition da_votes :: "DaData2 aggregatable" where
  "da_votes = \<lparr>av_commit = commit_DaData2, av_kind = cert_kind.DaCert,
     av_leader = (\<lambda>v m. leader m (v_view_number v)), av_make_cert_event = DacSend,
     av_event_vote = (\<lambda>ev. case ev of DaVoteRecv v \<Rightarrow> Some v | _ \<Rightarrow> None), av_sender_epoch = Ok\<rparr>"

definition timeout_votes :: "TimeoutData2 aggregatable" where
  "timeout_votes = \<lparr>av_commit = commit_TimeoutData2, av_kind = QuorumCert SuccessThreshold,
     av_leader = (\<lambda>v m. leader m (v_view_number v + 1)), av_make_cert_event = (\<lambda>cert _. Qc2Formed (Inr cert)),
     av_event_vote = (\<lambda>ev. case ev of TimeoutVoteRecv v \<Rightarrow> Some v | _ \<Rightarrow> None), av_sender_epoch = Ok\<rparr>"

definition pre_commit_votes :: "ViewSyncPreCommitData2 aggregatable" where
  "pre_commit_votes = \<lparr>av_commit = commit_ViewSyncPreCommitData2, av_kind = QuorumCert OneHonestThreshold,
     av_leader = (\<lambda>v m. case v_data v of ViewSyncPreCommitData2 relay rnd _ \<Rightarrow> leader m (rnd + relay)),
     av_make_cert_event = ViewSyncPreCommitCertificateSend,
     av_event_vote = (\<lambda>ev. case ev of ViewSyncPreCommitVoteRecv v \<Rightarrow> Some v | _ \<Rightarrow> None), av_sender_epoch = Ok\<rparr>"

definition commit_votes :: "ViewSyncCommitData2 aggregatable" where
  "commit_votes = \<lparr>av_commit = commit_ViewSyncCommitData2, av_kind = QuorumCert SuccessThreshold,
     av_leader = (\<lambda>v m. case v_data v of ViewSyncCommitData2 relay rnd _ \<Rightarrow> leader m (rnd + relay)),
     av_make_cert_event = ViewSyncCommitCertificateSend,
     av_event_vote = (\<lambda>ev. case ev of ViewSyncCommitVoteRecv v \<Rightarrow> Some v | _ \<Rightarrow> None), av_sender_epoch = Ok\<rparr>"

definition finalize_votes :: "ViewSyncFinalizeData2 aggregatable" where
  "finalize_votes = \<lparr>av_commit = commit_ViewSyncFinalizeData2, av_kind = QuorumCert SuccessThreshold,
     av_leader = (\<lambda>v m. case v_data v of ViewSyncFinalizeData2 relay rnd _ \<Rightarrow> leader m (rnd + relay)),
     av_make_cert_event = ViewSyncFinalizeCertificateSend,
     av_event_vote = (\<lambda>ev. case ev of ViewSyncFinalizeVoteRecv v \<Rightarrow> Some v | _ \<Rightarrow> None), av_sender_epoch = Ok\<rparr>"

section \<open>A collector\<close>

record VoteCollectionTaskState =
  vc_accumulator :: "VoteAccumulator option"
  vc_view :: u64
  vc_epoch :: "epoch option"
  vc_transition_indicator :: EpochTransitionIndicator

text \<open>The node whose votes are collected: what the collector shares with it.\<close>

record collecting_node =
  cn_membership :: membership
  cn_public_key :: pubkey
  cn_upgrade_lock :: UpgradeLock

definition node_of :: "'a shared_scheme \<Rightarrow> collecting_node" where
  "node_of s = \<lparr>cn_membership = sh_membership s, cn_public_key = sh_public_key s, cn_upgrade_lock = sh_upgrade_lock s\<rparr>"

definition accumulate_vote ::
  "env \<Rightarrow> 'd aggregatable \<Rightarrow> collecting_node \<Rightarrow> 'd SimpleVote \<Rightarrow> epoch option \<Rightarrow> (VoteCollectionTaskState, 'd SimpleCertificate option) handler" where
  "accumulate_vote E av n vote sender_epoch =
     seq (check_state (\<lambda>s. if vc_transition_indicator s = InTransition then Ok ()
       else and_then (av_leader av vote (cn_membership n) (vc_epoch s)) (\<lambda>l.
         ensure (l = cn_public_key n) (Error Info [''Received vote for a view in which we were not the leader.'']))))
    (seq (check_state (\<lambda>s. ensure (v_view_number vote = vc_view s)
       (Error ErrorLevel [''Vote view does not match! This vote should not have been passed to this accumulator.''])))
    (andThen (check_state (\<lambda>s. opt_context (Error Warn [''No accumulator to handle vote with. This shouldn't happen.'']) (vc_accumulator s))) (\<lambda>acc.
     andThen (lift (accumulate (e_crypto E) (e_versions E) (av_commit av (finalize (e_crypto E))) (av_kind av) (cn_membership n) sender_epoch vote
       (acc\<lparr>upgrade_lock := cn_upgrade_lock n\<rparr>))) (\<lambda>(acc', c).
     case c of
       None \<Rightarrow> seq (modify (\<lambda>s. s\<lparr>vc_accumulator := Some acc'\<rparr>)) (ret None)
     | Some cert \<Rightarrow>
         seq (broadcast_event (av_make_cert_event av cert (cn_public_key n)))
        (seq (modify (\<lambda>s. s\<lparr>vc_accumulator := None\<rparr>)) (ret (Some cert)))))))"

definition handle_vote_event ::
  "env \<Rightarrow> 'd aggregatable \<Rightarrow> collecting_node \<Rightarrow> HotShotEvent \<Rightarrow> (VoteCollectionTaskState, 'd SimpleCertificate option) handler" where
  "handle_vote_event E av n ev =
     (case av_event_vote av ev of
        None \<Rightarrow> ret None
      | Some vote \<Rightarrow> andThen (check_state (\<lambda>s. av_sender_epoch av (vc_epoch s))) (accumulate_vote E av n vote))"

definition collector_new :: "collecting_node \<Rightarrow> u64 \<Rightarrow> epoch option \<Rightarrow> EpochTransitionIndicator \<Rightarrow> VoteCollectionTaskState" where
  "collector_new n view e indicator =
     \<lparr>vc_accumulator = Some (accumulator_new (cn_upgrade_lock n)), vc_view = view, vc_epoch = e, vc_transition_indicator = indicator\<rparr>"

text \<open>The new collector with its first vote; the state of the handler is not used.\<close>

definition create_vote_accumulator ::
  "env \<Rightarrow> 'd aggregatable \<Rightarrow> collecting_node \<Rightarrow> u64 \<Rightarrow> epoch option \<Rightarrow> HotShotEvent \<Rightarrow> EpochTransitionIndicator \<Rightarrow> ('s, VoteCollectionTaskState) handler" where
  "create_vote_accumulator E av n view e ev indicator s =
     map_option (\<lambda>(r, st, out). (map_result (\<lambda>_. st) id r, s, out)) (handle_vote_event E av n ev (collector_new n view e indicator))"

section \<open>The table of collectors\<close>

type_synonym vote_collectors = "(u64, VoteCollectionTaskState) btree"

definition handle_vote ::
  "env \<Rightarrow> 'd aggregatable \<Rightarrow> collecting_node \<Rightarrow> 'd SimpleVote \<Rightarrow> epoch option \<Rightarrow> HotShotEvent \<Rightarrow> EpochTransitionIndicator \<Rightarrow>
   (vote_collectors, unit) handler" where
  "handle_vote E av n vote e ev indicator collectors =
     (let view = v_view_number vote in
      case bt_get view collectors of
        None \<Rightarrow>
          andThen (create_vote_accumulator E av n view e ev indicator) (\<lambda>collector. modify (bt_insert view collector)) collectors
      | Some collector \<Rightarrow>
          map_option (\<lambda>(r, collector', out).
            (map_result (\<lambda>_. ()) id r,
             case r of Ok (Some _) \<Rightarrow> bt_split_off view (bt_remove view collectors) | _ \<Rightarrow> bt_insert view collector' collectors, out))
            (handle_vote_event E av n ev collector))"

section \<open>Effects of a collector\<close>

lemma emits_handle_vote_event:
  assumes "\<And>cert k. P (Internal (av_make_cert_event av cert k))"
  shows "emits P (handle_vote_event E av n ev)"
proof -
  have "emits P (accumulate_vote E av n v e)" for v e
    unfolding accumulate_vote_def by (intro emits_intros) (rule assms)
  then show ?thesis unfolding handle_vote_event_def by (intro emits_intros)
qed

lemma emits_handle_vote:
  assumes "\<And>cert k. P (Internal (av_make_cert_event av cert k))"
  shows "emits P (handle_vote E av n vote e ev indicator)"
proof -
  have event: "emits P (handle_vote_event E av n ev)" by (rule emits_handle_vote_event) (rule assms)
  have "emits P (create_vote_accumulator E av n view e ev indicator :: (vote_collectors, _) handler)" for view
    using emits_wp [OF event, of "collector_new n view e indicator"]
    unfolding emits_def wp_def create_vote_accumulator_def by (auto split: option.splits)
  then have new: "emits P (andThen (create_vote_accumulator E av n view e ev indicator) (\<lambda>collector. modify (bt_insert view collector)))" for view
    by (intro emits_intros)
  have "wp (handle_vote E av n vote e ev indicator) (\<lambda>r s1 out. \<forall>x \<in> set out. P x) cs" for cs
  proof (cases "bt_get (v_view_number vote) cs")
    case None
    then show ?thesis using emits_wp [OF new, of "v_view_number vote" cs] by (simp add: wp_def handle_vote_def Let_def)
  next
    case (Some collector)
    then show ?thesis using emits_wp [OF event, of collector]
      by (auto simp: wp_def handle_vote_def Let_def split: option.splits)
  qed
  then show ?thesis by (simp add: emits_def)
qed

lemma emits_zoom: "(\<And>s. emits P (h s)) \<Longrightarrow> emits P (zoom get put h)"
  by (simp add: emits_def wp_simps)

section \<open>Certificates of a collector\<close>

lemma accumulate_certificate:
  "accumulate cr V cd kind m e vote acc = Ok (acc', Some cert) \<Longrightarrow> c_data cert = v_data vote \<and> c_view_number cert = v_view_number vote"
  by (auto simp: accumulate_def create_signed_certificate_def Let_def and_then_eq_Ok split: result.splits option.splits prod.splits if_splits)

definition collector_ok :: "crypto \<Rightarrow> StakeTableEntry list \<Rightarrow> VoteCollectionTaskState \<Rightarrow> bool" where
  "collector_ok cr tbl st \<longleftrightarrow> (\<forall>acc. vc_accumulator st = Some acc \<longrightarrow> acc_inv cr tbl acc)"

definition collectors_ok :: "crypto \<Rightarrow> StakeTableEntry list \<Rightarrow> vote_collectors \<Rightarrow> bool" where
  "collectors_ok cr tbl cs \<longleftrightarrow> (\<forall>(view, st) \<in> set cs. collector_ok cr tbl st \<and> vc_view st = view)"

lemma acc_inv_lock [simp]: "acc_inv cr tbl (acc\<lparr>upgrade_lock := l\<rparr>) = acc_inv cr tbl acc"
  by (simp add: acc_inv_def outcome_at_def signers_at_def)

text \<open>The effect announces a certificate for a vote of the given event, in the given view, valid for the node.\<close>

definition announces_valid :: "env \<Rightarrow> 'd aggregatable \<Rightarrow> collecting_node \<Rightarrow> u64 \<Rightarrow> HotShotEvent \<Rightarrow> effect \<Rightarrow> bool" where
  "announces_valid E av n view ev x \<longleftrightarrow>
     (\<exists>cert vote. x = Internal (av_make_cert_event av cert (cn_public_key n)) \<and> av_event_vote av ev = Some vote \<and>
        c_data cert = v_data vote \<and> v_view_number vote = view \<and> c_view_number cert = view \<and>
        is_valid_cert (e_crypto E) (e_versions E) (av_commit av (finalize (e_crypto E))) (cn_upgrade_lock n)
          (cert_stake_table (av_kind av) (cn_membership n) None) (cert_threshold (av_kind av) (cn_membership n) None) cert = Ok ())"

text \<open>A node with a static committee whose total stake is below the limit of the stake type.\<close>

definition collecting_ok :: "env \<Rightarrow> 'd aggregatable \<Rightarrow> collecting_node \<Rightarrow> bool" where
  "collecting_ok E av n \<longleftrightarrow> agg_complete (e_crypto E) \<and> (\<exists>ms das. cn_membership n = static_membership (static_new ms das)) \<and>
     sum_list (map stake_amount (cert_stake_table (av_kind av) (cn_membership n) None)) < u256_limit"

lemma static_table_epoch:
  "cert_stake_table kind (static_membership sc) e = cert_stake_table kind (static_membership sc) None"
  "cert_threshold kind (static_membership sc) e = cert_threshold kind (static_membership sc) None"
proof -
  show "cert_stake_table kind (static_membership sc) e = cert_stake_table kind (static_membership sc) None"
    by (cases kind) (simp_all add: static_membership_def)
  show "cert_threshold kind (static_membership sc) e = cert_threshold kind (static_membership sc) None"
  proof (cases kind)
    case (QuorumCert t)
    then show ?thesis by (cases t) (simp_all add: static_membership_def)
  qed (simp add: static_membership_def)
qed

lemma accumulate_collecting:
  assumes "collecting_ok E av n" and "acc_inv (e_crypto E) (cert_stake_table (av_kind av) (cn_membership n) None) acc"
  shows "\<exists>acc' c. accumulate (e_crypto E) (e_versions E) cd (av_kind av) (cn_membership n) e vote acc = Ok (acc', c) \<and>
     acc_inv (e_crypto E) (cert_stake_table (av_kind av) (cn_membership n) None) acc' \<and>
     (\<forall>cert. c = Some cert \<longrightarrow> is_valid_cert (e_crypto E) (e_versions E) cd (upgrade_lock acc)
        (cert_stake_table (av_kind av) (cn_membership n) None) (cert_threshold (av_kind av) (cn_membership n) None) cert = Ok ())"
proof -
  obtain ms das where m: "cn_membership n = static_membership (static_new ms das)" using assms(1) by (auto simp: collecting_ok_def)
  note tbl = static_table_epoch [of "av_kind av" "static_new ms das" e]
  have "agg_complete (e_crypto E)" and "sum_list (map stake_amount (cert_stake_table (av_kind av) (static_membership (static_new ms das)) e)) < u256_limit"
    using assms(1) by (simp_all add: collecting_ok_def m tbl)
  from sc.voter.accumulate_step [OF _ this, of acc "e_versions E" cd vote] assms(2)
  show ?thesis unfolding m tbl by blast
qed

lemma accumulate_vote_valid:
  assumes ok: "collecting_ok E av n" and st: "collector_ok (e_crypto E) (cert_stake_table (av_kind av) (cn_membership n) None) st"
    and ev: "av_event_vote av ev = Some vote"
  shows "wp (accumulate_vote E av n vote e) (\<lambda>r st' out. vc_view st' = vc_view st \<and>
      collector_ok (e_crypto E) (cert_stake_table (av_kind av) (cn_membership n) None) st' \<and> (\<forall>x \<in> set out. announces_valid E av n (vc_view st) ev x)) st"
  unfolding accumulate_vote_def
proof (intro wp_intros, goal_cases)
  case (1 u v acc x)
  then have acc: "acc_inv (e_crypto E) (cert_stake_table (av_kind av) (cn_membership n) None) (acc\<lparr>upgrade_lock := cn_upgrade_lock n\<rparr>)"
    and view: "v_view_number vote = vc_view st"
    using st by (auto simp: collector_ok_def opt_context_eq_Ok ensure_eq_Ok)
  obtain acc' c where x: "x = (acc', c)" by fastforce
  note run = accumulate_collecting [OF ok acc, of "av_commit av (finalize (e_crypto E))" e vote]
  then have acc': "acc_inv (e_crypto E) (cert_stake_table (av_kind av) (cn_membership n) None) acc'"
    and valid: "\<And>cert. c = Some cert \<Longrightarrow> is_valid_cert (e_crypto E) (e_versions E) (av_commit av (finalize (e_crypto E))) (cn_upgrade_lock n)
        (cert_stake_table (av_kind av) (cn_membership n) None) (cert_threshold (av_kind av) (cn_membership n) None) cert = Ok ()"
    using 1 unfolding x by auto
  show ?case
  proof (cases c)
    case None
    then show ?thesis using acc' by (simp add: x wp_simps collector_ok_def)
  next
    case (Some cert)
    have "c_data cert = v_data vote \<and> c_view_number cert = v_view_number vote"
      using accumulate_certificate 1 unfolding x Some by blast
    then show ?thesis using valid [OF Some] ev view unfolding x Some
      by (auto simp: wp_simps collector_ok_def announces_valid_def)
  qed
qed (use st in \<open>auto simp: collector_ok_def\<close>)

lemma handle_vote_event_valid:
  assumes "collecting_ok E av n" and "collector_ok (e_crypto E) (cert_stake_table (av_kind av) (cn_membership n) None) st"
  shows "wp (handle_vote_event E av n ev) (\<lambda>r st' out. vc_view st' = vc_view st \<and>
      collector_ok (e_crypto E) (cert_stake_table (av_kind av) (cn_membership n) None) st' \<and> (\<forall>x \<in> set out. announces_valid E av n (vc_view st) ev x)) st"
  using assms accumulate_vote_valid [OF assms]
  by (cases "av_event_vote av ev") (auto simp: handle_vote_event_def wp_simps split: result.splits)

lemma collector_new_ok: "collector_ok cr tbl (collector_new n view e indicator)" "vc_view (collector_new n view e indicator) = view"
  by (simp_all add: collector_ok_def collector_new_def acc_inv_new)

lemma create_valid:
  assumes "collecting_ok E av n"
  shows "wp (create_vote_accumulator E av n view e ev indicator) (\<lambda>r s' out. s' = s \<and>
      (\<forall>st. r = Ok st \<longrightarrow> collector_ok (e_crypto E) (cert_stake_table (av_kind av) (cn_membership n) None) st \<and> vc_view st = view) \<and>
      (\<forall>x \<in> set out. announces_valid E av n view ev x)) s"
  using handle_vote_event_valid [OF assms, of "collector_new n view e indicator" ev]
  by (auto simp: wp_def create_vote_accumulator_def collector_new_ok map_result_eq_Ok split: option.splits)

lemma handle_vote_valid:
  assumes "collecting_ok E av n" and "collectors_ok (e_crypto E) (cert_stake_table (av_kind av) (cn_membership n) None) cs"
  shows "wp (handle_vote E av n vote e ev indicator)
    (\<lambda>r cs' out. collectors_ok (e_crypto E) (cert_stake_table (av_kind av) (cn_membership n) None) cs' \<and>
       (\<forall>x \<in> set out. announces_valid E av n (v_view_number vote) ev x)) cs"
proof (cases "bt_get (v_view_number vote) cs")
  case None
  note create_valid [OF assms(1), of "v_view_number vote" e ev indicator cs]
  then have "wp (andThen (create_vote_accumulator E av n (v_view_number vote) e ev indicator) (\<lambda>collector. modify (bt_insert (v_view_number vote) collector)))
    (\<lambda>r cs' out. collectors_ok (e_crypto E) (cert_stake_table (av_kind av) (cn_membership n) None) cs' \<and>
       (\<forall>x \<in> set out. announces_valid E av n (v_view_number vote) ev x)) cs"
    by (rule wp_andThenI) (use assms(2) in \<open>auto simp: wp_simps collectors_ok_def dest!: in_bt_insert\<close>)
  then show ?thesis by (simp add: wp_def handle_vote_def None Let_def)
next
  case (Some st)
  then have "(v_view_number vote, st) \<in> set cs" by (auto simp: bt_get_def dest: map_of_SomeD)
  then have st: "collector_ok (e_crypto E) (cert_stake_table (av_kind av) (cn_membership n) None) st" "vc_view st = v_view_number vote"
    using assms(2) by (auto simp: collectors_ok_def)
  show ?thesis
    using handle_vote_event_valid [OF assms(1) st(1), of ev] assms(2)
    by (auto simp: wp_def handle_vote_def Some Let_def st(2) collectors_ok_def bt_split_off_def bt_remove_def dest!: in_bt_insert
        split: option.splits result.splits)
qed

text \<open>
  C15. Whatever votes a node with a static committee handles, every certificate its collectors announce is
  valid for the node's stake table and threshold, is for the view the collector was made for, and carries the data of
  the vote that completed it; the collectors stay consistent.
\<close>

theorem collected_certificates_valid:
  assumes "collecting_ok E av n" and "collectors_ok (e_crypto E) (cert_stake_table (av_kind av) (cn_membership n) None) cs"
  shows "wp (handle_vote E av n vote e ev indicator)
    (\<lambda>r cs' out. collectors_ok (e_crypto E) (cert_stake_table (av_kind av) (cn_membership n) None) cs' \<and>
       (\<forall>x \<in> set out. announces_valid E av n (v_view_number vote) ev x)) cs"
  using assms by (rule handle_vote_valid)

lemma inj_agg_complete: "agg_complete inj_crypto"
  using toy_agg_complete by (simp add: agg_complete_def inj_crypto_def)

definition toy_collecting :: collecting_node where
  "toy_collecting = \<lparr>cn_membership = toy_membership, cn_public_key = 1, cn_upgrade_lock = UpgradeLock None\<rparr>"

definition toy_quorum_vote :: "pubkey \<Rightarrow> QuorumData2 SimpleVote" where
  "toy_quorum_vote k = \<lparr>v_signature = (k, k), v_data = QuorumData2 [] None, v_view_number = 3\<rparr>"

lemma toy_collecting_ok: "av_kind av = QuorumCert t \<Longrightarrow> collecting_ok toy_env av toy_collecting"
  unfolding collecting_ok_def
proof (intro conjI exI)
  show "cn_membership toy_collecting = static_membership (static_new [peer 1 1, peer 2 1, peer 3 1, peer 4 1] [])"
    by (simp add: toy_collecting_def toy_membership_def)
qed (simp_all add: toy_env_def inj_agg_complete toy_collecting_def toy_membership_def four_nodes_simps u256_limit_def)

theorem collected_certificates_valid_witness:
  "wp (handle_vote toy_env quorum_votes toy_collecting (toy_quorum_vote 2) None (QuorumVoteRecv (toy_quorum_vote 2)) NotInTransition)
    (\<lambda>r cs' out. collectors_ok (e_crypto toy_env) (cert_stake_table (av_kind quorum_votes) (cn_membership toy_collecting) None) cs' \<and>
       (\<forall>x \<in> set out. announces_valid toy_env quorum_votes toy_collecting (v_view_number (toy_quorum_vote 2)) (QuorumVoteRecv (toy_quorum_vote 2)) x)) []"
  by (rule collected_certificates_valid [OF toy_collecting_ok]) (simp_all add: quorum_votes_def collectors_ok_def)

end
