(* ===== verification/ViewSync.thy ===== *)
theory ViewSync
  imports VoteCollection
begin

text \<open>
  View synchronisation: \<open>crates/task-impls/src/view_sync.rs\<close>.  A replica follows the protocol for one view through
  the certificates of its relays; the main task owns the replicas, collects the votes sent to this
  node as a relay, and reacts to timeouts and view changes.  A pending timer is the event it will send.
\<close>

section \<open>The replica of one view\<close>

record ViewSyncReplicaTaskState =
  rp_cur_view :: u64
  rp_next_view :: u64
  rp_cur_epoch :: "epoch option"
  rp_relay :: u64
  rp_finalized :: bool
  rp_sent_view_change_event :: bool
  rp_timeout_task :: "HotShotEvent option"

text \<open>
  What the replica does with a certificate of any phase before it acts on it: a certificate of an older round is ignored, so
  is one that is not valid, and one of a later round ends the replica.
\<close>

definition admit_certificate ::
  "env \<Rightarrow> 'a shared_scheme \<Rightarrow> (finalizer \<Rightarrow> 'd \<Rightarrow> commitment) \<Rightarrow> (membership \<Rightarrow> epoch option \<Rightarrow> nat) \<Rightarrow> 'd SimpleCertificate \<Rightarrow> u64 \<Rightarrow>
   (ViewSyncReplicaTaskState, bool) handler \<Rightarrow> (ViewSyncReplicaTaskState, bool) handler" where
  "admit_certificate E n commit_data threshold cert relay k r =
     (if c_view_number cert < rp_next_view r then ret False r
      else or_return
        (is_valid_cert (e_crypto E) (e_versions E) (commit_data (finalize (e_crypto E))) (sh_upgrade_lock n)
          (m_stake_table (sh_membership n) (rp_cur_epoch r)) (threshold (sh_membership n) (rp_cur_epoch r)) cert) False (\<lambda>_.
        if rp_next_view r < c_view_number cert then ret True
        else seq (modify (\<lambda>r. if rp_relay r < relay then r\<lparr>rp_relay := relay\<rparr> else r)) k) r)"

text \<open>The timer of a phase replaces the one that is running.\<close>

definition start_timeout :: "ViewSyncPhase \<Rightarrow> (ViewSyncReplicaTaskState, unit) handler" where
  "start_timeout phase = modify (\<lambda>r. r\<lparr>rp_timeout_task := Some (ViewSyncTimeout (rp_next_view r) (rp_relay r) phase)\<rparr>)"

definition sync_vote ::
  "env \<Rightarrow> 'a shared_scheme \<Rightarrow> (finalizer \<Rightarrow> 'd \<Rightarrow> commitment) \<Rightarrow> 'd \<Rightarrow> u64 \<Rightarrow> ('d SimpleVote, error) result" where
  "sync_vote E n commit_data d view =
     create_signed_vote (finalize (e_crypto E)) (e_versions E) (commit_data (finalize (e_crypto E))) (key_sign (e_crypto E) (sh_private_key n))
       d view (sh_public_key n) (sh_upgrade_lock n)"

fun replica_pre_commit_cert :: "env \<Rightarrow> 'a shared_scheme \<Rightarrow> u64 \<Rightarrow> epoch option \<Rightarrow> (ViewSyncReplicaTaskState, bool) handler" where
  "replica_pre_commit_cert E n relay e r =
     or_return (sync_vote E n commit_ViewSyncCommitData2 (ViewSyncCommitData2 relay (rp_next_view r) e) (rp_next_view r)) False (\<lambda>vote.
       seq (broadcast_event (ViewSyncCommitVoteSend vote))
      (seq (start_timeout PreCommit) (ret False))) r"

fun replica_commit_cert :: "env \<Rightarrow> 'a shared_scheme \<Rightarrow> u64 \<Rightarrow> epoch option \<Rightarrow> (ViewSyncReplicaTaskState, bool) handler" where
  "replica_commit_cert E n relay e r =
     or_return (sync_vote E n commit_ViewSyncFinalizeData2 (ViewSyncFinalizeData2 relay (rp_next_view r) e) (rp_next_view r)) False (\<lambda>vote.
       seq (broadcast_event (ViewSyncFinalizeVoteSend vote))
      (seq (broadcast_event (ViewChange (rp_next_view r) (rp_cur_epoch r)))
      (seq (start_timeout Commit) (ret False)))) r"

fun replica_finalize_cert :: "(ViewSyncReplicaTaskState, bool) handler" where
  "replica_finalize_cert r =
     seq (modify (\<lambda>r. r\<lparr>rp_timeout_task := None\<rparr>))
    (seq (broadcast_event (ViewChange (rp_next_view r) (rp_cur_epoch r))) (ret True)) r"

fun replica_trigger :: "env \<Rightarrow> 'a shared_scheme \<Rightarrow> u64 \<Rightarrow> (ViewSyncReplicaTaskState, bool) handler" where
  "replica_trigger E n view_number r =
     (if rp_next_view r \<noteq> view_number then ret False
      else or_return (sync_vote E n commit_ViewSyncPreCommitData2 (ViewSyncPreCommitData2 0 view_number (rp_cur_epoch r)) view_number) False (\<lambda>vote.
        seq (broadcast_event (ViewSyncPreCommitVoteSend vote))
       (seq (start_timeout PhaseNone) (ret False)))) r"

fun replica_timeout :: "env \<Rightarrow> 'a shared_scheme \<Rightarrow> u64 \<Rightarrow> u64 \<Rightarrow> ViewSyncPhase \<Rightarrow> (ViewSyncReplicaTaskState, bool) handler" where
  "replica_timeout E n rnd relay last_seen_certificate r =
     (if rnd = rp_next_view r \<and> relay = rp_relay r then
        seq (modify (\<lambda>r. r\<lparr>rp_timeout_task := None, rp_relay := rp_relay r + 1\<rparr>))
          (if last_seen_certificate = Finalize then lift Panic
           else or_return (sync_vote E n commit_ViewSyncPreCommitData2
               (ViewSyncPreCommitData2 (rp_relay r + 1) (rp_next_view r) (rp_cur_epoch r)) (rp_next_view r)) False (\<lambda>vote.
             seq (broadcast_event (ViewSyncPreCommitVoteSend vote))
            (seq (start_timeout last_seen_certificate) (ret False))))
      else ret False) r"

text \<open>The handler of a replica; its result says whether the replica is done.\<close>

definition replica_handle :: "env \<Rightarrow> 'a shared_scheme \<Rightarrow> HotShotEvent \<Rightarrow> (ViewSyncReplicaTaskState, bool) handler" where
  "replica_handle E n ev =
     (case ev of
        ViewSyncPreCommitCertificateRecv cert \<Rightarrow>
          (case c_data cert of ViewSyncPreCommitData2 relay _ e \<Rightarrow>
             admit_certificate E n commit_ViewSyncPreCommitData2 m_failure_threshold cert relay (replica_pre_commit_cert E n relay e))
      | ViewSyncCommitCertificateRecv cert \<Rightarrow>
          (case c_data cert of ViewSyncCommitData2 relay _ e \<Rightarrow>
             admit_certificate E n commit_ViewSyncCommitData2 m_success_threshold cert relay (replica_commit_cert E n relay e))
      | ViewSyncFinalizeCertificateRecv cert \<Rightarrow>
          (case c_data cert of ViewSyncFinalizeData2 relay _ _ \<Rightarrow>
             admit_certificate E n commit_ViewSyncFinalizeData2 m_success_threshold cert relay replica_finalize_cert)
      | ViewSyncTrigger view_number \<Rightarrow> replica_trigger E n view_number
      | ViewSyncTimeout rnd relay last_seen_certificate \<Rightarrow> replica_timeout E n rnd relay last_seen_certificate
      | _ \<Rightarrow> ret False)"

section \<open>The main task\<close>

type_synonym relay_map = "u64 \<rightharpoonup> (u64, VoteCollectionTaskState) btree"

record ViewSyncTaskState = shared +
  vs_cur_view :: u64
  vs_next_view :: u64
  vs_cur_epoch :: "epoch option"
  vs_num_timeouts_tracked :: u64
  vs_replica_task_map :: "u64 \<rightharpoonup> ViewSyncReplicaTaskState"
  vs_pre_commit_relay_map :: relay_map
  vs_commit_relay_map :: relay_map
  vs_finalize_relay_map :: relay_map
  vs_last_garbage_collected_view :: u64

definition replica_new :: "u64 \<Rightarrow> epoch option \<Rightarrow> ViewSyncReplicaTaskState" where
  "replica_new view e =
     \<lparr>rp_cur_view = view, rp_next_view = view, rp_cur_epoch = e, rp_relay = 0, rp_finalized = False,
      rp_sent_view_change_event = False, rp_timeout_task = None\<rparr>"

definition replica_for :: "ViewSyncTaskState \<Rightarrow> u64 \<Rightarrow> ViewSyncReplicaTaskState" where
  "replica_for s view = (case vs_replica_task_map s view of Some r \<Rightarrow> r | None \<Rightarrow> replica_new view (vs_cur_epoch s))"

definition send_to_or_create_replica :: "env \<Rightarrow> HotShotEvent \<Rightarrow> u64 \<Rightarrow> (ViewSyncTaskState, unit) handler" where
  "send_to_or_create_replica E ev view s =
     (if view < vs_cur_view s then ret () s
      else map_option (\<lambda>(res, r, out).
        (map_result (\<lambda>_. ()) id res,
         s\<lparr>vs_replica_task_map := (vs_replica_task_map s)(view := if res = Ok True then None else Some r)\<rparr>, out))
        (replica_handle E s ev (replica_for s view)))"

text \<open>
  A vote for this node as a relay.  A collector of the relay handles it; the first vote creates the
  collector if this node is the leader of the view the relay stands for.  Only for finalize votes an error of
  the first vote is dropped.
\<close>

definition relay_tasks :: "relay_map \<Rightarrow> u64 \<Rightarrow> (u64, VoteCollectionTaskState) btree" where
  "relay_tasks m view = (case m view of Some t \<Rightarrow> t | None \<Rightarrow> [])"

definition relay_vote ::
  "env \<Rightarrow> 'd aggregatable \<Rightarrow> Level \<Rightarrow> bool \<Rightarrow> HotShotEvent \<Rightarrow> 'd SimpleVote \<Rightarrow> u64 \<Rightarrow> epoch option \<Rightarrow> ViewSyncTaskState \<Rightarrow> (relay_map, unit) handler" where
  "relay_vote E av lvl propagate ev vote relay vote_epoch s m =
     (let vote_view = v_view_number vote;
          tasks = relay_tasks m vote_view in
      case bt_get relay tasks of
        Some relay_task \<Rightarrow>
          map_option (\<lambda>(res, relay_task', out).
            (map_result (\<lambda>_. ()) id res,
             case res of Ok (Some _) \<Rightarrow> m(vote_view := None) | _ \<Rightarrow> m(vote_view \<mapsto> bt_insert relay relay_task' tasks), out))
            (handle_vote_event E av (node_of s) ev relay_task)
      | None \<Rightarrow>
          (andThen (lift (leader (sh_membership s) (vote_view + relay) (vs_cur_epoch s))) (\<lambda>l.
           seq (guard (l = sh_public_key s) (Error lvl [''View sync vote sent to wrong leader'']))
           (if propagate then
              andThen (create_vote_accumulator E av (node_of s) vote_view vote_epoch ev NotInTransition) (\<lambda>vote_collector.
                modify (\<lambda>m. m(vote_view \<mapsto> bt_insert relay vote_collector tasks)))
            else
              andThen (attempt (create_vote_accumulator E av (node_of s) vote_view vote_epoch ev NotInTransition)) (\<lambda>vote_collector.
                case vote_collector of Some c \<Rightarrow> modify (\<lambda>m. m(vote_view \<mapsto> bt_insert relay c tasks)) | None \<Rightarrow> ret ()))))
           (m(vote_view \<mapsto> tasks)))"

definition pre_commit_vote_recv :: "env \<Rightarrow> ViewSyncPreCommitVote2 \<Rightarrow> (ViewSyncTaskState, unit) handler" where
  "pre_commit_vote_recv E vote =
     (case v_data vote of ViewSyncPreCommitData2 relay _ e \<Rightarrow>
        zoom vs_pre_commit_relay_map (\<lambda>m s. s\<lparr>vs_pre_commit_relay_map := m\<rparr>)
          (relay_vote E pre_commit_votes Unspecified True (ViewSyncPreCommitVoteRecv vote) vote relay e))"

definition commit_vote_recv :: "env \<Rightarrow> ViewSyncCommitVote2 \<Rightarrow> (ViewSyncTaskState, unit) handler" where
  "commit_vote_recv E vote =
     (case v_data vote of ViewSyncCommitData2 relay _ e \<Rightarrow>
        zoom vs_commit_relay_map (\<lambda>m s. s\<lparr>vs_commit_relay_map := m\<rparr>)
          (relay_vote E commit_votes Debug True (ViewSyncCommitVoteRecv vote) vote relay e))"

definition finalize_vote_recv :: "env \<Rightarrow> ViewSyncFinalizeVote2 \<Rightarrow> (ViewSyncTaskState, unit) handler" where
  "finalize_vote_recv E vote =
     (case v_data vote of ViewSyncFinalizeData2 relay _ e \<Rightarrow>
        zoom vs_finalize_relay_map (\<lambda>m s. s\<lparr>vs_finalize_relay_map := m\<rparr>)
          (relay_vote E finalize_votes Debug False (ViewSyncFinalizeVoteRecv vote) vote relay e))"

definition remove_views :: "u64 \<Rightarrow> u64 \<Rightarrow> (u64 \<rightharpoonup> 'v) \<Rightarrow> (u64 \<rightharpoonup> 'v)" where
  "remove_views lo hi m = (\<lambda>v. if lo \<le> v \<and> v < hi then None else m v)"

definition vs_view_change :: "u64 \<Rightarrow> epoch option \<Rightarrow> ViewSyncTaskState \<Rightarrow> ViewSyncTaskState" where
  "vs_view_change new_view e s0 =
     (let s = (if option_less (vs_cur_epoch s0) e then s0\<lparr>vs_cur_epoch := e\<rparr> else s0) in
      if vs_cur_view s < new_view then
        s\<lparr>vs_cur_view := new_view, vs_next_view := new_view, vs_num_timeouts_tracked := 0,
          vs_replica_task_map := remove_views (vs_last_garbage_collected_view s) new_view (vs_replica_task_map s),
          vs_pre_commit_relay_map := remove_views (vs_last_garbage_collected_view s) new_view (vs_pre_commit_relay_map s),
          vs_commit_relay_map := remove_views (vs_last_garbage_collected_view s) new_view (vs_commit_relay_map s),
          vs_finalize_relay_map := remove_views (vs_last_garbage_collected_view s) new_view (vs_finalize_relay_map s),
          vs_last_garbage_collected_view := new_view - 1\<rparr>
      else s)"

definition vs_timeout :: "env \<Rightarrow> u64 \<Rightarrow> (ViewSyncTaskState, unit) handler" where
  "vs_timeout E view_number =
     seq (check_state (\<lambda>s. ensure (vs_cur_view s \<le> view_number) (Error Debug [''Discarding old timeout vote.''])))
    (seq (modify (\<lambda>s. s\<lparr>vs_num_timeouts_tracked := vs_num_timeouts_tracked s + 1\<rparr>))
    (seq (check_state (\<lambda>s. leader (sh_membership s) view_number (vs_cur_epoch s)))
    (andThen (gets vs_num_timeouts_tracked) (\<lambda>num.
     if 2 \<le> num then send_to_or_create_replica E (ViewSyncTrigger (view_number + 1)) (view_number + 1)
     else seq (modify (\<lambda>s. s\<lparr>vs_cur_view := view_number + 1\<rparr>))
         (andThen (gets vs_cur_epoch) (\<lambda>e. broadcast_event (ViewChange (view_number + 1) e)))))))"

definition vs_handle :: "env \<Rightarrow> HotShotEvent \<Rightarrow> (ViewSyncTaskState, unit) handler" where
  "vs_handle E ev =
     (case ev of
        ViewSyncPreCommitCertificateRecv certificate \<Rightarrow> send_to_or_create_replica E ev (c_view_number certificate)
      | ViewSyncCommitCertificateRecv certificate \<Rightarrow> send_to_or_create_replica E ev (c_view_number certificate)
      | ViewSyncFinalizeCertificateRecv certificate \<Rightarrow> send_to_or_create_replica E ev (c_view_number certificate)
      | ViewSyncTimeout view _ _ \<Rightarrow> send_to_or_create_replica E ev view
      | ViewSyncPreCommitVoteRecv vote \<Rightarrow> pre_commit_vote_recv E vote
      | ViewSyncCommitVoteRecv vote \<Rightarrow> commit_vote_recv E vote
      | ViewSyncFinalizeVoteRecv vote \<Rightarrow> finalize_vote_recv E vote
      | ViewChange new_view e \<Rightarrow> modify (vs_view_change new_view e)
      | TimeoutEvent view_number _ \<Rightarrow> vs_timeout E view_number
      | _ \<Rightarrow> ret ())"

section \<open>What the task sends\<close>

lemma wp_start_timeout [wp_simps]:
  "wp (start_timeout phase) Q r = Q (Ok ()) (r\<lparr>rp_timeout_task := Some (ViewSyncTimeout (rp_next_view r) (rp_relay r) phase)\<rparr>) []"
  by (simp add: start_timeout_def wp_simps)

lemma wp_admit_certificate [wp_simps]:
  "wp (admit_certificate E n cd threshold cert relay k) Q r =
     (if c_view_number cert < rp_next_view r then Q (Ok False) r []
      else case is_valid_cert (e_crypto E) (e_versions E) (cd (finalize (e_crypto E))) (sh_upgrade_lock n)
          (m_stake_table (sh_membership n) (rp_cur_epoch r)) (threshold (sh_membership n) (rp_cur_epoch r)) cert of
        Panic \<Rightarrow> Q Panic r [] | Err _ \<Rightarrow> Q (Ok False) r []
      | Ok _ \<Rightarrow> if rp_next_view r < c_view_number cert then Q (Ok True) r []
          else wp k Q (if rp_relay r < relay then r\<lparr>rp_relay := relay\<rparr> else r))"
proof -
  have "wp (admit_certificate E n cd threshold cert relay k) Q r =
      wp (if c_view_number cert < rp_next_view r then ret False
      else or_return
        (is_valid_cert (e_crypto E) (e_versions E) (cd (finalize (e_crypto E))) (sh_upgrade_lock n)
          (m_stake_table (sh_membership n) (rp_cur_epoch r)) (threshold (sh_membership n) (rp_cur_epoch r)) cert) False (\<lambda>_.
        if rp_next_view r < c_view_number cert then ret True
        else seq (modify (\<lambda>r. if rp_relay r < relay then r\<lparr>rp_relay := relay\<rparr> else r)) k)) Q r"
    by (simp add: wp_def admit_certificate_def)
  then show ?thesis by (simp add: wp_simps cong: result.case_cong)
qed

text \<open>A certificate of the given view that is valid for the given epoch.\<close>

definition certifies ::
  "env \<Rightarrow> 'a shared_scheme \<Rightarrow> epoch option \<Rightarrow> (finalizer \<Rightarrow> 'd \<Rightarrow> commitment) \<Rightarrow> (membership \<Rightarrow> epoch option \<Rightarrow> nat) \<Rightarrow> u64 \<Rightarrow> 'd SimpleCertificate \<Rightarrow> bool" where
  "certifies E n e cd threshold view cert \<longleftrightarrow> c_view_number cert = view \<and>
     is_valid_cert (e_crypto E) (e_versions E) (cd (finalize (e_crypto E))) (sh_upgrade_lock n)
       (m_stake_table (sh_membership n) e) (threshold (sh_membership n) e) cert = Ok ()"

text \<open>What a replica for a view may send on an event, and nothing else.\<close>

definition replica_may_send :: "env \<Rightarrow> 'a shared_scheme \<Rightarrow> u64 \<Rightarrow> epoch option \<Rightarrow> HotShotEvent \<Rightarrow> effect \<Rightarrow> bool" where
  "replica_may_send E n view e ev x =
     (case x of
        Internal (ViewChange v e') \<Rightarrow> v = view \<and> e' = e \<and>
          ((\<exists>cert. ev = ViewSyncCommitCertificateRecv cert \<and> certifies E n e commit_ViewSyncCommitData2 m_success_threshold view cert) \<or>
           (\<exists>cert. ev = ViewSyncFinalizeCertificateRecv cert \<and> certifies E n e commit_ViewSyncFinalizeData2 m_success_threshold view cert))
      | Internal (ViewSyncPreCommitVoteSend vote) \<Rightarrow> v_view_number vote = view \<and>
          (ev = ViewSyncTrigger view \<or> (\<exists>relay phase. ev = ViewSyncTimeout view relay phase))
      | Internal (ViewSyncCommitVoteSend vote) \<Rightarrow> v_view_number vote = view \<and>
          (\<exists>cert. ev = ViewSyncPreCommitCertificateRecv cert \<and> certifies E n e commit_ViewSyncPreCommitData2 m_failure_threshold view cert)
      | Internal (ViewSyncFinalizeVoteSend vote) \<Rightarrow> v_view_number vote = view \<and>
          (\<exists>cert. ev = ViewSyncCommitCertificateRecv cert \<and> certifies E n e commit_ViewSyncCommitData2 m_success_threshold view cert)
      | _ \<Rightarrow> False)"

lemma sync_vote_view: "sync_vote E n cd d view = Ok vote \<Longrightarrow> v_view_number vote = view"
  by (auto simp: sync_vote_def create_signed_vote_def and_then_eq_Ok)

lemma wp_replica_phases [wp_simps]:
  "wp (replica_pre_commit_cert E n relay e) Q r =
     (case sync_vote E n commit_ViewSyncCommitData2 (ViewSyncCommitData2 relay (rp_next_view r) e) (rp_next_view r) of
        Ok vote \<Rightarrow> Q (Ok False) (r\<lparr>rp_timeout_task := Some (ViewSyncTimeout (rp_next_view r) (rp_relay r) PreCommit)\<rparr>) [Internal (ViewSyncCommitVoteSend vote)]
      | Err _ \<Rightarrow> Q (Ok False) r [] | Panic \<Rightarrow> Q Panic r [])"
  "wp (replica_commit_cert E n relay e) Q r =
     (case sync_vote E n commit_ViewSyncFinalizeData2 (ViewSyncFinalizeData2 relay (rp_next_view r) e) (rp_next_view r) of
        Ok vote \<Rightarrow> Q (Ok False) (r\<lparr>rp_timeout_task := Some (ViewSyncTimeout (rp_next_view r) (rp_relay r) Commit)\<rparr>)
          [Internal (ViewSyncFinalizeVoteSend vote), Internal (ViewChange (rp_next_view r) (rp_cur_epoch r))]
      | Err _ \<Rightarrow> Q (Ok False) r [] | Panic \<Rightarrow> Q Panic r [])"
  "wp replica_finalize_cert Q r = Q (Ok True) (r\<lparr>rp_timeout_task := None\<rparr>) [Internal (ViewChange (rp_next_view r) (rp_cur_epoch r))]"
  by (simp_all add: wp_def or_return_def seq_def andThen_def ret_def lift_def modify_def broadcast_event_def emit_def start_timeout_def
      split: result.split)

lemma replica_handle_sends:
  "wp (replica_handle E n ev) (\<lambda>res r' out. rp_next_view r' = rp_next_view r \<and> rp_cur_epoch r' = rp_cur_epoch r \<and>
     (\<forall>x \<in> set out. replica_may_send E n (rp_next_view r) (rp_cur_epoch r) ev x)) r"
proof (cases ev)
  case (ViewSyncPreCommitCertificateRecv cert)
  then show ?thesis
    by (cases "c_data cert") (auto simp: replica_handle_def wp_simps replica_may_send_def certifies_def dest: sync_vote_view split: result.splits if_splits)
next
  case (ViewSyncCommitCertificateRecv cert)
  then show ?thesis
    by (cases "c_data cert") (auto simp: replica_handle_def wp_simps replica_may_send_def certifies_def dest: sync_vote_view split: result.splits if_splits)
next
  case (ViewSyncFinalizeCertificateRecv cert)
  then show ?thesis
    by (cases "c_data cert") (auto simp: replica_handle_def wp_simps replica_may_send_def certifies_def split: result.splits if_splits)
next
  case (ViewSyncTrigger view)
  then show ?thesis
    by (auto simp: replica_handle_def wp_def or_return_def seq_def andThen_def ret_def lift_def modify_def broadcast_event_def emit_def start_timeout_def
        replica_may_send_def dest: sync_vote_view split: result.splits)
next
  case (ViewSyncTimeout rnd relay phase)
  then show ?thesis
    by (auto simp: replica_handle_def wp_def or_return_def seq_def andThen_def ret_def lift_def modify_def broadcast_event_def emit_def start_timeout_def
        replica_may_send_def dest: sync_vote_view split: result.splits)
qed (simp_all add: replica_handle_def wp_simps)

text \<open>
  The invariant of the task: the replica stored for a view is for that view, and the collectors of a view are consistent.
\<close>

definition relays_ok :: "crypto \<Rightarrow> StakeTableEntry list \<Rightarrow> relay_map \<Rightarrow> bool" where
  "relays_ok cr tbl m \<longleftrightarrow> (\<forall>view tasks. m view = Some tasks \<longrightarrow> (\<forall>(relay, st) \<in> set tasks. collector_ok cr tbl st \<and> vc_view st = view))"

definition vs_ok :: "env \<Rightarrow> ViewSyncTaskState \<Rightarrow> bool" where
  "vs_ok E s \<longleftrightarrow> (\<forall>view r. vs_replica_task_map s view = Some r \<longrightarrow> rp_next_view r = view) \<and>
     (let tbl = m_stake_table (sh_membership s) None in
      relays_ok (e_crypto E) tbl (vs_pre_commit_relay_map s) \<and> relays_ok (e_crypto E) tbl (vs_commit_relay_map s) \<and>
      relays_ok (e_crypto E) tbl (vs_finalize_relay_map s))"

text \<open>What the task may send on an event in a state, and nothing else.\<close>

definition vs_may_send :: "env \<Rightarrow> ViewSyncTaskState \<Rightarrow> HotShotEvent \<Rightarrow> effect \<Rightarrow> bool" where
  "vs_may_send E s ev x =
     (case ev of
        TimeoutEvent view e \<Rightarrow> vs_cur_view s \<le> view \<and>
          (if 2 \<le> vs_num_timeouts_tracked s + 1
           then \<exists>vote. x = Internal (ViewSyncPreCommitVoteSend vote) \<and> v_view_number vote = view + 1
           else x = Internal (ViewChange (view + 1) (vs_cur_epoch s)))
      | ViewSyncPreCommitVoteRecv vote \<Rightarrow> announces_valid E pre_commit_votes (node_of s) (v_view_number vote) ev x
      | ViewSyncCommitVoteRecv vote \<Rightarrow> announces_valid E commit_votes (node_of s) (v_view_number vote) ev x
      | ViewSyncFinalizeVoteRecv vote \<Rightarrow> announces_valid E finalize_votes (node_of s) (v_view_number vote) ev x
      | _ \<Rightarrow> \<exists>view. vs_cur_view s \<le> view \<and> replica_may_send E s view (rp_cur_epoch (replica_for s view)) ev x)"

lemma replica_for_view: "vs_ok E s \<Longrightarrow> rp_next_view (replica_for s view) = view"
  by (simp add: vs_ok_def replica_for_def replica_new_def split: option.split)

lemma send_to_or_create_replica_ok:
  assumes "vs_ok E s"
  shows "wp (send_to_or_create_replica E ev view) (\<lambda>res s' out. vs_ok E s' \<and> sh_membership s' = sh_membership s \<and>
     (\<forall>x \<in> set out. vs_cur_view s \<le> view \<and> replica_may_send E s view (rp_cur_epoch (replica_for s view)) ev x)) s"
proof (cases "view < vs_cur_view s")
  case True
  then show ?thesis using assms by (simp add: wp_def send_to_or_create_replica_def ret_def)
next
  case False
  then show ?thesis
    using replica_handle_sends [of E s ev "replica_for s view"] assms
    by (auto simp: wp_def send_to_or_create_replica_def replica_for_view [OF assms] vs_ok_def split: option.splits)
qed

lemma relay_vote_ok:
  assumes ok: "collecting_ok E av (node_of s)" and tbl: "cert_stake_table (av_kind av) (sh_membership s) None = tbl"
    and m: "relays_ok (e_crypto E) tbl m"
  shows "wp (relay_vote E av lvl propagate ev vote relay e s) (\<lambda>res m' out. relays_ok (e_crypto E) tbl m' \<and>
     (\<forall>x \<in> set out. announces_valid E av (node_of s) (v_view_number vote) ev x)) m"
proof -
  define tasks where "tasks = relay_tasks m (v_view_number vote)"
  have tbl': "cert_stake_table (av_kind av) (cn_membership (node_of s)) None = tbl" using tbl by (simp add: node_of_def)
  have tasks: "collector_ok (e_crypto E) tbl st \<and> vc_view st = v_view_number vote" if "(k, st) \<in> set tasks" for k st
    using m that unfolding tasks_def relay_tasks_def by (cases "m (v_view_number vote)") (fastforce simp: relays_ok_def)+
  have add: "relays_ok (e_crypto E) tbl (m(v_view_number vote \<mapsto> bt_insert relay c tasks))"
    if "collector_ok (e_crypto E) tbl c" "vc_view c = v_view_number vote" for c
    using m that tasks by (auto simp: relays_ok_def dest!: in_bt_insert)
  have m1: "relays_ok (e_crypto E) tbl (m(v_view_number vote \<mapsto> tasks))" "relays_ok (e_crypto E) tbl (m(v_view_number vote := None))"
    using m tasks by (auto simp: relays_ok_def)
  show ?thesis
  proof (cases "bt_get relay tasks")
    case (Some st)
    then have "(relay, st) \<in> set tasks" by (auto simp: bt_get_def dest: map_of_SomeD)
    note st = tasks [OF this]
    show ?thesis using handle_vote_event_valid [OF ok, of st ev] st add m1
      by (auto simp: wp_def relay_vote_def Let_def tasks_def [symmetric] Some tbl' split: option.splits result.splits)
  next
    case None
    have create: "wp (create_vote_accumulator E av (node_of s) (v_view_number vote) e ev NotInTransition) (\<lambda>r m' out. m' = m(v_view_number vote \<mapsto> tasks) \<and>
        (\<forall>st. r = Ok st \<longrightarrow> collector_ok (e_crypto E) tbl st \<and> vc_view st = v_view_number vote) \<and>
        (\<forall>x \<in> set out. announces_valid E av (node_of s) (v_view_number vote) ev x)) (m(v_view_number vote \<mapsto> tasks))"
      using create_valid [OF ok] by (simp add: tbl')
    have "wp (relay_vote E av lvl propagate ev vote relay e s) Q m = wp (
          (andThen (lift (leader (sh_membership s) (v_view_number vote + relay) (vs_cur_epoch s))) (\<lambda>l.
           seq (guard (l = sh_public_key s) (Error lvl [''View sync vote sent to wrong leader'']))
           (if propagate then
              andThen (create_vote_accumulator E av (node_of s) (v_view_number vote) e ev NotInTransition) (\<lambda>vote_collector.
                modify (\<lambda>m. m(v_view_number vote \<mapsto> bt_insert relay vote_collector tasks)))
            else
              andThen (attempt (create_vote_accumulator E av (node_of s) (v_view_number vote) e ev NotInTransition)) (\<lambda>vote_collector.
                case vote_collector of Some c \<Rightarrow> modify (\<lambda>m. m(v_view_number vote \<mapsto> bt_insert relay c tasks)) | None \<Rightarrow> ret ()))))) Q
           (m(v_view_number vote \<mapsto> tasks))" for Q
      by (simp add: wp_def relay_vote_def Let_def tasks_def [symmetric] None)
    moreover have "wp (andThen (create_vote_accumulator E av (node_of s) (v_view_number vote) e ev NotInTransition) (\<lambda>c.
          modify (\<lambda>m. m(v_view_number vote \<mapsto> bt_insert relay c tasks)))) (\<lambda>res m' out. relays_ok (e_crypto E) tbl m' \<and>
     (\<forall>x \<in> set out. announces_valid E av (node_of s) (v_view_number vote) ev x)) (m(v_view_number vote \<mapsto> tasks))"
      by (rule wp_andThenI [OF create]) (use add m1 in \<open>auto simp: wp_simps\<close>)
    moreover have "wp (andThen (attempt (create_vote_accumulator E av (node_of s) (v_view_number vote) e ev NotInTransition)) (\<lambda>vote_collector.
          case vote_collector of Some c \<Rightarrow> modify (\<lambda>m. m(v_view_number vote \<mapsto> bt_insert relay c tasks)) | None \<Rightarrow> ret ()))
       (\<lambda>res m' out. relays_ok (e_crypto E) tbl m' \<and>
     (\<forall>x \<in> set out. announces_valid E av (node_of s) (v_view_number vote) ev x)) (m(v_view_number vote \<mapsto> tasks))"
      unfolding wp_andThen wp_attempt by (rule wp_mono [OF create]) (use add m1 in \<open>auto simp: wp_simps split: result.splits\<close>)
    ultimately show ?thesis using m1 by (auto simp: wp_simps split: result.splits)
  qed
qed

lemma collecting_sync:
  assumes "collecting_ok E finalize_votes n"
  shows "collecting_ok E pre_commit_votes n" "collecting_ok E commit_votes n"
  using assms by (simp_all add: collecting_ok_def finalize_votes_def pre_commit_votes_def commit_votes_def)

lemma sync_tables:
  "cert_stake_table (av_kind pre_commit_votes) m None = m_stake_table m None"
  "cert_stake_table (av_kind commit_votes) m None = m_stake_table m None"
  "cert_stake_table (av_kind finalize_votes) m None = m_stake_table m None"
  by (simp_all add: finalize_votes_def pre_commit_votes_def commit_votes_def)

lemma vote_recv_ok:
  assumes "vs_ok E s" and "collecting_ok E finalize_votes (node_of s)"
  shows "wp (pre_commit_vote_recv E pv) (\<lambda>res s' out. vs_ok E s' \<and> sh_membership s' = sh_membership s \<and>
       (\<forall>x \<in> set out. vs_may_send E s (ViewSyncPreCommitVoteRecv pv) x)) s"
    and "wp (commit_vote_recv E cv) (\<lambda>res s' out. vs_ok E s' \<and> sh_membership s' = sh_membership s \<and>
       (\<forall>x \<in> set out. vs_may_send E s (ViewSyncCommitVoteRecv cv) x)) s"
    and "wp (finalize_vote_recv E fv) (\<lambda>res s' out. vs_ok E s' \<and> sh_membership s' = sh_membership s \<and>
       (\<forall>x \<in> set out. vs_may_send E s (ViewSyncFinalizeVoteRecv fv) x)) s"
proof -
  have maps: "relays_ok (e_crypto E) (m_stake_table (sh_membership s) None) (vs_pre_commit_relay_map s)"
    "relays_ok (e_crypto E) (m_stake_table (sh_membership s) None) (vs_commit_relay_map s)"
    "relays_ok (e_crypto E) (m_stake_table (sh_membership s) None) (vs_finalize_relay_map s)"
    using assms(1) by (simp_all add: vs_ok_def Let_def)
  show "wp (pre_commit_vote_recv E pv) (\<lambda>res s' out. vs_ok E s' \<and> sh_membership s' = sh_membership s \<and>
       (\<forall>x \<in> set out. vs_may_send E s (ViewSyncPreCommitVoteRecv pv) x)) s"
  proof (cases "v_data pv")
    case (ViewSyncPreCommitData2 relay rnd e)
    show ?thesis unfolding pre_commit_vote_recv_def ViewSyncPreCommitData2 ViewSyncPreCommitData2.case wp_zoom
      by (rule wp_mono, rule relay_vote_ok [OF collecting_sync(1) [OF assms(2)] sync_tables(1) maps(1)])
        (use assms(1) in \<open>auto simp: vs_ok_def vs_may_send_def Let_def\<close>)
  qed
  show "wp (commit_vote_recv E cv) (\<lambda>res s' out. vs_ok E s' \<and> sh_membership s' = sh_membership s \<and>
       (\<forall>x \<in> set out. vs_may_send E s (ViewSyncCommitVoteRecv cv) x)) s"
  proof (cases "v_data cv")
    case (ViewSyncCommitData2 relay rnd e)
    show ?thesis unfolding commit_vote_recv_def ViewSyncCommitData2 ViewSyncCommitData2.case wp_zoom
      by (rule wp_mono, rule relay_vote_ok [OF collecting_sync(2) [OF assms(2)] sync_tables(2) maps(2)])
        (use assms(1) in \<open>auto simp: vs_ok_def vs_may_send_def Let_def\<close>)
  qed
  show "wp (finalize_vote_recv E fv) (\<lambda>res s' out. vs_ok E s' \<and> sh_membership s' = sh_membership s \<and>
       (\<forall>x \<in> set out. vs_may_send E s (ViewSyncFinalizeVoteRecv fv) x)) s"
  proof (cases "v_data fv")
    case (ViewSyncFinalizeData2 relay rnd e)
    show ?thesis unfolding finalize_vote_recv_def ViewSyncFinalizeData2 ViewSyncFinalizeData2.case wp_zoom
      by (rule wp_mono, rule relay_vote_ok [OF assms(2) sync_tables(3) maps(3)])
        (use assms(1) in \<open>auto simp: vs_ok_def vs_may_send_def Let_def\<close>)
  qed
qed

lemma vs_view_change_ok: "vs_ok E s \<Longrightarrow> vs_ok E (vs_view_change v e s) \<and> sh_membership (vs_view_change v e s) = sh_membership s"
  by (auto simp: vs_ok_def vs_view_change_def remove_views_def relays_ok_def Let_def split: if_splits)

lemma trigger_sends:
  "replica_may_send E n view e (ViewSyncTrigger v) x \<Longrightarrow> \<exists>vote. x = Internal (ViewSyncPreCommitVoteSend vote) \<and> v_view_number vote = view"
  by (auto simp: replica_may_send_def split: effect.splits HotShotEvent.splits)

lemma vs_timeout_ok:
  assumes "vs_ok E s"
  shows "wp (vs_timeout E view) (\<lambda>res s' out. vs_ok E s' \<and> sh_membership s' = sh_membership s \<and> (\<forall>x \<in> set out. vs_may_send E s (TimeoutEvent view e) x)) s"
proof -
  define s1 where "s1 = s\<lparr>vs_num_timeouts_tracked := vs_num_timeouts_tracked s + 1\<rparr>"
  have s1: "vs_ok E s1" "sh_membership s1 = sh_membership s" "vs_num_timeouts_tracked s1 = vs_num_timeouts_tracked s + 1" "vs_cur_view s1 = vs_cur_view s"
    "vs_cur_epoch s1 = vs_cur_epoch s"
    using assms by (simp_all add: s1_def vs_ok_def)
  have "wp (send_to_or_create_replica E (ViewSyncTrigger (view + 1)) (view + 1)) (\<lambda>res s' out. vs_ok E s' \<and> sh_membership s' = sh_membership s \<and>
      (\<forall>x \<in> set out. \<exists>vote. x = Internal (ViewSyncPreCommitVoteSend vote) \<and> v_view_number vote = view + 1)) s1"
    by (rule wp_mono, rule send_to_or_create_replica_ok [OF s1(1)]) (auto simp: s1(2) dest: trigger_sends)
  moreover have "vs_ok E (s1\<lparr>vs_cur_view := view + 1\<rparr>)" using s1(1) by (simp add: vs_ok_def)
  ultimately show ?thesis unfolding vs_timeout_def
    by (intro wp_intros) (use assms in \<open>auto simp: s1_def [symmetric] s1 wp_simps vs_may_send_def ensure_eq_Ok elim: wp_mono\<close>)
qed

lemma vs_handle_ok:
  assumes "vs_ok E s" and "collecting_ok E finalize_votes (node_of s)"
  shows "wp (vs_handle E ev) (\<lambda>res s' out. vs_ok E s' \<and> sh_membership s' = sh_membership s \<and> (\<forall>x \<in> set out. vs_may_send E s ev x)) s"
proof -
  have replica: "wp (send_to_or_create_replica E ev' view) (\<lambda>res s' out. vs_ok E s' \<and> sh_membership s' = sh_membership s \<and>
     (\<forall>x \<in> set out. \<exists>view. vs_cur_view s \<le> view \<and> replica_may_send E s view (rp_cur_epoch (replica_for s view)) ev' x)) s" for ev' view
    by (rule wp_mono, rule send_to_or_create_replica_ok [OF assms(1)]) blast
  show ?thesis
    using replica vote_recv_ok [OF assms] vs_view_change_ok [OF assms(1)] vs_timeout_ok [OF assms(1)] assms(1)
    by (cases ev) (simp_all add: vs_handle_def wp_simps, simp_all add: vs_may_send_def)
qed

section \<open>Runs of the task\<close>

text \<open>An event is handled, or another task decides an upgrade.\<close>

datatype sync_step = SyncEvent HotShotEvent | SyncUpgrade UpgradeLock

primrec vs_run_step :: "env \<Rightarrow> sync_step \<Rightarrow> ViewSyncTaskState \<Rightarrow> (ViewSyncTaskState \<times> effect list) option" where
  "vs_run_step E (SyncEvent ev) s = perform (vs_handle E ev) s"
| "vs_run_step E (SyncUpgrade l) s = Some (s\<lparr>sh_upgrade_lock := l\<rparr>, [])"

definition vs_fresh :: "ViewSyncTaskState \<Rightarrow> bool" where
  "vs_fresh s \<longleftrightarrow> vs_replica_task_map s = Map.empty \<and> vs_pre_commit_relay_map s = Map.empty \<and> vs_commit_relay_map s = Map.empty \<and>
     vs_finalize_relay_map s = Map.empty \<and> vs_last_garbage_collected_view s \<le> vs_cur_view s"

lemma vs_run_ok:
  assumes "run_effects (vs_run_step E) steps s0 = Some (s, out)" and "vs_ok E s0" and "collecting_ok E finalize_votes (node_of s0)"
  shows "vs_ok E s \<and> collecting_ok E finalize_votes (node_of s)"
proof -
  have "(vs_ok E s \<and> collecting_ok E finalize_votes (node_of s)) \<and> (\<forall>x \<in> set out. True)"
  proof (rule run_effects_invariant [OF assms(1)])
    fix st s s1 out1
    assume s: "vs_ok E s \<and> collecting_ok E finalize_votes (node_of s)" and step: "vs_run_step E st s = Some (s1, out1)"
    show "(vs_ok E s1 \<and> collecting_ok E finalize_votes (node_of s1)) \<and> (\<forall>x \<in> set out1. True)"
    proof (cases st)
      case (SyncEvent ev)
      with s step perform_wp [of "vs_handle E ev" s s1 out1, OF _ vs_handle_ok [of E s ev]]
      show ?thesis by (auto simp: collecting_ok_def node_of_def)
    next
      case (SyncUpgrade l)
      then have "s1 = s\<lparr>sh_upgrade_lock := l\<rparr>" using step by simp
      with s show ?thesis by (simp add: vs_ok_def node_of_def collecting_ok_def)
    qed
  qed (use assms in simp)
  then show ?thesis by simp
qed

text \<open>
  C10. Whatever happened before, the task changes the view only on a valid certificate of the view to change to, or on
  the first timeout in a row; it votes to commit and to finalize only on a valid certificate of the phase before;
  it sends only certificates that are valid; and it sends nothing else.
\<close>

theorem view_sync_sends:
  assumes "vs_fresh s0" and "collecting_ok E finalize_votes (node_of s0)" and "run_effects (vs_run_step E) steps s0 = Some (s, out)"
  shows "wp (vs_handle E ev) (\<lambda>res s' out. \<forall>x \<in> set out. vs_may_send E s ev x) s"
proof -
  have "vs_ok E s0" using assms(1) by (simp add: vs_fresh_def vs_ok_def relays_ok_def)
  from vs_run_ok [OF assms(3) this assms(2)] show ?thesis
    by (intro wp_mono [OF vs_handle_ok]) auto
qed

section \<open>Views of the task\<close>

definition vs_views_ok :: "u64 \<Rightarrow> ViewSyncTaskState \<Rightarrow> bool" where
  "vs_views_ok v s \<longleftrightarrow> v \<le> vs_cur_view s \<and> vs_last_garbage_collected_view s \<le> vs_cur_view s \<and>
     (\<forall>view r. vs_replica_task_map s view = Some r \<longrightarrow> vs_last_garbage_collected_view s \<le> view)"

lemma send_to_or_create_replica_views:
  "vs_views_ok v s \<Longrightarrow> wp (send_to_or_create_replica E ev view) (\<lambda>res s' out. vs_views_ok v s') s"
  by (auto simp: wp_def send_to_or_create_replica_def ret_def vs_views_ok_def split: option.splits)

lemma zoom_views:
  assumes "vs_views_ok v s" and "\<And>m s. vs_views_ok v (put m s) = vs_views_ok v s"
  shows "wp (zoom get put h) (\<lambda>res s' out. vs_views_ok v s') s"
  using assms by (auto simp: wp_def zoom_def split: option.splits)

lemma vs_view_change_views:
  assumes "vs_views_ok v s"
  shows "vs_views_ok v (vs_view_change new_view e s)"
proof -
  have "new_view - 1 \<le> new_view" if "vs_cur_view s < new_view" using that by (simp add: word_le_nat_alt word_less_nat_alt unat_sub_if')
  moreover have "new_view - 1 \<le> view" if "vs_cur_view s < new_view" "new_view \<le> view" for view
    using that calculation by (meson order.trans)
  ultimately show ?thesis
    using assms by (auto simp: vs_views_ok_def vs_view_change_def remove_views_def Let_def not_less split: if_splits)
qed

lemma vs_timeout_views:
  assumes "vs_views_ok v s" and "view \<noteq> - 1"
  shows "wp (vs_timeout E view) (\<lambda>res s' out. vs_views_ok v s') s"
proof -
  have next_view: "vs_cur_view s \<le> view + 1" if "vs_cur_view s \<le> view"
  proof -
    have "1 + view \<noteq> 0" using assms(2) by (simp add: add_eq_0_iff)
    then have "unat (view + 1) = Suc (unat view)" using unatSuc [of view] by (simp add: add.commute)
    then show ?thesis using that by (simp add: word_le_nat_alt)
  qed
  have up: "vs_views_ok v (s\<lparr>vs_num_timeouts_tracked := n\<rparr>)" for n using assms(1) by (simp add: vs_views_ok_def)
  have "vs_views_ok v (s\<lparr>vs_num_timeouts_tracked := n, vs_cur_view := view + 1\<rparr>)" if "vs_cur_view s \<le> view" for n
    using assms(1) next_view [OF that] by (auto simp: vs_views_ok_def)
  then show ?thesis unfolding vs_timeout_def
    by (intro wp_intros) (simp_all add: wp_simps ensure_eq_Ok up assms(1) send_to_or_create_replica_views [OF up])
qed

lemma vs_views_ok_relays:
  "vs_views_ok v (s\<lparr>vs_pre_commit_relay_map := m\<rparr>) = vs_views_ok v s"
  "vs_views_ok v (s\<lparr>vs_commit_relay_map := m\<rparr>) = vs_views_ok v s"
  "vs_views_ok v (s\<lparr>vs_finalize_relay_map := m\<rparr>) = vs_views_ok v s"
  by (simp_all add: vs_views_ok_def)

lemma vs_handle_views:
  assumes "vs_views_ok v s" and "\<And>e. ev \<noteq> TimeoutEvent (- 1) e"
  shows "wp (vs_handle E ev) (\<lambda>res s' out. vs_views_ok v s') s"
proof -
  have "wp (pre_commit_vote_recv E pv) (\<lambda>res s' out. vs_views_ok v s') s" for pv
    unfolding pre_commit_vote_recv_def by (cases "v_data pv") (simp add: zoom_views assms vs_views_ok_relays)
  moreover have "wp (commit_vote_recv E cv) (\<lambda>res s' out. vs_views_ok v s') s" for cv
    unfolding commit_vote_recv_def by (cases "v_data cv") (simp add: zoom_views assms vs_views_ok_relays)
  moreover have "wp (finalize_vote_recv E fv) (\<lambda>res s' out. vs_views_ok v s') s" for fv
    unfolding finalize_vote_recv_def by (cases "v_data fv") (simp add: zoom_views assms vs_views_ok_relays)
  ultimately show ?thesis
    using assms send_to_or_create_replica_views [OF assms(1)] vs_view_change_views [OF assms(1)] vs_timeout_views [OF assms(1)]
    by (cases ev) (simp_all add: vs_handle_def wp_simps, blast)
qed


definition toy_sync :: ViewSyncTaskState where
  "toy_sync =
     \<lparr>sh_consensus = genesis_consensus inj_crypto, sh_membership = toy_membership, sh_upgrade_lock = UpgradeLock None, sh_storage = [],
      sh_public_key = 1, sh_private_key = 1, sh_epoch_height = 10, vs_cur_view = 1, vs_next_view = 1, vs_cur_epoch = None, vs_num_timeouts_tracked = 0,
      vs_replica_task_map = Map.empty, vs_pre_commit_relay_map = Map.empty, vs_commit_relay_map = Map.empty, vs_finalize_relay_map = Map.empty,
      vs_last_garbage_collected_view = 0\<rparr>"

lemma toy_sync_fresh: "vs_fresh toy_sync"
  by (simp add: vs_fresh_def toy_sync_def)

lemma toy_collecting_sync: "collecting_ok toy_env finalize_votes (node_of toy_sync)"
  using toy_collecting_ok [of finalize_votes] by (simp add: collecting_ok_def toy_sync_def toy_collecting_def node_of_def finalize_votes_def)

lemma toy_sync_timeout:
  "run_effects (vs_run_step toy_env) [SyncEvent (TimeoutEvent 1 None)] toy_sync =
     Some (toy_sync\<lparr>vs_cur_view := 2, vs_num_timeouts_tracked := 1\<rparr>, [Internal (ViewChange 2 None)])"
proof -
  have "leader toy_membership 1 None = Ok 2"
    by (simp add: leader_def toy_membership_def static_membership_def static_lookup_leader_def static_new_def nth_leader_def
        positive_entries_def peer_def index_at_def Let_def)
  then show ?thesis by (simp add: perform_def vs_handle_def vs_timeout_def exec_simps toy_sync_def word_le_nat_alt)
qed

theorem view_sync_sends_witness:
  "wp (vs_handle toy_env (TimeoutEvent 2 None)) (\<lambda>res s' out. \<forall>x \<in> set out.
     vs_may_send toy_env (toy_sync\<lparr>vs_cur_view := 2, vs_num_timeouts_tracked := 1\<rparr>) (TimeoutEvent 2 None) x)
     (toy_sync\<lparr>vs_cur_view := 2, vs_num_timeouts_tracked := 1\<rparr>)"
  by (rule view_sync_sends [OF toy_sync_fresh toy_collecting_sync toy_sync_timeout])


end
