(* ===== verification/Dependencies.thy ===== *)
theory Dependencies
  imports Prelude "HOL-Library.Multiset"
begin

text \<open>
  The crate \<open>crates/task\<close>: dependencies that complete on events of a broadcast channel, and the loop of a
  long-running task.  A channel is the list of what its receiver obtains; the end of the list is a closed
  channel.  Combined dependencies poll their parts in no fixed order, so an \<open>AndDependency\<close> completes with a
  multiset and an \<open>OrDependency\<close> with a set of possible values.
\<close>

datatype 'e received = Received 'e | Overflowed nat

section \<open>Event dependencies\<close>

record 'e EventDependency =
  match_fn :: "'e \<Rightarrow> bool"
  completed_dependency :: "'e option"

definition event_dependency_new :: "('e \<Rightarrow> bool) \<Rightarrow> 'e EventDependency" where
  "event_dependency_new m = \<lparr>match_fn = m, completed_dependency = None\<rparr>"

definition mark_as_completed :: "'e \<Rightarrow> 'e EventDependency \<Rightarrow> 'e EventDependency" where
  "mark_as_completed e d = d\<lparr>completed_dependency := Some e\<rparr>"

fun await_match :: "('e \<Rightarrow> bool) \<Rightarrow> 'e received list \<Rightarrow> 'e option" where
  "await_match m [] = None"
| "await_match m (Received e # rs) = (if m e then Some e else await_match m rs)"
| "await_match m (Overflowed n # rs) = await_match m rs"

definition completed :: "'e EventDependency \<Rightarrow> 'e received list \<Rightarrow> 'e option" where
  "completed d rs = (case completed_dependency d of Some e \<Rightarrow> Some e | None \<Rightarrow> await_match (match_fn d) rs)"

section \<open>Combined dependencies\<close>

primrec collect_options :: "'a option list \<Rightarrow> 'a list option" where
  "collect_options [] = Some []"
| "collect_options (x # xs) =
     (case x of None \<Rightarrow> None | Some y \<Rightarrow> map_option (Cons y) (collect_options xs))"

definition and_completed :: "'a option list \<Rightarrow> 'a multiset option" where
  "and_completed deps = map_option mset (collect_options deps)"

definition or_completed :: "'a option list \<Rightarrow> 'a set" where
  "or_completed deps = {x. Some x \<in> set deps}"

section \<open>The task loop\<close>

text \<open>The errors of a handler are only logged; \<open>None\<close> is a handler that panics or does not return.\<close>

fun task_run :: "'e \<Rightarrow> ('s \<Rightarrow> 's) \<Rightarrow> ('e \<Rightarrow> 's \<Rightarrow> 's option) \<Rightarrow> 'e received list \<Rightarrow> 's \<Rightarrow> 's option" where
  "task_run shutdown cancel_subtasks handle_event [] s = Some s"
| "task_run shutdown cancel_subtasks handle_event (Received e # rs) s =
     (if e = shutdown then Some (cancel_subtasks s)
      else Option.bind (handle_event e s) (task_run shutdown cancel_subtasks handle_event rs))"
| "task_run shutdown cancel_subtasks handle_event (Overflowed n # rs) s = task_run shutdown cancel_subtasks handle_event rs s"

section \<open>Lemmas\<close>

lemma await_match_skip: "(\<forall>x. Received x \<in> set pre \<longrightarrow> \<not> m x) \<Longrightarrow> await_match m (pre @ rs) = await_match m rs"
  by (induction m pre rule: await_match.induct) auto

lemma await_match_first:
  "await_match m rs = Some e \<Longrightarrow> \<exists>pre post. rs = pre @ Received e # post \<and> m e \<and> (\<forall>x. Received x \<in> set pre \<longrightarrow> \<not> m x)"
proof (induction m rs rule: await_match.induct)
  case (2 m x rs)
  show ?case
  proof (cases "m x")
    case True
    then show ?thesis using 2 by (intro exI [of _ "[]"] exI [of _ rs]) simp
  next
    case False
    then obtain pre post where "rs = pre @ Received e # post" "m e" "\<forall>x. Received x \<in> set pre \<longrightarrow> \<not> m x" using 2 by auto
    then show ?thesis using False by (intro exI [of _ "Received x # pre"] exI [of _ post]) auto
  qed
next
  case (3 m n rs)
  then obtain pre post where "rs = pre @ Received e # post" "m e" "\<forall>x. Received x \<in> set pre \<longrightarrow> \<not> m x" by auto
  then show ?case by (intro exI [of _ "Overflowed n # pre"] exI [of _ post]) auto
qed simp

lemma await_match_eq_Some:
  "await_match m rs = Some e \<longleftrightarrow>
     (\<exists>pre post. rs = pre @ Received e # post \<and> m e \<and> (\<forall>x. Received x \<in> set pre \<longrightarrow> \<not> m x))"
proof
  assume "\<exists>pre post. rs = pre @ Received e # post \<and> m e \<and> (\<forall>x. Received x \<in> set pre \<longrightarrow> \<not> m x)"
  then show "await_match m rs = Some e" by (elim exE conjE) (simp add: await_match_skip)
qed (rule await_match_first)

lemma await_match_append: "await_match m rs = Some e \<Longrightarrow> await_match m (rs @ rs') = Some e"
  by (induction m rs rule: await_match.induct) (auto split: if_splits)

lemma completed_append: "completed d rs = Some e \<Longrightarrow> completed d (rs @ rs') = Some e"
  by (auto simp: completed_def await_match_append split: option.splits)

lemma completed_matches: "completed d rs = Some e \<Longrightarrow> completed_dependency d = None \<Longrightarrow> match_fn d e \<and> Received e \<in> set rs"
  by (auto simp: completed_def await_match_eq_Some)

lemma collect_options_eq_Some: "collect_options xs = Some ys \<longleftrightarrow> xs = map Some ys"
  by (induction xs arbitrary: ys) (auto split: option.splits)

text \<open>Completion is stable: later events change neither that a dependency has completed nor its value.\<close>

lemma and_completed_append:
  assumes "and_completed (map (\<lambda>d. completed d rs) ds) = Some res"
  shows "and_completed (map (\<lambda>d. completed d (rs @ rs')) ds) = Some res"
proof -
  from assms obtain ys where ys: "map (\<lambda>d. completed d rs) ds = map Some ys" and res: "res = mset ys"
    by (auto simp: and_completed_def collect_options_eq_Some)
  have "map (\<lambda>d. completed d (rs @ rs')) ds = map Some ys"
    using ys by (auto simp: list_eq_iff_nth_eq completed_append)
  then show ?thesis by (simp add: and_completed_def collect_options_eq_Some res)
qed

lemma and_completed_members:
  "and_completed xs = Some M \<Longrightarrow> x \<in># M \<longleftrightarrow> Some x \<in> set xs"
  by (auto simp: and_completed_def collect_options_eq_Some)

text \<open>A task handles the events before the first shutdown event, cancels its subtasks and ignores the rest.\<close>

lemma task_run_shutdown:
  assumes "Received sd \<notin> set rs"
  shows "task_run sd cancel h (rs @ Received sd # rs') s = map_option cancel (task_run sd cancel h rs s)"
  using assms by (induction sd cancel h rs s rule: task_run.induct) (auto simp: bind_eq_Some_conv split: Option.bind_splits)

end
