(* ===== verification/QuorumVote.thy ===== *)
theory QuorumVote
  imports Validation Dependencies
begin

text \<open>
  The task that votes for proposals: \<open>crates/task-impls/src/quorum_vote\<close>.  A validated proposal may decide
  leaves; the node votes for it once the availability certificate and its own VID share have arrived as well.
\<close>

section \<open>State\<close>

text \<open>
  The join handle of the computation of a distributed random beacon (DRB).  A computation that panicked has no
  result; awaiting a handle a second time panics.
\<close>

datatype drb_handle = DrbRunning bytes | DrbFinished "drb_result option" | DrbJoined

fun is_finished :: "drb_handle \<Rightarrow> bool" where
  "is_finished (DrbRunning _) = False"
| "is_finished _ = True"

text \<open>A spawned vote dependency task: what it waits for, what its receiver has obtained so far, and whether it has ended.\<close>

record vote_task =
  vt_deps :: "HotShotEvent EventDependency list"
  vt_seen :: "HotShotEvent received list"
  vt_finished :: bool

record QuorumVoteTaskState = shared +
  qv_latest_voted_view :: u64
  qv_vote_dependencies :: "(u64, vote_task) btree"
  qv_drb_computation :: "(epoch \<times> drb_handle) option"

section \<open>The random beacon\<close>

definition update_drb :: "(DrbSeedsAndResults \<Rightarrow> DrbSeedsAndResults) \<Rightarrow> ('a shared_scheme, unit) handler" where
  "update_drb f = with_consensus (\<lambda>c. c\<lparr>drb_seeds_and_results := f (drb_seeds_and_results c)\<rparr>)"

definition insert_drb_result :: "epoch \<Rightarrow> drb_result \<Rightarrow> DrbSeedsAndResults \<Rightarrow> DrbSeedsAndResults" where
  "insert_drb_result e r d = d\<lparr>results := bt_insert e r (results d)\<rparr>"

text \<open>The spawned computation.\<close>

definition drb_task_step :: "env \<Rightarrow> QuorumVoteTaskState \<Rightarrow> QuorumVoteTaskState" where
  "drb_task_step E s =
     (case qv_drb_computation s of
        Some (e, DrbRunning seed) \<Rightarrow> s\<lparr>qv_drb_computation := Some (e, DrbFinished (ok (compute_drb_result (e_sha256 E) seed)))\<rparr>
      | _ \<Rightarrow> s)"

definition await_drb :: "(QuorumVoteTaskState, drb_result option) handler" where
  "await_drb s =
     (case qv_drb_computation s of
        Some (e, DrbFinished r) \<Rightarrow> Some (Ok r, s\<lparr>qv_drb_computation := Some (e, DrbJoined)\<rparr>, [])
      | Some (e, DrbRunning _) \<Rightarrow> None
      | _ \<Rightarrow> Some (Panic, s, []))"

definition clear_drb :: "(QuorumVoteTaskState, unit) handler" where
  "clear_drb = modify (\<lambda>s. s\<lparr>qv_drb_computation := None\<rparr>)"

text \<open>Awaiting the computation, storing its result and forgetting the handle.\<close>

definition join_drb :: "epoch \<Rightarrow> (QuorumVoteTaskState, drb_result option) handler" where
  "join_drb e =
     andThen await_drb (\<lambda>joined.
     case joined of
       Some r \<Rightarrow> seq (update_drb (insert_drb_result e r)) (seq clear_drb (ret (Some r)))
     | None \<Rightarrow> ret None)"

definition store_and_get_computed_drb_result :: "epoch \<Rightarrow> (QuorumVoteTaskState, drb_result) handler" where
  "store_and_get_computed_drb_result epoch_number =
     andThen (gets (\<lambda>s. bt_get epoch_number (results (drb_seeds_and_results (sh_consensus s))))) (\<lambda>known.
     case known of
       Some computed_result \<Rightarrow> ret computed_result
     | None \<Rightarrow>
         andThen (check_state (\<lambda>s. opt_context (Error Warn [''DRB computation task doesn't exist.'']) (qv_drb_computation s))) (\<lambda>(task_epoch, computation).
         seq (guard (task_epoch = epoch_number) (Error Info [''DRB computation is not for the next epoch.'']))
        (seq (guard (is_finished computation) (Error Info [''DRB computation has not yet finished.'']))
        (andThen (join_drb epoch_number) (\<lambda>joined.
         case joined of Some r \<Rightarrow> ret r | None \<Rightarrow> fail (Error Warn [''Error in DRB calculation.'']))))))"

definition verify_drb_result :: "env \<Rightarrow> QuorumProposal2 \<Rightarrow> (QuorumVoteTaskState, unit) handler" where
  "verify_drb_result E proposal =
     (let height = block_number (q2_block_header proposal) in
      andThen (gets (\<lambda>s. sh_epoch_height s = 0 \<or> \<not> is_last_block_in_epoch height (sh_epoch_height s))) (\<lambda>skip.
      if skip then ret ()
      else
        andThen (gets (\<lambda>s. option_epoch_from_block_number (epochs_enabled (e_versions E) (sh_upgrade_lock s) (q2_view_number proposal))
          height (sh_epoch_height s))) (\<lambda>epoch.
        andThen (lift (opt_context (Error Info [''Proposal is missing the DRB result.'']) (q2_next_drb_result proposal))) (\<lambda>proposal_result.
        case epoch of
          None \<Rightarrow> fail (Error ErrorLevel [''Epochs are not available''])
        | Some epoch_val \<Rightarrow>
            andThen (gets (\<lambda>s. m_has_stake (sh_membership s) (sh_public_key s) (Some epoch_val))) (\<lambda>has_stake_current_epoch.
            on_cond has_stake_current_epoch
              (andThen (store_and_get_computed_drb_result (epoch_val + 1)) (\<lambda>computed_result.
               guard (proposal_result = computed_result)
                 (Error Warn [''Our calculated DRB result does not match the proposed DRB result'']))))))))"

text \<open>Joining a finished computation, or aborting one for another epoch; the result says whether to go on.\<close>

definition settle_drb_task :: "epoch \<Rightarrow> (QuorumVoteTaskState, bool) handler" where
  "settle_drb_task new_epoch_number =
     andThen (gets qv_drb_computation) (\<lambda>computation.
     case computation of
       None \<Rightarrow> ret True
     | Some (task_epoch, handle) \<Rightarrow>
         if is_finished handle then seq (join_drb task_epoch) (ret True)
         else if task_epoch = new_epoch_number then ret False
         else seq clear_drb (ret True))"

definition start_drb_task :: "QuorumProposal2 \<Rightarrow> (QuorumVoteTaskState, unit) handler" where
  "start_drb_task proposal =
     (if q2_epoch proposal = None then ret ()
      else
        andThen (gets (\<lambda>s. epoch_from_block_number (block_number (q2_block_header proposal)) (sh_epoch_height s))) (\<lambda>current_epoch_number.
        andThen (gets (\<lambda>s. m_has_stake (sh_membership s) (sh_public_key s) (Some current_epoch_number))) (\<lambda>staked.
        if \<not> staked then ret ()
        else
          let new_epoch_number = current_epoch_number + 1 in
          andThen (settle_drb_task new_epoch_number) (\<lambda>go_on.
          if \<not> go_on then ret ()
          else
            andThen (gets (\<lambda>s. drb_seeds_and_results (sh_consensus s))) (\<lambda>d.
            if bt_contains new_epoch_number (results d) then ret ()
            else
              (case bt_get new_epoch_number (seeds d) of
                 None \<Rightarrow> ret ()
               | Some drb_seed_input \<Rightarrow>
                   seq (modify (\<lambda>s. s\<lparr>qv_drb_computation := Some (new_epoch_number, DrbRunning drb_seed_input)\<rparr>))
                       (update_drb (\<lambda>d. d\<lparr>seeds := bt_remove new_epoch_number (seeds d)\<rparr>))))))))"

definition store_drb_seed_and_result :: "env \<Rightarrow> Leaf2 \<Rightarrow> (QuorumVoteTaskState, unit) handler" where
  "store_drb_seed_and_result E dleaf =
     andThen (gets sh_epoch_height) (\<lambda>eh.
     if eh = 0 then ret ()
     else
       let decided_block_number = block_number (l2_block_header dleaf);
           current_epoch_number = epoch_from_block_number decided_block_number eh in
       if is_epoch_root decided_block_number eh then
         seq (update_drb (drb_garbage_collect current_epoch_number))
        (seq (store_and_get_computed_drb_result (current_epoch_number + 1))
             (case e_bincode_signatures E (c_signatures (l2_justify_qc dleaf)) of
                None \<Rightarrow> bail ''Failed to serialize the QC signature.''
              | Some drb_seed_input_vec \<Rightarrow>
                  seq (guard (length drb_seed_input_vec = 32)
                        (Error Unspecified [''Failed to convert the serialized QC signature into a DRB seed input.'']))
                      (update_drb (store_seed (current_epoch_number + 2) drb_seed_input_vec))))
       else if is_last_block_in_epoch decided_block_number eh then
         (case l2_next_drb_result dleaf of
            Some r \<Rightarrow> update_drb (insert_drb_result (current_epoch_number + 1) r)
          | None \<Rightarrow> bail ''The last block of the epoch is decided but doesn't contain a DRB result.'')
       else ret ())"

section \<open>Deciding\<close>

definition record_decided_upgrade :: "env \<Rightarrow> UpgradeCertificate option \<Rightarrow> ('a shared_scheme, unit) handler" where
  "record_decided_upgrade E cert_opt =
     (case cert_opt of
        None \<Rightarrow> ret ()
      | Some cert \<Rightarrow>
          seq (modify (\<lambda>s. s\<lparr>sh_upgrade_lock := UpgradeLock (Some cert)\<rparr>))
              (log_store E (Update_decided_upgrade_certificate (Some cert))))"

definition announce_decide :: "u64 \<Rightarrow> LeafChainTraversalOutcome \<Rightarrow> ('s, unit) handler" where
  "announce_decide decided_view res =
     andThen (lift (unwrap (new_decide_qc res))) (\<lambda>qc.
     notify decided_view (Decide (leaf_views res) qc (map_option (\<lambda>txns. word_of_nat (card txns)) (included_txns res))))"

definition handle_quorum_proposal_validated :: "env \<Rightarrow> QuorumProposalWrapper \<Rightarrow> (QuorumVoteTaskState, unit) handler" where
  "handle_quorum_proposal_validated E proposal =
     (let qp = qw_proposal proposal in
      andThen (check_state (\<lambda>s. version (e_versions E) (sh_upgrade_lock s) (q2_view_number qp))) (\<lambda>ver.
      let epochs = version_ge (e_versions E) ver (V_Epochs (e_versions E)) in
      seq (on_cond epochs (seq (verify_drb_result E qp) (start_drb_task qp)))
     (andThen (run (\<lambda>s. (if epochs then decide_from_proposal_2 else decide_from_proposal) (e_ops E) (e_hooks E) proposal (sh_consensus s)
          (decided_upgrade_certificate (sh_upgrade_lock s)) (sh_public_key s) epochs (sh_membership s))) (\<lambda>(res, m).
      seq (modify (\<lambda>s. s\<lparr>sh_membership := m\<rparr>))
     (seq (record_decided_upgrade E (decided_upgrade_cert res))
     (seq (case new_locked_view_number res of None \<Rightarrow> ret () | Some v \<Rightarrow> try_consensus (update_locked_view v))
          (case new_decided_view_number res of
             None \<Rightarrow> ret ()
           | Some decided_view_number \<Rightarrow>
               andThen (gets (\<lambda>s. last_decided_view (sh_consensus s))) (\<lambda>old_decided_view.
               seq (try_consensus (collect_garbage old_decided_view decided_view_number))
              (seq (try_consensus (update_last_decided_view decided_view_number))
              (seq (announce_decide decided_view_number res)
                   (on_cond epochs
                      (if leaf_views res = [] then lift Panic
                       else store_drb_seed_and_result E (li_leaf (last (leaf_views res)))))))))))))))"

section \<open>Voting\<close>

definition update_shared_state ::
  "env \<Rightarrow> u64 \<Rightarrow> Leaf2 \<Rightarrow> VidDisperseShare Proposal \<Rightarrow> u64 option \<Rightarrow> ('a shared_scheme, unit) handler" where
  "update_shared_state E view_number proposed_leaf vid_share parent_view_number =
     (let justify_qc = l2_justify_qc proposed_leaf in
      andThen (gets (\<lambda>s. Option.bind parent_view_number (\<lambda>v. bt_get v (validated_state_map (sh_consensus s))))) (\<lambda>saved_view.
      andThen (gets (\<lambda>s. saved_leaves (sh_consensus s) (leaf_commit (c_data justify_qc)))) (\<lambda>saved_parent.
      andThen (case saved_parent of
          Some p \<Rightarrow> ret (Some p, saved_view)
        | None \<Rightarrow> andThen (attempt (fetch_proposal E (c_view_number justify_qc))) (\<lambda>fetched.
            case fetched of Some (leaf, view) \<Rightarrow> ret (Some leaf, Some view) | None \<Rightarrow> ret (None, saved_view))) (\<lambda>(maybe_parent, maybe_validated_view).
      andThen (lift (opt_context (Error Info [''Proposal's parent missing from storage'']) maybe_parent)) (\<lambda>parent.
      andThen (lift (ok_or maybe_validated_view (Error Unspecified [''Failed to fetch view for parent'']))) (\<lambda>validated_view.
      andThen (lift (ok_or (fst (view_state_and_delta validated_view)) (Error Unspecified [''Parent state not found! Consensus internally inconsistent'']))) (\<lambda>parent_state.
      andThen (check_state (\<lambda>s. version (e_versions E) (sh_upgrade_lock s) view_number)) (\<lambda>ver.
      andThen (lift (opt_context (Error Warn [''Block header doesn't extend the proposal!''])
        (e_validate_and_apply_header E parent_state parent (l2_block_header proposed_leaf) (vid_common_ref (pr_data vid_share)) ver view_number))) (\<lambda>(st, delta).
      seq (log_consensus (update_leaf (e_crypto E) proposed_leaf st (Some delta)))
     (andThen (gets (\<lambda>s. Update_undecided_state (saved_leaves (sh_consensus s)) (validated_state_map (sh_consensus s)))) (\<lambda>sop.
      contextual (Error ErrorLevel [''Failed to update undecided state'']) (store E sop))))))))))))"

definition may_vote :: "membership \<Rightarrow> pubkey \<Rightarrow> Leaf2 \<Rightarrow> u64 \<Rightarrow> bool" where
  "may_vote m public_key leaf eh =
     (let epoch_number = option_epoch_from_block_number (l2_with_epoch leaf) (block_number (l2_block_header leaf)) eh in
      m_has_stake m public_key epoch_number \<or>
      (l2_with_epoch leaf \<and> is_last_block_in_epoch (l2_height leaf) eh \<and>
       m_has_stake m public_key (map_option (\<lambda>x. x + 1) epoch_number)))"

definition submit_vote :: "env \<Rightarrow> u64 \<Rightarrow> Leaf2 \<Rightarrow> VidDisperseShare Proposal \<Rightarrow> bool \<Rightarrow> ('a shared_scheme, unit) handler" where
  "submit_vote E view_number leaf vid_share extended_vote =
     seq (check_state (\<lambda>s. ensure (may_vote (sh_membership s) (sh_public_key s) leaf (sh_epoch_height s))
       (Error Info [''We were not chosen for quorum committee''])))
    (andThen (check_state (\<lambda>s. with_context (Error ErrorLevel [''Failed to sign vote. This should never happen.''])
       (create_signed_vote (finalize (e_crypto E)) (e_versions E) (commit_QuorumData2 (finalize (e_crypto E)))
         (key_sign (e_crypto E) (sh_private_key s))
         (QuorumData2 (commit_Leaf2 (e_crypto E) leaf)
           (option_epoch_from_block_number (l2_with_epoch leaf) (block_number (l2_block_header leaf)) (sh_epoch_height s)))
         view_number (sh_public_key s) (sh_upgrade_lock s)))) (\<lambda>vote.
     seq (contextual (Error ErrorLevel [''Failed to store VID share'']) (store E (Append_vid (convert_proposal share_into_share2 vid_share))))
         (broadcast_event (if extended_vote then ExtendedQuorumVoteSend vote else QuorumVoteSend vote))))"

text \<open>
  The handler of a completed vote dependency.  It collects the proposal, certificate and share among the
  results, in whatever order they come; every early return of the source leaves without a vote, and is an error here.
\<close>

record vote_inputs =
  vi_payload_commitment :: "commitment option"
  vi_leaf :: "Leaf2 option"
  vi_vid_share :: "VidDisperseShare Proposal option"
  vi_parent_view_number :: "u64 option"

definition vote_inputs_default :: vote_inputs where
  "vote_inputs_default = \<lparr>vi_payload_commitment = None, vi_leaf = None, vi_vid_share = None, vi_parent_view_number = None\<rparr>"

definition agree_on_commitment :: "commitment \<Rightarrow> string \<Rightarrow> vote_inputs \<Rightarrow> (vote_inputs, error) result" where
  "agree_on_commitment comm msg acc =
     (case vi_payload_commitment acc of
        Some comm' \<Rightarrow> and_then (ensure (comm = comm') (Error Unspecified [msg])) (\<lambda>_. Ok acc)
      | None \<Rightarrow> Ok (acc\<lparr>vi_payload_commitment := Some comm\<rparr>))"

definition collect_proposal :: "env \<Rightarrow> u64 \<Rightarrow> QuorumProposalWrapper Proposal \<Rightarrow> Leaf2 \<Rightarrow> vote_inputs \<Rightarrow> ('a shared_scheme, vote_inputs) handler" where
  "collect_proposal E view_number proposal parent_leaf acc =
     (let qp = qw_proposal (pr_data proposal); proposed_leaf = from_quorum_proposal (pr_data proposal) in
      andThen (check_state (\<lambda>s. version (e_versions E) (sh_upgrade_lock s) view_number)) (\<lambda>ver.
      andThen (run (\<lambda>s. if version_ge (e_versions E) ver (V_Epochs (e_versions E))
          then is_leaf_forming_eqc (leaf_commit (c_data (q2_justify_qc qp))) (sh_consensus s) else Some False)) (\<lambda>forming_eqc.
      seq (guard (\<not> forming_eqc) (Error Unspecified [''Do not vote here. Voting for this case is handled in QuorumVoteTaskState'']))
     (andThen (lift (agree_on_commitment (payload_commitment (q2_block_header qp))
          ''Quorum proposal has inconsistent payload commitment with DAC or VID.'' acc)) (\<lambda>acc1.
      seq (guard (l2_parent_commitment proposed_leaf = commit_Leaf2 (e_crypto E) parent_leaf)
          (Error Unspecified [''Proposed leaf parent commitment does not match parent leaf payload commitment. Aborting vote.'']))
     (seq (store E (Append_proposal proposal))
          (ret (acc1\<lparr>vi_leaf := Some proposed_leaf, vi_parent_view_number := Some (l2_view_number parent_leaf)\<rparr>))))))))"

definition share_commitment_for_vote :: "VidDisperseShare \<Rightarrow> commitment" where
  "share_commitment_for_vote share = (case data_epoch_payload_commitment share of Some cm \<Rightarrow> cm | None \<Rightarrow> share_payload_commitment share)"

definition collect_vote_event :: "env \<Rightarrow> u64 \<Rightarrow> HotShotEvent \<Rightarrow> vote_inputs \<Rightarrow> ('a shared_scheme, vote_inputs) handler" where
  "collect_vote_event E view_number ev acc =
     (case ev of
        QuorumProposalValidated proposal parent_leaf \<Rightarrow> collect_proposal E view_number proposal parent_leaf acc
      | DaCertificateValidated cert \<Rightarrow>
          lift (agree_on_commitment (payload_commit (c_data cert)) ''DAC has inconsistent payload commitment with quorum proposal or VID.'' acc)
      | VidShareValidated share \<Rightarrow>
          lift (agree_on_commitment (share_commitment_for_vote (pr_data share))
            ''VID has inconsistent payload commitment with quorum proposal or DAC.'' (acc\<lparr>vi_vid_share := Some share\<rparr>))
      | _ \<Rightarrow> ret acc)"

primrec collect_vote_events :: "env \<Rightarrow> u64 \<Rightarrow> HotShotEvent list \<Rightarrow> vote_inputs \<Rightarrow> ('a shared_scheme, vote_inputs) handler" where
  "collect_vote_events E view_number [] acc = ret acc"
| "collect_vote_events E view_number (ev # evs) acc =
     andThen (collect_vote_event E view_number ev acc) (collect_vote_events E view_number evs)"

definition handle_dep_result :: "env \<Rightarrow> u64 \<Rightarrow> HotShotEvent list \<Rightarrow> ('a shared_scheme, unit) handler" where
  "handle_dep_result E view_number res =
     andThen (collect_vote_events E view_number res vote_inputs_default) (\<lambda>inputs.
     andThen (lift (ok_or (vi_vid_share inputs) (Error Unspecified [''We don't have the VID share for this view'']))) (\<lambda>vid_share.
     andThen (lift (ok_or (vi_leaf inputs) (Error Unspecified [''We don't have the leaf for this view'']))) (\<lambda>leaf.
     seq (update_shared_state E view_number leaf vid_share (vi_parent_view_number inputs))
    (andThen (gets (\<lambda>s. option_epoch_from_block_number (l2_with_epoch leaf) (l2_height leaf) (sh_epoch_height s))) (\<lambda>cur_epoch.
     seq (broadcast_event (ViewChange (view_number + 1) cur_epoch))
         (submit_vote E view_number leaf vid_share False))))))"

section \<open>Dependency tasks\<close>

datatype VoteDependency = QuorumProposalDep | DacDep | VidDep

fun vote_match :: "VoteDependency \<Rightarrow> u64 \<Rightarrow> HotShotEvent \<Rightarrow> bool" where
  "vote_match QuorumProposalDep view_number ev =
     (case ev of QuorumProposalValidated proposal _ \<Rightarrow> q2_view_number (qw_proposal (pr_data proposal)) = view_number | _ \<Rightarrow> False)"
| "vote_match DacDep view_number ev = (case ev of DaCertificateValidated cert \<Rightarrow> c_view_number cert = view_number | _ \<Rightarrow> False)"
| "vote_match VidDep view_number ev =
     (case ev of VidShareValidated share \<Rightarrow> share_view_number (pr_data share) = view_number | _ \<Rightarrow> False)"

definition create_event_dependency :: "VoteDependency \<Rightarrow> u64 \<Rightarrow> HotShotEvent EventDependency" where
  "create_event_dependency t view_number = event_dependency_new (vote_match t view_number)"

definition vote_task_new :: "u64 \<Rightarrow> HotShotEvent \<Rightarrow> vote_task" where
  "vote_task_new view_number ev =
     (let qp_dep = create_event_dependency QuorumProposalDep view_number;
          qp_dep' = (case ev of QuorumProposalValidated _ _ \<Rightarrow> mark_as_completed ev qp_dep | _ \<Rightarrow> qp_dep)
      in \<lparr>vt_deps = [qp_dep', create_event_dependency DacDep view_number, create_event_dependency VidDep view_number], vt_seen = [], vt_finished = False\<rparr>)"

definition create_dependency_task_if_new :: "u64 \<Rightarrow> HotShotEvent \<Rightarrow> QuorumVoteTaskState \<Rightarrow> QuorumVoteTaskState" where
  "create_dependency_task_if_new view_number ev s =
     (if bt_contains view_number (qv_vote_dependencies s) then s
      else s\<lparr>qv_vote_dependencies := bt_insert view_number (vote_task_new view_number ev) (qv_vote_dependencies s)\<rparr>)"

text \<open>What the task of a view completes with, once it does.\<close>

definition vote_task_result :: "vote_task \<Rightarrow> HotShotEvent multiset option" where
  "vote_task_result t = and_completed (map (\<lambda>d. completed d (vt_seen t)) (vt_deps t))"

definition vote_task_observe :: "HotShotEvent \<Rightarrow> vote_task \<Rightarrow> vote_task" where
  "vote_task_observe ev t = t\<lparr>vt_seen := vt_seen t @ [Received ev]\<rparr>"

definition update_latest_voted_view :: "u64 \<Rightarrow> QuorumVoteTaskState \<Rightarrow> QuorumVoteTaskState" where
  "update_latest_voted_view new_view s =
     (if qv_latest_voted_view s < new_view
      then s\<lparr>qv_vote_dependencies := filter (\<lambda>(v, _). \<not> (qv_latest_voted_view s \<le> v \<and> v < new_view)) (qv_vote_dependencies s),
             qv_latest_voted_view := new_view\<rparr>
      else s)"

definition cancel_old_votes :: "u64 \<Rightarrow> QuorumVoteTaskState \<Rightarrow> QuorumVoteTaskState" where
  "cancel_old_votes view s = s\<lparr>qv_vote_dependencies := bt_split_off view (qv_vote_dependencies s)\<rparr>"

section \<open>Voting for the end of an epoch\<close>

definition handle_eqc_voting :: "env \<Rightarrow> QuorumProposalWrapper Proposal \<Rightarrow> Leaf2 \<Rightarrow> ('a shared_scheme, unit) handler" where
  "handle_eqc_voting E proposal parent_leaf =
     (let proposed_leaf = from_quorum_proposal (pr_data proposal); view = q2_view_number (qw_proposal (pr_data proposal));
          no_vid = Error Warn [''Proposed leaf is the same as its parent but we don't have our VID for it''] in
      seq (guard (l2_height proposed_leaf = l2_height parent_leaf \<and> l2_payload_commitment proposed_leaf = l2_payload_commitment parent_leaf)
        (Error ErrorLevel [''Justify QC is for the last block but it's not extended and a new block is proposed. Not voting!'']))
     (andThen (check_state (\<lambda>s. opt_context no_vid (bt_get (l2_view_number parent_leaf) (vid_shares (sh_consensus s))))) (\<lambda>shares.
      andThen (check_state (\<lambda>s. opt_context no_vid (shares (sh_public_key s)))) (\<lambda>vid.
      let updated_vid = convert_proposal (set_view_number view) vid in
      seq (with_consensus (update_vid_shares (share_view_number (pr_data updated_vid)) updated_vid))
     (seq (guard (l2_parent_commitment proposed_leaf = commit_Leaf2 (e_crypto E) parent_leaf)
        (Error Warn [''Proposed leaf parent commitment does not match parent leaf payload commitment. Aborting vote.'']))
     (seq (contextual (Error ErrorLevel [''failed to store proposal, not voting.'']) (store E (Append_proposal proposal)))
     (seq (contextual (Error ErrorLevel [''Failed to update shared consensus state''])
        (update_shared_state E view proposed_leaf updated_vid (Some (l2_view_number parent_leaf))))
     (andThen (gets (\<lambda>s. epoch_from_block_number (l2_height proposed_leaf) (sh_epoch_height s))) (\<lambda>current_epoch.
      andThen (run (\<lambda>s. is_leaf_extended (commit_Leaf2 (e_crypto E) proposed_leaf) (sh_consensus s))) (\<lambda>is_vote_leaf_extended.
      seq (on_cond (\<not> is_vote_leaf_extended) (broadcast_event (ViewChange (view + 1) (Some current_epoch))))
          (contextual (Error Debug [''Failed to submit vote'']) (submit_vote E view proposed_leaf updated_vid is_vote_leaf_extended))))))))))))"

section \<open>The task\<close>

definition valid_dac :: "env \<Rightarrow> 'a shared_scheme \<Rightarrow> DaCertificate2 \<Rightarrow> (unit, error) result" where
  "valid_dac E s cert =
     is_valid_cert (e_crypto E) (e_versions E) (commit_DaData2 (finalize (e_crypto E))) (sh_upgrade_lock s)
       (m_da_stake_table (sh_membership s) (da_epoch (c_data cert))) (m_da_success_threshold (sh_membership s) (da_epoch (c_data cert))) cert"

definition vid_share_sent_by_member :: "membership \<Rightarrow> pubkey \<Rightarrow> VidDisperseShare \<Rightarrow> (unit, error) result" where
  "vid_share_sent_by_member m sender share =
     (let view = share_view_number share; vid_epoch = share_epoch share;
          refusal = Error Unspecified [''VID share was not sent by a DA member or the view leader.''] in
      if sender \<in> m_da_committee_members m view vid_epoch then Ok ()
      else and_then (leader m view vid_epoch) (\<lambda>l. ensure (sender = l) refusal))"

definition qv_proposal_validated :: "env \<Rightarrow> QuorumProposalWrapper Proposal \<Rightarrow> Leaf2 \<Rightarrow> (QuorumVoteTaskState, unit) handler" where
  "qv_proposal_validated E proposal parent_leaf =
     (let qp = qw_proposal (pr_data proposal); view = q2_view_number qp in
      seq (attempt (handle_quorum_proposal_validated E (pr_data proposal)))
     (seq (check_state (\<lambda>s. ensure (qv_latest_voted_view s < view) (Error Unspecified [''We have already voted for this view''])))
     (andThen (check_state (\<lambda>s. version (e_versions E) (sh_upgrade_lock s) view)) (\<lambda>ver.
      andThen (run (\<lambda>s. is_leaf_forming_eqc (leaf_commit (c_data (q2_justify_qc qp))) (sh_consensus s))) (\<lambda>is_justify_qc_forming_eqc.
      if version_ge (e_versions E) ver (V_Epochs (e_versions E)) \<and> is_justify_qc_forming_eqc
      then seq (attempt (handle_eqc_voting E proposal parent_leaf)) (ret ())
      else modify (create_dependency_task_if_new view (QuorumProposalValidated proposal parent_leaf)))))))"

definition qv_dac_recv :: "env \<Rightarrow> DaCertificate2 \<Rightarrow> (QuorumVoteTaskState, unit) handler" where
  "qv_dac_recv E cert =
     (let view = c_view_number cert in
      seq (check_state (\<lambda>s. ensure (qv_latest_voted_view s < view) (Error Unspecified [''Received DAC for an older view.''])))
     (seq (check_state (\<lambda>s. with_context (Error Warn [''Invalid DAC'']) (valid_dac E s cert)))
     (seq (with_consensus (update_saved_da_certs view cert))
     (seq (broadcast_event (DaCertificateValidated cert))
          (modify (create_dependency_task_if_new view (DaCertificateRecv cert)))))))"

definition qv_vid_share_recv :: "env \<Rightarrow> pubkey \<Rightarrow> VidDisperseShare Proposal \<Rightarrow> (QuorumVoteTaskState, unit) handler" where
  "qv_vid_share_recv E sender share =
     (let view = share_view_number (pr_data share) in
      seq (check_state (\<lambda>s. ensure (qv_latest_voted_view s < view) (Error Unspecified [''Received VID share for an older view.''])))
     (seq (guard (key_validate (e_crypto E) sender (pr_signature share) (share_payload_commitment (pr_data share)))
        (Error Unspecified [''VID share signature is invalid'']))
     (seq (check_state (\<lambda>s. vid_share_sent_by_member (sh_membership s) sender (pr_data share)))
     (seq (check_state (\<lambda>s. ensure (share_verify_share (e_vid E) (pr_data share) (m_total_nodes (sh_membership s) (target_epoch (pr_data share))))
        (Error Unspecified [''Failed to verify VID share''])))
     (seq (with_consensus (update_vid_shares view share))
     (seq (check_state (\<lambda>s. ensure (recipient_key (pr_data share) = sh_public_key s)
        (Error Unspecified [''Got a Valid VID share but it's not for our key''])))
     (seq (broadcast_event (VidShareValidated share))
          (modify (create_dependency_task_if_new view (VidShareRecv sender share))))))))))"

definition qv_handle :: "env \<Rightarrow> HotShotEvent \<Rightarrow> (QuorumVoteTaskState, unit) handler" where
  "qv_handle E ev =
     (case ev of
        QuorumProposalValidated proposal parent_leaf \<Rightarrow> qv_proposal_validated E proposal parent_leaf
      | DaCertificateRecv cert \<Rightarrow> qv_dac_recv E cert
      | VidShareRecv sender share \<Rightarrow> qv_vid_share_recv E sender share
      | TimeoutEvent view _ \<Rightarrow> modify (cancel_old_votes (saturating_sub view 1))
      | ViewChange view _ \<Rightarrow>
          modify (\<lambda>s. cancel_old_votes (saturating_sub view 1) (update_latest_voted_view (saturating_sub view 1) s))
      | _ \<Rightarrow> ret ())"

section \<open>Refinement\<close>

lemma follows_update_drb [follows_intros]: "follows (consensus_refines cr) (update_drb f)"
  unfolding update_drb_def by (rule follows_drb)

lemma follows_drb_handle [follows_intros]:
  "follows (consensus_refines cr) await_drb" "follows (consensus_refines cr) clear_drb"
  by (auto simp: follows_def wp_def await_drb_def clear_drb_def modify_def consensus_refines_same cr.R_refl split: option.splits prod.splits drb_handle.splits)

lemma follows_join_drb [follows_intros]: "follows (consensus_refines cr) (join_drb e)"
  unfolding join_drb_def by (intro follows_intros)

lemma follows_store_and_get [follows_intros]: "follows (consensus_refines cr) (store_and_get_computed_drb_result e)"
  unfolding store_and_get_computed_drb_result_def by (intro follows_intros)

lemma follows_verify_drb_result [follows_intros]: "follows (consensus_refines cr) (verify_drb_result E qp)"
  unfolding verify_drb_result_def Let_def by (intro follows_intros)

lemma follows_start_drb_task [follows_intros]: "follows (consensus_refines cr) (start_drb_task qp)"
  unfolding start_drb_task_def settle_drb_task_def Let_def
  by (intro follows_intros cr.follows_modify consensus_refines_same) simp

lemma follows_store_drb_seed [follows_intros]: "follows (consensus_refines cr) (store_drb_seed_and_result E l)"
  unfolding store_drb_seed_and_result_def Let_def by (intro follows_intros)

lemma follows_record_decided_upgrade [follows_intros]: "follows (consensus_refines cr) (record_decided_upgrade E cert)"
  unfolding record_decided_upgrade_def by (intro follows_intros cr.follows_modify consensus_refines_same) simp

lemma follows_handle_quorum_proposal_validated [follows_intros]:
  "follows (consensus_refines (e_crypto E)) (handle_quorum_proposal_validated E p)"
  unfolding handle_quorum_proposal_validated_def announce_decide_def Let_def
  by (intro follows_intros cr.follows_modify consensus_refines_same) simp

lemma follows_update_shared_state [follows_intros]:
  "follows (consensus_refines (e_crypto E)) (update_shared_state E view l share pv)" "follows undisturbed (update_shared_state E view l share pv)"
  "follows same_task (update_shared_state E view l share pv)"
  unfolding update_shared_state_def fetch_proposal_def Let_def by (intro follows_intros)+

lemma follows_submit_vote [follows_intros]:
  "follows (consensus_refines (e_crypto E)) (submit_vote E view l share ext)" "follows undisturbed (submit_vote E view l share ext)"
  "follows same_task (submit_vote E view l share ext)"
  unfolding submit_vote_def by (intro follows_intros)+

lemma follows_collect_proposal [follows_intros]:
  "follows (consensus_refines cr) (collect_proposal E view p l acc)" "follows undisturbed (collect_proposal E view p l acc)"
  "follows same_task (collect_proposal E view p l acc)"
  unfolding collect_proposal_def Let_def by (intro follows_intros)+

lemma follows_collect_vote_event [follows_intros]: "follows (consensus_refines cr) (collect_vote_event E view ev acc)"
  "follows undisturbed (collect_vote_event E view ev acc)" "follows same_task (collect_vote_event E view ev acc)"
  unfolding collect_vote_event_def by (cases ev; simp add: follows_intros)+

lemma follows_collect_vote_events [follows_intros]:
  "follows (consensus_refines cr) (collect_vote_events E view evs acc)" "follows undisturbed (collect_vote_events E view evs acc)"
  "follows same_task (collect_vote_events E view evs acc)"
  by (induction evs arbitrary: acc) (auto intro!: follows_intros)

lemma follows_handle_dep_result:
  "follows (consensus_refines (e_crypto E)) (handle_dep_result E view evs)" "follows same_task (handle_dep_result E view evs)"
  unfolding handle_dep_result_def by (intro follows_intros)+

lemma follows_handle_eqc_voting [follows_intros]:
  "follows (consensus_refines (e_crypto E)) (handle_eqc_voting E p l)" "follows same_task (handle_eqc_voting E p l)"
  unfolding handle_eqc_voting_def Let_def by (intro follows_intros)+

lemma create_dependency_task_frame [simp]: "sh_consensus (create_dependency_task_if_new v ev s) = sh_consensus s"
  by (simp add: create_dependency_task_if_new_def)

lemma follows_qv_events [follows_intros]:
  "follows (consensus_refines (e_crypto E)) (qv_proposal_validated E p l)"
  "follows (consensus_refines (e_crypto E)) (qv_dac_recv E cert)"
  "follows (consensus_refines (e_crypto E)) (qv_vid_share_recv E sender share)"
  unfolding qv_proposal_validated_def qv_dac_recv_def qv_vid_share_recv_def Let_def
  by (intro follows_intros cr.follows_modify consensus_refines_same create_dependency_task_frame)+

lemma follows_qv_handle: "follows (consensus_refines (e_crypto E)) (qv_handle E ev)"
  unfolding qv_handle_def
  by (cases ev) (simp_all add: follows_intros cr.follows_modify consensus_refines_same cancel_old_votes_def update_latest_voted_view_def)

section \<open>What a vote rests on\<close>

definition is_vote :: "effect \<Rightarrow> bool" where
  "is_vote x \<longleftrightarrow> (\<exists>v. x = Internal (QuorumVoteSend v) \<or> x = Internal (ExtendedQuorumVoteSend v))"

lemma is_vote_simps [simp]: "is_vote (Internal (QuorumVoteSend v))" "is_vote (Internal (ExtendedQuorumVoteSend v))"
  by (simp_all add: is_vote_def)

lemma update_shared_state_silent: "emits (\<lambda>x. \<not> is_vote x) (update_shared_state E view leaf share pv)"
  unfolding update_shared_state_def fetch_proposal_def Let_def by (intro emits_intros) (simp_all add: is_vote_def)

definition vote_for :: "env \<Rightarrow> 'a shared_scheme \<Rightarrow> u64 \<Rightarrow> Leaf2 \<Rightarrow> QuorumVote2 \<Rightarrow> bool" where
  "vote_for E s view leaf vote \<longleftrightarrow>
     v_view_number vote = view \<and> leaf_commit (v_data vote) = commit_Leaf2 (e_crypto E) leaf \<and> fst (v_signature vote) = sh_public_key s \<and>
     (\<exists>vd. versioned_new (e_versions E) (sh_upgrade_lock s) (v_data vote) view = Ok vd \<and>
        key_sign (e_crypto E) (sh_private_key s)
          (commit_versioned (finalize (e_crypto E)) (commit_QuorumData2 (finalize (e_crypto E))) vd) = Some (snd (v_signature vote)))"

lemma submit_vote_sends:
  "wp (submit_vote E view leaf share ext)
     (\<lambda>r s1 out. out = [] \<or> (\<exists>vote. out = [Internal (if ext then ExtendedQuorumVoteSend vote else QuorumVoteSend vote)] \<and>
        vote_for E s view leaf vote \<and> may_vote (sh_membership s) (sh_public_key s) leaf (sh_epoch_height s) \<and>
        Append_vid (convert_proposal share_into_share2 share) \<in> set (sh_storage s1))) s"
  unfolding submit_vote_def
  by (intro wp_intros) (auto simp: wp_simps vote_for_def create_signed_vote_def ensure_eq_Ok with_context_eq_Ok and_then_eq_Ok ok_or_eq_Ok split: result.splits)

text \<open>The payload commitment that an event speaks of.\<close>

definition event_commitment :: "HotShotEvent \<Rightarrow> commitment option" where
  "event_commitment ev =
     (case ev of
        QuorumProposalValidated p _ \<Rightarrow> Some (payload_commitment (q2_block_header (qw_proposal (pr_data p))))
      | DaCertificateValidated cert \<Rightarrow> Some (payload_commit (c_data cert))
      | VidShareValidated share \<Rightarrow> Some (share_commitment_for_vote (pr_data share))
      | _ \<Rightarrow> None)"

definition inputs_ok :: "env \<Rightarrow> HotShotEvent set \<Rightarrow> 'a shared_scheme \<Rightarrow> vote_inputs \<Rightarrow> bool" where
  "inputs_ok E evs s acc \<longleftrightarrow>
     (\<forall>ev \<in> evs. \<forall>cm. event_commitment ev = Some cm \<longrightarrow> vi_payload_commitment acc = Some cm) \<and>
     (\<forall>sh. vi_vid_share acc = Some sh \<longrightarrow> VidShareValidated sh \<in> evs) \<and>
     (\<forall>l. vi_leaf acc = Some l \<longrightarrow> (\<exists>p parent. QuorumProposalValidated p parent \<in> evs \<and> l = from_quorum_proposal (pr_data p) \<and>
        l2_parent_commitment l = commit_Leaf2 (e_crypto E) parent \<and> Append_proposal p \<in> set (sh_storage s)))"

lemma agree_on_commitment_eq_Ok:
  "agree_on_commitment comm msg acc = Ok acc' \<longleftrightarrow>
     (vi_payload_commitment acc = None \<or> vi_payload_commitment acc = Some comm) \<and> acc' = acc\<lparr>vi_payload_commitment := Some comm\<rparr>"
  by (cases acc) (auto simp: agree_on_commitment_def ensure_def split: option.splits)

lemma agree_on_commitment_neq_Panic [simp]: "agree_on_commitment comm msg acc \<noteq> Panic"
  by (auto simp: agree_on_commitment_def ensure_def split: option.splits)

lemma inputs_ok_agree:
  assumes "inputs_ok E evs s acc" and "agree_on_commitment cm msg acc = Ok acc'" and "event_commitment ev = Some cm"
    and "vi_vid_share acc'' = vi_vid_share acc \<or> (\<exists>sh. ev = VidShareValidated sh \<and> vi_vid_share acc'' = Some sh)"
    and "vi_leaf acc'' = vi_leaf acc \<or> (\<exists>p parent. ev = QuorumProposalValidated p parent \<and> vi_leaf acc'' = Some (from_quorum_proposal (pr_data p)) \<and>
        l2_parent_commitment (from_quorum_proposal (pr_data p)) = commit_Leaf2 (e_crypto E) parent \<and> Append_proposal p \<in> set (sh_storage s'))"
    and "vi_payload_commitment acc'' = vi_payload_commitment acc'" and "set (sh_storage s) \<subseteq> set (sh_storage s')"
  shows "inputs_ok E (insert ev evs) s' acc''"
proof -
  have pc: "vi_payload_commitment acc'' = Some cm" "vi_payload_commitment acc = None \<or> vi_payload_commitment acc = Some cm"
    using assms(2,6) by (auto simp: agree_on_commitment_eq_Ok)
  show ?thesis unfolding inputs_ok_def
  proof (intro conjI ballI allI impI)
    show "vi_payload_commitment acc'' = Some cm'" if "e \<in> insert ev evs" "event_commitment e = Some cm'" for e cm'
      using that pc assms(1,3) by (auto simp: inputs_ok_def)
    show "VidShareValidated sh \<in> insert ev evs" if "vi_vid_share acc'' = Some sh" for sh
      using that assms(1,4) by (auto simp: inputs_ok_def)
    show "\<exists>p parent. QuorumProposalValidated p parent \<in> insert ev evs \<and> l = from_quorum_proposal (pr_data p) \<and>
        l2_parent_commitment l = commit_Leaf2 (e_crypto E) parent \<and> Append_proposal p \<in> set (sh_storage s')" if "vi_leaf acc'' = Some l" for l
      using assms(5)
    proof (elim disjE exE conjE)
      assume "vi_leaf acc'' = vi_leaf acc"
      then have "vi_leaf acc = Some l" using that by simp
      then show ?thesis using assms(1,7) unfolding inputs_ok_def by blast
    next
      fix p parent
      assume p: "ev = QuorumProposalValidated p parent" "vi_leaf acc'' = Some (from_quorum_proposal (pr_data p))"
        "l2_parent_commitment (from_quorum_proposal (pr_data p)) = commit_Leaf2 (e_crypto E) parent" "Append_proposal p \<in> set (sh_storage s')"
      then have "l = from_quorum_proposal (pr_data p)" using that by simp
      then show ?thesis using p by blast
    qed
  qed
qed

lemma collect_proposal_ok:
  assumes "inputs_ok E evs s acc"
  shows "wp (collect_proposal E view p l acc)
    (\<lambda>r s1 out. out = [] \<and> (\<forall>acc'. r = Ok acc' \<longrightarrow> inputs_ok E (insert (QuorumProposalValidated p l) evs) s1 acc')) s"
  unfolding collect_proposal_def Let_def
  by (intro wp_intros)
    (auto simp: wp_simps event_commitment_def agree_on_commitment_eq_Ok intro!: inputs_ok_agree [OF assms])

lemma collect_vote_event_ok:
  assumes "inputs_ok E evs s acc"
  shows "wp (collect_vote_event E view ev acc)
    (\<lambda>r s1 out. out = [] \<and> (\<forall>acc'. r = Ok acc' \<longrightarrow> inputs_ok E (insert ev evs) s1 acc')) s"
proof -
  consider (proposal) p l where "ev = QuorumProposalValidated p l" | (dac) cert where "ev = DaCertificateValidated cert"
    | (vid) share where "ev = VidShareValidated share"
    | (other) "event_commitment ev = None" "collect_vote_event E view ev acc = (ret acc :: ('a shared_scheme, vote_inputs) handler)"
    by (cases ev) (simp_all add: collect_vote_event_def event_commitment_def)
  then show ?thesis
  proof cases
    case proposal
    then show ?thesis using collect_proposal_ok [OF assms] by (simp add: collect_vote_event_def)
  next
    case dac
    then show ?thesis
      by (auto simp: collect_vote_event_def wp_simps event_commitment_def intro!: inputs_ok_agree [OF assms] dest: agree_on_commitment_eq_Ok [THEN iffD1])
  next
    case vid
    then show ?thesis
      by (auto simp: collect_vote_event_def wp_simps event_commitment_def agree_on_commitment_eq_Ok intro!: inputs_ok_agree [OF assms])
  next
    case other
    have "inputs_ok E (insert ev evs) s acc" using assms other(1) unfolding inputs_ok_def by simp blast
    then show ?thesis by (simp add: other(2) wp_simps)
  qed
qed

lemma collect_vote_events_ok:
  fixes s :: "'a shared_scheme"
  shows "inputs_ok E evs0 s acc \<Longrightarrow> wp (collect_vote_events E view evs acc)
     (\<lambda>r s1 out. out = [] \<and> (\<forall>acc'. r = Ok acc' \<longrightarrow> inputs_ok E (evs0 \<union> set evs) s1 acc')) s"
proof (induction evs arbitrary: evs0 s acc)
  case (Cons ev evs)
  show ?case unfolding collect_vote_events.simps
  proof (rule wp_andThenI [OF collect_vote_event_ok [OF Cons.prems, of view ev]])
    show "wp (collect_vote_events E view evs x) (\<lambda>r s2 out2. out @ out2 = [] \<and> (\<forall>acc'. r = Ok acc' \<longrightarrow> inputs_ok E (evs0 \<union> set (ev # evs)) s2 acc')) s1"
      if "out = [] \<and> (\<forall>acc'. Ok x = Ok acc' \<longrightarrow> inputs_ok E (insert ev evs0) s1 acc')" for x and s1 :: "'a shared_scheme" and out :: "effect list"
      using that Cons.IH [of "insert ev evs0" s1 x] by simp
  qed auto
qed (auto simp: wp_simps)

definition vote_backed :: "env \<Rightarrow> HotShotEvent set \<Rightarrow> 'a shared_scheme \<Rightarrow> 'a shared_scheme \<Rightarrow> QuorumVote2 \<Rightarrow> bool" where
  "vote_backed E evs s s1 vote \<longleftrightarrow>
     (\<exists>p parent share. QuorumProposalValidated p parent \<in> evs \<and> VidShareValidated share \<in> evs \<and>
        vote_for E s (v_view_number vote) (from_quorum_proposal (pr_data p)) vote \<and>
        l2_parent_commitment (from_quorum_proposal (pr_data p)) = commit_Leaf2 (e_crypto E) parent \<and>
        may_vote (sh_membership s) (sh_public_key s) (from_quorum_proposal (pr_data p)) (sh_epoch_height s) \<and>
        Append_proposal p \<in> set (sh_storage s1) \<and> Append_vid (convert_proposal share_into_share2 share) \<in> set (sh_storage s1) \<and>
        (\<forall>ev \<in> evs. event_commitment ev \<in> {None, Some (payload_commitment (q2_block_header (qw_proposal (pr_data p))))}))"

lemma vote_for_undisturbed: "undisturbed s s' \<Longrightarrow> vote_for E s' view leaf vote = vote_for E s view leaf vote"
  by (simp add: vote_for_def undisturbed_def)

lemma inputs_ok_backed:
  assumes "inputs_ok E evs s1 acc" and "vi_leaf acc = Some leaf" and "vi_vid_share acc = Some share" and "undisturbed s s1" and "undisturbed s1 s2"
    and "vote_for E s2 view leaf vote" and "may_vote (sh_membership s2) (sh_public_key s2) leaf (sh_epoch_height s2)"
    and "set (sh_storage s2) \<subseteq> set (sh_storage s3)" and "Append_vid (convert_proposal share_into_share2 share) \<in> set (sh_storage s3)"
  shows "v_view_number vote = view \<and> vote_backed E evs s s3 vote"
proof -
  obtain p parent where p: "QuorumProposalValidated p parent \<in> evs" "leaf = from_quorum_proposal (pr_data p)"
    "l2_parent_commitment leaf = commit_Leaf2 (e_crypto E) parent" "Append_proposal p \<in> set (sh_storage s1)"
    using assms(1,2) unfolding inputs_ok_def by blast
  have comm: "event_commitment ev \<in> {None, Some (payload_commitment (q2_block_header (qw_proposal (pr_data p))))}" if "ev \<in> evs" for ev
  proof (cases "event_commitment ev")
    case (Some cm)
    then have "vi_payload_commitment acc = Some cm" using that assms(1) by (simp add: inputs_ok_def)
    moreover have "vi_payload_commitment acc = Some (payload_commitment (q2_block_header (qw_proposal (pr_data p))))"
      using p(1) assms(1) by (auto simp: inputs_ok_def event_commitment_def dest!: bspec [of evs _ "QuorumProposalValidated p parent"])
    ultimately show ?thesis using Some by simp
  qed simp
  have us: "undisturbed s s2" using assms(4,5) by (rule ud.R_trans)
  have v: "vote_for E s view leaf vote" using assms(6) vote_for_undisturbed [OF us] by simp
  then have view: "v_view_number vote = view" by (simp add: vote_for_def)
  have "may_vote (sh_membership s) (sh_public_key s) leaf (sh_epoch_height s)" using assms(7) us by (simp add: undisturbed_def)
  moreover have "Append_proposal p \<in> set (sh_storage s3)" using p(4) assms(5,8) by (auto simp: undisturbed_def)
  moreover have "VidShareValidated share \<in> evs" using assms(1,3) by (simp add: inputs_ok_def)
  ultimately show ?thesis using p comm v view assms(9) unfolding vote_backed_def by blast
qed

text \<open>
  C1. Whatever the order of the collected events, a vote is sent only by a member of the committee, for the leaf
  of a validated proposal among them that extends its parent, when every certificate and share among
  them is for the proposal's payload, and after proposal and share have been stored.
\<close>

theorem vote_is_backed:
  "wp (handle_dep_result E view evs)
     (\<lambda>r s1 out. \<forall>vote. Internal (QuorumVoteSend vote) \<in> set out \<longrightarrow> v_view_number vote = view \<and> vote_backed E (set evs) s s1 vote) s"
proof -
  have init: "inputs_ok E {} s vote_inputs_default" by (simp add: inputs_ok_def vote_inputs_default_def)
  note collected = wp_conj [OF collect_vote_events_ok [OF init, of view evs] follows_wp [OF follows_collect_vote_events(2)]]
  show ?thesis unfolding handle_dep_result_def
  proof (rule wp_andThenI [OF collected], goal_cases)
    case (1 acc s1 out)
    then have acc: "inputs_ok E (set evs) s1 acc" and s1: "undisturbed s s1" and "out = []" by auto
    show ?case
    proof (intro wp_intros wp_seqI [OF wp_conj [OF emits_wp [OF update_shared_state_silent] follows_wp [OF follows_update_shared_state(2)]]], goal_cases)
      case (1 share leaf _ s2 out2)
      then have s2: "undisturbed s1 s2" by simp
      have share: "vi_vid_share acc = Some share" and leaf: "vi_leaf acc = Some leaf" using 1 by (auto simp: ok_or_eq_Ok)
      show ?case
      proof (rule wp_mono [OF wp_conj [OF submit_vote_sends follows_wp [OF follows_submit_vote(2)]]], intro allI impI)
        fix r s3 out3 vote
        assume sent: "(out3 = [] \<or> (\<exists>vote. out3 = [Internal (if False then ExtendedQuorumVoteSend vote else QuorumVoteSend vote)] \<and>
            vote_for E s2 view leaf vote \<and> may_vote (sh_membership s2) (sh_public_key s2) leaf (sh_epoch_height s2) \<and>
            Append_vid (convert_proposal share_into_share2 share) \<in> set (sh_storage s3))) \<and> undisturbed s2 s3"
          and vote: "Internal (QuorumVoteSend vote) \<in> set (out @ out2 @ Internal (ViewChange (view + 1)
            (option_epoch_from_block_number (l2_with_epoch leaf) (l2_height leaf) (sh_epoch_height s2))) # out3)"
        have "Internal (QuorumVoteSend vote) \<in> set out3" using vote 1 \<open>out = []\<close> by auto
        then show "v_view_number vote = view \<and> vote_backed E (set evs) s s3 vote"
          using sent inputs_ok_backed [OF acc leaf share s1 s2, of view vote s3] by (auto simp: undisturbed_def [of s2])
      qed
    qed (use \<open>out = []\<close> in auto)
  qed auto
qed

definition first_share :: "VidDisperseShare Proposal" where
  "first_share = \<lparr>pr_data = ShareV0 \<lparr>as_view_number = 1, as_payload_commitment = [], as_share = 0, as_common = 0, as_recipient_key = 1\<rparr>, pr_signature = 2\<rparr>"

definition first_dac :: DaCertificate2 where
  "first_dac = \<lparr>c_data = DaData2 [] None, c_vote_commitment = [], c_view_number = 1, c_signatures = None\<rparr>"

definition first_vote :: QuorumVote2 where
  "first_vote = \<lparr>v_signature = (1, 1), v_data = QuorumData2 (commit_Leaf2 inj_crypto (from_quorum_proposal (pr_data first_proposal))) None, v_view_number = 1\<rparr>"

definition first_events :: "HotShotEvent list" where
  "first_events = [QuorumProposalValidated first_proposal genesis_leaf, VidShareValidated first_share, DaCertificateValidated first_dac]"

lemma toy_env_simps:
  "e_crypto toy_env = inj_crypto" "e_versions toy_env = toy_versions" "e_store_ok toy_env st sop = True" "e_from_header toy_env h = 0"
  "e_validate_and_apply_header toy_env st0 l h vc ver view = Some (Suc st0, 0)"
  by (simp_all add: toy_env_def)

definition toy_node :: "'a shared_scheme \<Rightarrow> bool" where
  "toy_node s \<longleftrightarrow> sh_membership s = toy_membership \<and> sh_upgrade_lock s = UpgradeLock None \<and> sh_public_key s = 1 \<and> sh_private_key s = 1 \<and> sh_epoch_height s = 10"

lemma toy_node_simps:
  "toy_node s \<Longrightarrow> sh_membership s = toy_membership" "toy_node s \<Longrightarrow> sh_upgrade_lock s = UpgradeLock None"
  "toy_node s \<Longrightarrow> sh_public_key s = 1" "toy_node s \<Longrightarrow> sh_private_key s = 1" "toy_node s \<Longrightarrow> sh_epoch_height s = 10"
  "toy_node (s\<lparr>sh_consensus := c\<rparr>) = toy_node s" "toy_node (s\<lparr>sh_storage := st\<rparr>) = toy_node s"
  by (simp_all add: toy_node_def)

lemma toy_shared_node [simp]: "toy_node (toy_shared c)" "sh_consensus (toy_shared c) = c"
  by (simp_all add: toy_node_def toy_shared_def)

lemma first_proposal_simps:
  "q2_view_number (qw_proposal (pr_data first_proposal)) = 1" "q2_justify_qc (qw_proposal (pr_data first_proposal)) = toy_qc 0 (commit_Leaf2 inj_crypto genesis_leaf)"
  "payload_commitment (q2_block_header (qw_proposal (pr_data first_proposal))) = []" "l2_with_epoch (from_quorum_proposal (pr_data first_proposal)) = False"
  by (simp_all add: first_proposal_def toy_proposal_def toy_header_def from_quorum_proposal_def)

lemma toy_version:
  "version toy_versions (UpgradeLock None) v = Ok (Version 0 1)" "version_ge toy_versions (Version 0 1) (V_Epochs toy_versions) = False"
  by (simp_all add: version_def toy_versions_def word_le_nat_alt)

lemma first_events_collected:
  assumes "toy_node s"
  shows "collect_vote_events toy_env 1 first_events vote_inputs_default s =
     Some (Ok \<lparr>vi_payload_commitment = Some [], vi_leaf = Some (from_quorum_proposal (pr_data first_proposal)), vi_vid_share = Some first_share,
       vi_parent_view_number = Some 0\<rparr>, s\<lparr>sh_storage := sh_storage s @ [Append_proposal first_proposal]\<rparr>, [])"
  using assms
  by (simp add: first_events_def collect_vote_event_def collect_proposal_def exec_simps toy_env_simps toy_node_simps toy_version first_proposal_simps
      vote_inputs_default_def agree_on_commitment_def share_commitment_for_vote_def first_share_def first_dac_def Let_def)

lemma first_vote_sent:
  assumes s: "toy_node s" "sh_consensus s = genesis_consensus inj_crypto"
  shows "\<exists>s1. handle_dep_result toy_env 1 first_events s = Some (Ok (), s1, [Internal (ViewChange 2 None), Internal (QuorumVoteSend first_vote)])"
proof -
  let ?c = "genesis_consensus inj_crypto" and ?leaf = "from_quorum_proposal (pr_data first_proposal)"
  let ?s = "s\<lparr>sh_storage := sh_storage s @ [Append_proposal first_proposal]\<rparr>"
  have parent: "saved_leaves ?c (commit_Leaf2 inj_crypto genesis_leaf) = Some genesis_leaf"
    "bt_get 0 (validated_state_map ?c) = Some (LeafView (commit_Leaf2 inj_crypto genesis_leaf) 0 (Some 0) None)"
    by (simp_all add: genesis_consensus_def consensus_new_def bt_get_def)
  have "\<exists>s1. update_shared_state toy_env 1 ?leaf first_share (Some 0) ?s = Some (Ok (), s1, []) \<and> toy_node s1"
    using s by (simp add: update_shared_state_def exec_simps toy_env_simps toy_node_simps toy_version first_proposal_simps parent Let_def)
  then obtain s1 where upd: "update_shared_state toy_env 1 ?leaf first_share (Some 0) ?s = Some (Ok (), s1, [])" and s1: "toy_node s1" by blast
  have member: "may_vote toy_membership 1 ?leaf 10"
    by (simp add: may_vote_def first_proposal_simps option_epoch_from_block_number_def toy_membership_def static_membership_def static_new_def
        has_positive_def index_entries_def positive_entries_def peer_def bt_get_def Let_def)
  have sent: "submit_vote toy_env 1 ?leaf first_share False s1 =
      Some (Ok (), s1\<lparr>sh_storage := sh_storage s1 @ [Append_vid (convert_proposal share_into_share2 first_share)]\<rparr>, [Internal (QuorumVoteSend first_vote)])"
    using member s1
    by (simp add: submit_vote_def exec_simps toy_env_simps toy_node_simps create_signed_vote_def versioned_new_def toy_version first_proposal_simps
        option_epoch_from_block_number_def first_vote_def inj_crypto_def toy_crypto_def)
  show ?thesis
    by (simp add: handle_dep_result_def exec_known_value [of "collect_vote_events toy_env 1 first_events vote_inputs_default", OF first_events_collected [OF s(1)]]
        exec_simps exec_known [of "update_shared_state toy_env 1 ?leaf first_share (Some 0)", OF upd] sent first_proposal_simps option_epoch_from_block_number_def)
qed

text \<open>The first vote of a node.\<close>

theorem vote_is_backed_witness:
  "\<exists>s1 out. handle_dep_result toy_env 1 first_events (toy_shared (genesis_consensus inj_crypto)) = Some (Ok (), s1, out) \<and>
     vote_backed toy_env (set first_events) (toy_shared (genesis_consensus inj_crypto)) s1 first_vote"
  using first_vote_sent [of "toy_shared (genesis_consensus inj_crypto)"]
    vote_is_backed [of toy_env 1 first_events "toy_shared (genesis_consensus inj_crypto)", THEN wpD]
  by fastforce

end
