(* ===== verification/VoteRuns.thy ===== *)
theory VoteRuns
  imports QuorumVote
begin

text \<open>
  Runs of the voting task: events arrive, dependency tasks of past events complete, the computation of the
  random beacon ends, and other tasks change the shared consensus state, in any order.  The theory shows that the
  decided views a run announces increase, and that votes are cast for validated proposals only.
\<close>

section \<open>Handling a validated proposal\<close>

text \<open>What a traversal reports when it decides, without any assumption on the saved leaves.\<close>

definition decided_ok :: "Consensus \<Rightarrow> LeafChainTraversalOutcome \<Rightarrow> bool" where
  "decided_ok c res \<longleftrightarrow>
     (\<forall>v. new_decided_view_number res = Some v \<longrightarrow>
        new_decide_qc res \<noteq> None \<and> validated_state_map c \<noteq> [] \<and> (last_decided_view c < v \<longrightarrow> leaf_views res \<noteq> []))"

lemma state_map_nonempty: "fst (state_and_delta v c) = Some st \<Longrightarrow> validated_state_map c \<noteq> []"
  by (auto simp: state_and_delta_def bt_get_def)

lemma decide_2_ok:
  assumes "decide_from_proposal_2 ops hooks proposal c ex k we m = Some (res, m')"
  shows "decided_ok c res"
proof -
  note run = assms [unfolded decide_from_proposal_2_def Let_def]
  show ?thesis
  proof (cases "parent_leaf_info (from_quorum_proposal proposal) k c")
    case None
    then show ?thesis using run by (auto simp: decided_ok_def)
  next
    case (Some pi)
    note p = this
    show ?thesis
    proof (cases "parent_leaf_info (li_leaf pi) k c")
      case None
      then show ?thesis using run p by (auto simp: decided_ok_def)
    next
      case (Some gi)
      have map: "validated_state_map c \<noteq> []" using parent_leaf_info_eq_Some [OF p] state_map_nonempty by blast
      show ?thesis
      proof (cases "l2_view_number (li_leaf gi) + 1 = l2_view_number (li_leaf pi)")
        case False
        then show ?thesis using run p Some by (auto simp: decided_ok_def)
      next
        case True
        then obtain out where loop: "decide_loop ops c k ex (l2_view_number (li_leaf gi)) (Some gi)
            (outcome_default\<lparr>new_locked_view_number := Some (c_view_number (q2_justify_qc (qw_proposal proposal))),
              new_decide_qc := Some (l2_justify_qc (li_leaf pi)), new_decided_view_number := Some (l2_view_number (li_leaf gi))\<rparr>) {} = Some out"
          and res: "new_decided_view_number res = new_decided_view_number (fst out)" "new_decide_qc res = new_decide_qc (fst out)"
            "leaf_views res = leaf_views (fst out)"
          using run p Some by (auto simp: bind_eq_Some_conv case_prod_unfold split: if_splits)
        from decide_loop_spec [OF loop] obtain "is" where "leaf_views (fst out) = is" "linked_down c k (last_decided_view c) (Some gi) is"
            "new_decided_view_number (fst out) = Some (l2_view_number (li_leaf gi))" "new_decide_qc (fst out) = Some (l2_justify_qc (li_leaf pi))"
          by (auto simp: loop_spec_def)
        then show ?thesis using res map by (cases "is") (auto simp: decided_ok_def)
      qed
    qed
  qed
qed

lemma decide_3_ok:
  assumes "decide_from_proposal ops hooks proposal c ex k we m = Some (res, m')"
  shows "decided_ok c res"
proof (cases "Option.bind (bt_get (c_view_number (q2_justify_qc (qw_proposal proposal))) (validated_state_map c)) leaf_commitment")
  case None
  then show ?thesis
    using assms by (auto simp: decide_from_proposal_def visit_leaf_ancestors_def decided_ok_def Let_def split: option.splits bind_splits)
next
  case (Some cm1)
  let ?v = "q2_view_number (qw_proposal proposal)"
  obtain lv n r where run: "visit_loop c (Exclusive (last_decided_view c)) True (decide_visitor ops c k ex ?v) (?v, 0, outcome_default) cm1 = Some ((lv, n, res), r)"
    using assms Some
    by (auto simp: decide_from_proposal_def visit_leaf_ancestors_def Let_def bind_eq_Some_conv split: option.splits bind_splits)
  have "validated_state_map c \<noteq> []" using Some by (auto simp: bt_get_def)
  then show ?thesis using chain_visit_sound [OF run] by (auto simp: decided_ok_def three_chain_def)
qed

text \<open>The handlers of the random beacon change nothing but its tables and its task.\<close>

definition drb_step :: "QuorumVoteTaskState \<Rightarrow> QuorumVoteTaskState \<Rightarrow> bool" where
  "drb_step s s' \<longleftrightarrow>
     (\<exists>d h. s' = s\<lparr>sh_consensus := (sh_consensus s)\<lparr>drb_seeds_and_results := d\<rparr>, qv_drb_computation := h\<rparr>)"

lemma drb_step_eq: "s' = s\<lparr>sh_consensus := (sh_consensus s)\<lparr>drb_seeds_and_results := d\<rparr>, qv_drb_computation := h\<rparr> \<Longrightarrow> drb_step s s'"
  unfolding drb_step_def by blast

interpretation ds: state_preorder drb_step
proof
  show "drb_step s s" for s
    by (rule drb_step_eq [where d = "drb_seeds_and_results (sh_consensus s)" and h = "qv_drb_computation s"]) simp
  show "drb_step s u" if "drb_step s t" "drb_step t u" for s t u
    using that unfolding drb_step_def by (elim exE) (simp, blast)
qed

lemma drb_step_handle: "drb_step s (s\<lparr>qv_drb_computation := h\<rparr>)"
  by (rule drb_step_eq [where d = "drb_seeds_and_results (sh_consensus s)"]) simp

lemma drb_step_tables: "drb_step s (s\<lparr>sh_consensus := (sh_consensus s)\<lparr>drb_seeds_and_results := d\<rparr>\<rparr>)"
  by (rule drb_step_eq [where h = "qv_drb_computation s"]) simp

lemma follows_drb_step [follows_intros]: "follows drb_step (update_drb f)" "follows drb_step await_drb" "follows drb_step clear_drb"
  by (auto simp: follows_def wp_def update_drb_def with_consensus_def modify_def await_drb_def clear_drb_def drb_step_handle drb_step_tables ds.R_refl
      split: option.splits prod.splits drb_handle.splits)

lemma follows_join_drb_step [follows_intros]: "follows drb_step (join_drb e)"
  unfolding join_drb_def by (intro follows_intros)

lemma follows_drb_handlers [follows_intros]:
  "follows drb_step (store_and_get_computed_drb_result e)" "follows drb_step (verify_drb_result E qp)"
  "follows drb_step (start_drb_task qp)" "follows drb_step (store_drb_seed_and_result E l)"
  unfolding verify_drb_result_def start_drb_task_def settle_drb_task_def store_drb_seed_and_result_def store_and_get_computed_drb_result_def Let_def
  by (intro follows_intros ds.follows_modify drb_step_handle)+

text \<open>They do not panic while no handle has been awaited without a result.\<close>

definition drb_ok :: "QuorumVoteTaskState \<Rightarrow> bool" where
  "drb_ok s = (case qv_drb_computation s of Some (_, DrbFinished None) \<Rightarrow> False | Some (_, DrbJoined) \<Rightarrow> False | _ \<Rightarrow> True)"

lemma drb_ok_frame [simp]:
  "drb_ok (s\<lparr>sh_consensus := c\<rparr>) = drb_ok s" "drb_ok (s\<lparr>qv_drb_computation := None\<rparr>)" "drb_ok (s\<lparr>qv_drb_computation := Some (e, DrbRunning b)\<rparr>)"
  "drb_ok (s\<lparr>sh_membership := m\<rparr>) = drb_ok s" "drb_ok (s\<lparr>sh_upgrade_lock := l\<rparr>) = drb_ok s" "drb_ok (s\<lparr>sh_storage := st\<rparr>) = drb_ok s"
  by (simp_all add: drb_ok_def)

lemma calm_update_drb [calm_intros]: "calm drb_ok (update_drb f)" "calm drb_ok clear_drb"
  by (simp_all add: calm_def update_drb_def clear_drb_def wp_simps)

lemma join_drb_calm:
  assumes "drb_ok s" and "qv_drb_computation s = Some (e', h)" and "is_finished h"
  shows "wp (join_drb e) (\<lambda>r s1 out. r \<noteq> Panic \<and> drb_ok s1) s"
proof -
  obtain r where r: "h = DrbFinished (Some r)" using assms by (cases h) (auto simp: drb_ok_def split: option.splits)
  have "join_drb e s = seq (update_drb (insert_drb_result e r)) (seq clear_drb (ret (Some r))) (s\<lparr>qv_drb_computation := Some (e', DrbJoined)\<rparr>)"
    using assms(2) r by (simp add: join_drb_def andThen_def await_drb_def option.map_id)
  then show ?thesis by (simp add: wp_def update_drb_def clear_drb_def exec_simps)
qed

lemma calm_store_and_get [calm_intros]: "calm drb_ok (store_and_get_computed_drb_result e)"
  unfolding store_and_get_computed_drb_result_def calm_def
proof (intro allI impI wp_intros)
  fix s
  assume s: "drb_ok s"
  let ?known = "bt_get e (results (drb_seeds_and_results (sh_consensus s)))"
  show "wp (case ?known of Some r \<Rightarrow> ret r
      | None \<Rightarrow> andThen (check_state (\<lambda>s. opt_context (Error Warn [''DRB computation task doesn't exist.'']) (qv_drb_computation s)))
          (\<lambda>(task_epoch, computation). seq (guard (task_epoch = e) (Error Info [''DRB computation is not for the next epoch.'']))
            (seq (guard (is_finished computation) (Error Info [''DRB computation has not yet finished.'']))
              (andThen (join_drb e) (\<lambda>joined. case joined of None \<Rightarrow> fail (Error Warn [''Error in DRB calculation.'']) | Some r \<Rightarrow> ret r)))))
    (\<lambda>r s1 out. r \<noteq> Panic \<and> drb_ok s1) s"
  proof (cases ?known)
    case None
    show ?thesis unfolding None option.case
    proof (intro wp_intros, goal_cases)
      case (1 x)
      then obtain e' h where x: "x = (e', h)" "qv_drb_computation s = Some (e', h)" by (cases x) (auto simp: opt_context_eq_Ok)
      show ?case unfolding x prod.case
        by (intro wp_intros wp_andThenI [OF join_drb_calm [OF s x(2)]]) (auto simp: s wp_simps split: option.split)
    qed (auto simp: s opt_context_def ok_or_def split: option.splits)
  qed (simp add: s wp_simps)
qed

lemma calm_settle_drb_task [calm_intros]: "calm drb_ok (settle_drb_task e)"
  unfolding settle_drb_task_def calm_def
proof (intro allI impI wp_intros)
  fix s
  assume s: "drb_ok s"
  show "wp (case qv_drb_computation s of None \<Rightarrow> ret True
      | Some (task_epoch, handle) \<Rightarrow> if is_finished handle then seq (join_drb task_epoch) (ret True)
          else if task_epoch = e then ret False else seq clear_drb (ret True)) (\<lambda>r s1 out. r \<noteq> Panic \<and> drb_ok s1) s"
    by (cases "qv_drb_computation s")
      (auto simp: s wp_basic wp_if clear_drb_def split: prod.splits intro!: wp_seqI [OF join_drb_calm [OF s]] wp_intros)
qed

lemma calm_drb_handlers [calm_intros]:
  "calm drb_ok (verify_drb_result E qp)" "calm drb_ok (start_drb_task qp)" "calm drb_ok (store_drb_seed_and_result E l)"
  unfolding verify_drb_result_def start_drb_task_def store_drb_seed_and_result_def Let_def
  by (intro calm_intros calm_modify; simp add: opt_context_def ok_or_def split: option.split)+

text \<open>The views whose decision is announced to the application.\<close>

definition is_decide :: "effect \<Rightarrow> bool" where
  "is_decide x \<longleftrightarrow> (\<exists>v ls qc n. x = External (Event v (Decide ls qc n)))"

definition decided_views :: "effect list \<Rightarrow> u64 list" where
  "decided_views out = map (\<lambda>x. case x of External ev \<Rightarrow> event_view_number ev | _ \<Rightarrow> 0) (filter is_decide out)"

lemma decided_views_append [simp]: "decided_views (xs @ ys) = decided_views xs @ decided_views ys"
  by (simp add: decided_views_def)

lemma decided_views_simps [simp]:
  "decided_views [] = []" "decided_views (External (Event v (Decide ls qc n)) # out) = v # decided_views out"
  by (simp_all add: decided_views_def is_decide_def)

lemma no_decides: "\<forall>x \<in> set out. \<not> is_decide x \<Longrightarrow> decided_views out = []"
  by (simp add: decided_views_def filter_False)

definition decides :: "Consensus \<Rightarrow> Consensus \<Rightarrow> effect list \<Rightarrow> bool" where
  "decides c c' out \<longleftrightarrow>
     decided_views out = [] \<or> (\<exists>v. decided_views out = [v] \<and> last_decided_view c < v \<and> last_decided_view c' = v)"

lemma decides_silent: "\<forall>x \<in> set out. \<not> is_decide x \<Longrightarrow> decides c c' out"
  by (simp add: decides_def no_decides)

lemma emits_drb [emits_intros]: "emits P (update_drb f)" "emits P await_drb" "emits P clear_drb"
  by (auto simp: emits_def wp_def update_drb_def with_consensus_def modify_def await_drb_def clear_drb_def split: option.splits prod.splits drb_handle.splits)

lemma emits_drb_handlers [emits_intros]:
  "emits P (store_and_get_computed_drb_result e)" "emits P (verify_drb_result E qp)" "emits P (start_drb_task qp)" "emits P (store_drb_seed_and_result E l)"
  unfolding verify_drb_result_def start_drb_task_def settle_drb_task_def store_drb_seed_and_result_def store_and_get_computed_drb_result_def join_drb_def Let_def
  by (intro emits_intros)+

lemma record_decided_upgrade_wp:
  "wp (record_decided_upgrade E cert) (\<lambda>r s1 out. r = Ok () \<and> out = [] \<and> sh_consensus s1 = sh_consensus s \<and> qv_drb_computation s1 = qv_drb_computation s) s"
  by (auto simp: record_decided_upgrade_def wp_simps split: option.split)

text \<open>The part of the handler that records a decision.\<close>

lemma record_decide_wp:
  fixes s :: QuorumVoteTaskState
  assumes "drb_ok s" and "decided_ok (sh_consensus s) res" and "new_decided_view_number res = Some v"
  shows "wp (andThen (gets (\<lambda>s. last_decided_view (sh_consensus s))) (\<lambda>old.
       seq (try_consensus (collect_garbage old v))
      (seq (try_consensus (update_last_decided_view v))
      (seq (announce_decide v res)
           (on_cond epochs (if leaf_views res = [] then lift Panic else store_drb_seed_and_result E (li_leaf (last (leaf_views res)))))))))
    (\<lambda>r s1 out. r \<noteq> Panic \<and> drb_ok s1 \<and> decides (sh_consensus s) (sh_consensus s1) out) s"
proof -
  let ?c = "sh_consensus s"
  have ok: "new_decide_qc res \<noteq> None" "validated_state_map ?c \<noteq> []" "last_decided_view ?c < v \<Longrightarrow> leaf_views res \<noteq> []"
    using assms(2,3) by (simp_all add: decided_ok_def)
  then obtain qc where qc: "new_decide_qc res = Some qc" by auto
  obtain c1 where c1: "collect_garbage (last_decided_view ?c) v ?c = Ok c1" "last_decided_view c1 = last_decided_view ?c"
    using ok(2) by (cases "v \<le> last_decided_view ?c") (simp_all add: collect_garbage_def Let_def)
  show ?thesis
  proof (cases "last_decided_view ?c < v")
    case False
    then obtain e where "update_last_decided_view v c1 = Err e"
      using c1(2) by (auto simp: update_last_decided_view_def ensure_def)
    then show ?thesis using c1 assms(1) by (simp add: wp_simps decides_def)
  next
    case True
    obtain c2 where c2: "update_last_decided_view v c1 = Ok c2" "last_decided_view c2 = v"
      using True c1(2) by (auto simp: update_last_decided_view_def ensure_def)
    let ?h = "on_cond epochs (if leaf_views res = [] then lift Panic else store_drb_seed_and_result E (li_leaf (last (leaf_views res))))"
    have tail: "wp ?h (\<lambda>r s1 out. (r \<noteq> Panic \<and> drb_ok s1) \<and> drb_step (s\<lparr>sh_consensus := c2\<rparr>) s1 \<and> (\<forall>x \<in> set out. \<not> is_decide x)) (s\<lparr>sh_consensus := c2\<rparr>)"
      by (intro wp_conj calm_wp follows_wp emits_wp) (use ok(3) [OF True] assms(1) in \<open>simp_all add: calm_intros follows_intros emits_intros\<close>)
    have exec: "andThen (gets (\<lambda>s. last_decided_view (sh_consensus s))) (\<lambda>old. seq (try_consensus (collect_garbage old v))
        (seq (try_consensus (update_last_decided_view v)) (seq (announce_decide v res) ?h))) s =
      prepend [External (Event v (Decide (leaf_views res) qc (map_option (\<lambda>txns. word_of_nat (card txns)) (included_txns res))))] (?h (s\<lparr>sh_consensus := c2\<rparr>))"
      by (simp add: exec_simps c1 c2 announce_decide_def qc)
    show ?thesis
      using tail True c2(2) unfolding wp_def exec by (auto simp: prepend_def decides_def no_decides drb_step_def split: option.splits)
  qed
qed

lemma version_neq_Panic [simp]: "version V lock view \<noteq> Panic"
  by (auto simp: version_def split: UpgradeLock.split option.split)

lemma decided_ok_frame:
  "validated_state_map c' = validated_state_map c \<Longrightarrow> last_decided_view c' = last_decided_view c \<Longrightarrow> decided_ok c' res = decided_ok c res"
  by (simp add: decided_ok_def)

lemma decides_frame: "last_decided_view c = last_decided_view d \<Longrightarrow> decides c c' out = decides d c' out"
  by (simp add: decides_def)

lemma validated_decides:
  assumes "drb_ok s"
  shows "wp (handle_quorum_proposal_validated E p) (\<lambda>r s1 out. r \<noteq> Panic \<and> drb_ok s1 \<and> decides (sh_consensus s) (sh_consensus s1) out) s"
  unfolding handle_quorum_proposal_validated_def Let_def
proof (rule wp_andThen_checkI, goal_cases)
  case (1 ver)
  let ?epochs = "version_ge (e_versions E) ver (V_Epochs (e_versions E))"
  have drb: "wp (on_cond ?epochs (seq (verify_drb_result E (qw_proposal p)) (start_drb_task (qw_proposal p))))
      (\<lambda>r s1 out. (r \<noteq> Panic \<and> drb_ok s1) \<and> drb_step s s1 \<and> (\<forall>x \<in> set out. False)) s"
    by (intro wp_conj calm_wp follows_wp emits_wp) (simp_all add: calm_intros follows_intros emits_intros assms)
  show ?case
  proof (rule wp_seqI [OF drb], goal_cases)
    case (1 _ s1 out1)
    then have s1: "drb_ok s1" "last_decided_view (sh_consensus s1) = last_decided_view (sh_consensus s)" and out1: "out1 = []"
      by (auto simp: drb_step_def)
    show ?case
    proof (intro wp_intros, goal_cases)
      case (1 x)
      obtain res m where x: "x = (res, m)" by fastforce
      have res: "decided_ok (sh_consensus s1) res" using 1 decide_2_ok decide_3_ok unfolding x by (auto split: if_splits)
      show ?case unfolding x prod.case
      proof (intro wp_intros wp_seqI [OF record_decided_upgrade_wp], goal_cases)
        case (1 _ s2 out2)
        then have s2: "drb_ok s2" "sh_consensus s2 = sh_consensus s1" "out2 = []" using s1(1) by (simp_all add: drb_ok_def)
        define h where "h = (case new_decided_view_number res of None \<Rightarrow> ret () | Some v \<Rightarrow>
          andThen (gets (\<lambda>s. last_decided_view (sh_consensus s))) (\<lambda>old. seq (try_consensus (collect_garbage old v))
            (seq (try_consensus (update_last_decided_view v)) (seq (announce_decide v res)
              (on_cond ?epochs (if leaf_views res = [] then lift Panic else store_drb_seed_and_result E (li_leaf (last (leaf_views res)))))))))"
        have h: "wp h (\<lambda>r s3 out. r \<noteq> Panic \<and> drb_ok s3 \<and> decides (sh_consensus s) (sh_consensus s3) out) s'"
          if "drb_ok s'" "validated_state_map (sh_consensus s') = validated_state_map (sh_consensus s1)"
            "last_decided_view (sh_consensus s') = last_decided_view (sh_consensus s1)" for s'
          using record_decide_wp [OF that(1), of res _ ?epochs E] res that decided_ok_frame [OF that(2,3)] decides_frame [of "sh_consensus s'" "sh_consensus s"] s1(2)
          by (cases "new_decided_view_number res") (simp_all add: h_def wp_simps decides_def)
        show ?case unfolding h_def [symmetric] s2(3) out1 append_Nil
          using h [of s2] h [of "s2\<lparr>sh_consensus := c\<rparr>" for c] s2 s1
          by (cases "new_locked_view_number res")
            (auto simp: wp_seq wp_basic wp_try_consensus update_eq_Ok decides_def split: result.split)
      qed auto
    qed
  qed (use assms in \<open>auto simp: decides_def\<close>)
qed (use assms in \<open>simp_all add: decides_def\<close>)

section \<open>Runs\<close>

datatype qv_step = Deliver HotShotEvent | Complete u64 "HotShotEvent list" | FinishDrb | Interfere cons_op

definition observe_all :: "HotShotEvent \<Rightarrow> QuorumVoteTaskState \<Rightarrow> QuorumVoteTaskState" where
  "observe_all ev s = s\<lparr>qv_vote_dependencies := map (\<lambda>(v, t). (v, vote_task_observe ev t)) (qv_vote_dependencies s)\<rparr>"

text \<open>
  An event reaches the task and its dependency tasks; a dependency task that has all its results handles
  them in some order, once; the random beacon's computation ends; another task changes the consensus state.
\<close>

fun qv_run_step :: "env \<Rightarrow> qv_step \<Rightarrow> QuorumVoteTaskState \<Rightarrow> (QuorumVoteTaskState \<times> effect list) option" where
  "qv_run_step E (Deliver ev) s = perform (qv_handle E ev) (observe_all ev s)"
| "qv_run_step E (Complete view res) s =
     (case bt_get view (qv_vote_dependencies s) of
        None \<Rightarrow> None
      | Some t \<Rightarrow>
          if \<not> vt_finished t \<and> vote_task_result t = Some (mset res)
          then perform (handle_dep_result E view res)
                 (s\<lparr>qv_vote_dependencies := bt_insert view (t\<lparr>vt_finished := True\<rparr>) (qv_vote_dependencies s)\<rparr>)
          else None)"
| "qv_run_step E FinishDrb s = Some (drb_task_step E s, [])"
| "qv_run_step E (Interfere a) s = map_option (\<lambda>c. (s\<lparr>sh_consensus := c\<rparr>, [])) (cons_apply (e_crypto E) a (sh_consensus s))"

section \<open>Decisions\<close>

definition digest_32 :: "env \<Rightarrow> bool" where
  "digest_32 E \<longleftrightarrow> (\<forall>b. length (e_sha256 E b) = 32)"

lemma drb_ok_step: "digest_32 E \<Longrightarrow> drb_ok s \<Longrightarrow> drb_ok (drb_task_step E s)"
  by (auto simp: drb_ok_def drb_task_step_def digest_32_def compute_drb_result_def DIFFICULTY_LEVEL_def eval_nat_numeral Let_def
      split: option.splits prod.splits drb_handle.splits)

lemma drb_keeps_consensus [simp]: "sh_consensus (drb_task_step E s) = sh_consensus s"
  by (simp add: drb_task_step_def split: option.split prod.split drb_handle.split)

text \<open>The other handlers announce no decision and leave the beacon's task alone.\<close>

definition drb_same :: "QuorumVoteTaskState \<Rightarrow> QuorumVoteTaskState \<Rightarrow> bool" where
  "drb_same s s' \<longleftrightarrow> qv_drb_computation s' = qv_drb_computation s"

interpretation sd: state_preorder drb_same
  by standard (simp_all add: drb_same_def)

lemma same_task_fields:
  assumes "same_task s s'"
  shows "qv_latest_voted_view s' = qv_latest_voted_view s" "qv_vote_dependencies s' = qv_vote_dependencies s" "qv_drb_computation s' = qv_drb_computation s"
  using assms by (cases s; cases s'; simp add: same_task_def)+

lemma same_task_drb_same: "follows same_task h \<Longrightarrow> follows drb_same h"
  by (erule follows_weaken) (simp add: drb_same_def same_task_fields)

lemma follows_drb_same_modify [follows_intros]: "follows drb_same (modify (create_dependency_task_if_new v ev))"
  by (simp add: follows_def wp_simps drb_same_def create_dependency_task_if_new_def)

lemma follows_drb_same_votes [follows_intros]:
  "follows drb_same (handle_dep_result E view res)" "follows drb_same (handle_eqc_voting E p l)"
  "follows drb_same (qv_dac_recv E cert)" "follows drb_same (qv_vid_share_recv E sender share)"
proof -
  note shared = follows_same_task [THEN same_task_drb_same]
  show "follows drb_same (handle_dep_result E view res)" "follows drb_same (handle_eqc_voting E p l)"
    by (intro same_task_drb_same follows_handle_dep_result follows_handle_eqc_voting)+
  show "follows drb_same (qv_dac_recv E cert)" "follows drb_same (qv_vid_share_recv E sender share)"
    unfolding qv_dac_recv_def qv_vid_share_recv_def Let_def by (intro follows_intros shared)+
qed

lemma no_decide_events [simp]: "\<not> is_decide (Internal ev)" "\<not> is_decide (Spawn n v)"
  by (simp_all add: is_decide_def)

lemma emits_no_decide [emits_intros]:
  "emits (\<lambda>x. \<not> is_decide x) (update_shared_state E view leaf share pv)" "emits (\<lambda>x. \<not> is_decide x) (submit_vote E view leaf share ext)"
  "emits (\<lambda>x. \<not> is_decide x) (collect_proposal E view p l acc)"
  unfolding update_shared_state_def fetch_proposal_def submit_vote_def collect_proposal_def Let_def by (intro emits_intros no_decide_events)+

lemma emits_no_decide_event [emits_intros]: "emits (\<lambda>x. \<not> is_decide x) (collect_vote_event E view ev acc)"
  unfolding collect_vote_event_def by (cases ev) (simp_all add: emits_intros)

lemma emits_no_decide_events [emits_intros]: "emits (\<lambda>x. \<not> is_decide x) (collect_vote_events E view evs acc)"
  by (induction evs arbitrary: acc) (auto intro!: emits_intros)

lemma emits_no_decide_votes [emits_intros]:
  "emits (\<lambda>x. \<not> is_decide x) (handle_dep_result E view res)" "emits (\<lambda>x. \<not> is_decide x) (handle_eqc_voting E p l)"
  "emits (\<lambda>x. \<not> is_decide x) (qv_dac_recv E cert)" "emits (\<lambda>x. \<not> is_decide x) (qv_vid_share_recv E sender share)"
  unfolding handle_dep_result_def handle_eqc_voting_def qv_dac_recv_def qv_vid_share_recv_def Let_def by (intro emits_intros no_decide_events)+

definition decides_upward :: "Consensus \<Rightarrow> Consensus \<Rightarrow> effect list \<Rightarrow> bool" where
  "decides_upward c c' out \<longleftrightarrow> last_decided_view c \<le> last_decided_view c' \<and> sorted_wrt (<) (decided_views out) \<and>
     (\<forall>v \<in> set (decided_views out). last_decided_view c < v \<and> v \<le> last_decided_view c')"

lemma decides_upward_trans:
  assumes "decides_upward a b out1" and "decides_upward b c out2"
  shows "decides_upward a c (out1 @ out2)"
  using assms unfolding decides_upward_def by (fastforce simp: sorted_wrt_append)

lemma decides_upward_silent:
  "consensus_refines cr s s' \<Longrightarrow> \<forall>x \<in> set out. \<not> is_decide x \<Longrightarrow> decides_upward (sh_consensus s) (sh_consensus s') out"
  using consensus_refines_forward [of cr s s'] by (auto simp: decides_upward_def no_decides forward_def)

lemma silent_decides_upward:
  assumes "follows (consensus_refines cr) h" and "follows drb_same h" and "emits (\<lambda>x. \<not> is_decide x) h" and "drb_ok s"
  shows "wp h (\<lambda>r s1 out. drb_ok s1 \<and> decides_upward (sh_consensus s) (sh_consensus s1) out) s"
  by (rule wp_mono [OF wp_conj [OF follows_wp [OF assms(1)] wp_conj [OF follows_wp [OF assms(2)] emits_wp [OF assms(3)]]]])
    (use assms(4) in \<open>auto simp: drb_same_def drb_ok_def decides_upward_silent\<close>)

lemma qv_proposal_validated_decides:
  assumes "drb_ok s"
  shows "wp (qv_proposal_validated E p l) (\<lambda>r s1 out. drb_ok s1 \<and> decides_upward (sh_consensus s) (sh_consensus s1) out) s"
proof -
  let ?h = "attempt (handle_quorum_proposal_validated E (pr_data p))"
  have first: "wp ?h (\<lambda>r s1 out. drb_ok s1 \<and> decides_upward (sh_consensus s) (sh_consensus s1) out) s"
    unfolding wp_attempt
    by (rule wp_mono [OF wp_conj [OF validated_decides [OF assms] follows_wp [OF follows_handle_quorum_proposal_validated]]])
      (auto simp: decides_def decides_upward_def forward_def dest!: consensus_refines_forward)
  show ?thesis unfolding qv_proposal_validated_def Let_def
  proof (rule wp_seqI [OF first], goal_cases)
    case (1 _ s1 out1)
    show ?case
      by (rule wp_mono [OF silent_decides_upward [where cr = "e_crypto E"]])
        (use 1 in \<open>auto intro!: follows_intros cr.follows_modify consensus_refines_same create_dependency_task_frame emits_intros decides_upward_trans\<close>)
  qed simp_all
qed

lemma qv_handle_decides:
  assumes "drb_ok s"
  shows "wp (qv_handle E ev) (\<lambda>r s1 out. drb_ok s1 \<and> decides_upward (sh_consensus s) (sh_consensus s1) out) s"
proof -
  have quiet: "wp (modify g) (\<lambda>r s1 out. drb_ok s1 \<and> decides_upward (sh_consensus s) (sh_consensus s1) out) s"
      "wp (ret x) (\<lambda>r s1 out. drb_ok s1 \<and> decides_upward (sh_consensus s) (sh_consensus s1) out) s"
    if "\<And>s. sh_consensus (g s) = sh_consensus s \<and> qv_drb_computation (g s) = qv_drb_computation s" for g and x :: unit
    using that assms by (simp_all add: wp_simps drb_ok_def decides_upward_def)
  show ?thesis unfolding qv_handle_def
    by (cases ev)
      (simp_all add: quiet [where g = id] qv_proposal_validated_decides assms cancel_old_votes_def update_latest_voted_view_def quiet
        silent_decides_upward [where cr = "e_crypto E"] follows_intros emits_intros)
qed

lemma qv_run_step_decides:
  assumes "digest_32 E" and "drb_ok s" and "qv_run_step E a s = Some (s1, out)"
  shows "drb_ok s1 \<and> decides_upward (sh_consensus s) (sh_consensus s1) out"
proof (cases a)
  case (Deliver ev)
  have "drb_ok (observe_all ev s)" using assms(2) by (simp add: observe_all_def drb_ok_def)
  then show ?thesis
    using assms(3) perform_wp [OF _ qv_handle_decides [of "observe_all ev s" E ev]] by (auto simp: Deliver observe_all_def)
next
  case (Complete view res)
  have ok: "drb_ok (s\<lparr>qv_vote_dependencies := d\<rparr>)" for d using assms(2) by (simp add: drb_ok_def)
  note step = silent_decides_upward [OF follows_handle_dep_result(1) follows_drb_same_votes(1) emits_no_decide_votes(1) ok, of E view res]
  show ?thesis using assms(3) perform_wp [OF _ step] by (fastforce simp: Complete split: option.splits if_splits)
next
  case FinishDrb
  then show ?thesis using assms drb_ok_step by (auto simp: decides_upward_def)
next
  case (Interfere a')
  then show ?thesis using assms(2,3) cons_apply_forward by (fastforce simp: decides_upward_def forward_def)
qed

text \<open>
  C8. In every run of the voting task, whatever other tasks do to the consensus state in between, the views
  announced as decided strictly increase, and lie above the view decided when the run began: no view is
  announced twice, and none out of order.
\<close>

theorem decisions_increase:
  assumes "digest_32 E" and "drb_ok s" and "run_effects (qv_run_step E) steps s = Some (s', out)"
  shows "sorted_wrt (<) (decided_views out) \<and>
    (\<forall>v \<in> set (decided_views out). last_decided_view (sh_consensus s) < v \<and> v \<le> last_decided_view (sh_consensus s'))"
proof -
  have "drb_ok s \<Longrightarrow> run_effects (qv_run_step E) steps s = Some (s', out) \<Longrightarrow> decides_upward (sh_consensus s) (sh_consensus s') out"
  proof (induction steps arbitrary: s out)
    case (Cons a as)
    then obtain s1 out1 out2 where a: "qv_run_step E a s = Some (s1, out1)" and as: "run_effects (qv_run_step E) as s1 = Some (s', out2)"
        and out: "out = out1 @ out2" by (auto split: option.splits)
    note step = qv_run_step_decides [OF assms(1) Cons.prems(1) a]
    show ?case unfolding out by (rule decides_upward_trans) (use step Cons.IH [OF _ as] in auto)
  qed (simp add: decides_upward_def)
  with assms(2,3) show ?thesis by (simp add: decides_upward_def)
qed

text \<open>A node that knows three leaves at consecutive views decides the oldest when a proposal extends them.\<close>

definition toy_vote_state :: "Consensus \<Rightarrow> QuorumVoteTaskState" where
  "toy_vote_state c = shared.extend ((toy_shared c)\<lparr>sh_public_key := 2\<rparr>) \<lparr>qv_latest_voted_view = 3, qv_vote_dependencies = [], qv_drb_computation = None\<rparr>"

definition fourth_proposal :: "QuorumProposalWrapper Proposal" where
  "fourth_proposal = \<lparr>pr_data = toy_proposal 4 (toy_qc 3 (commit_Leaf2 inj_crypto (chain_leaf inj_crypto 3))), pr_signature = 1\<rparr>"

lemma no_upgrade_noted:
  assumes "visit_loop c t fin (decide_visitor ops c k ex v) (view, 0, outcome_default) cm = Some ((lv, n, res), r)"
    and "\<And>cm l. saved_leaves c cm = Some l \<Longrightarrow> l2_upgrade_certificate l = None"
  shows "decided_upgrade_cert res = None"
proof -
  let ?I = "\<lambda>(lv, n, res). decided_upgrade_cert res = None"
  have step: "?I s1" if "?I s" "saved_leaves c cm = Some l" "decide_visitor ops c k ex v s l st d = (s1, b)" for s cm l st d s1 b
  proof -
    have "note_upgrade_cert ex v l r = r" for r using assms(2) [OF that(2)] by (simp add: note_upgrade_cert_def)
    then show ?thesis using that(1,3)
      by (auto simp: decide_visitor_def extend_chain_def record_decided_def Let_def split: if_splits prod.splits)
  qed
  have "?I (lv, n, res)"
    by (rule visit_loop_rule [OF assms(1), where I = "\<lambda>s cm. ?I s"]) (simp add: outcome_default_def, (erule (2) step)+)
  then show ?thesis by simp
qed

lemma chain_leaf_upgrade: "l2_upgrade_certificate (chain_leaf cr n) = None" "l2_height (chain_leaf cr n) = word_of_nat n"
  by (cases n; simp add: chain_leaf.simps genesis_leaf_def)+

lemma fourth_decides:
  "\<exists>res. decide_from_proposal toy_ops default_hooks (pr_data fourth_proposal) (chain_consensus inj_crypto 3) None k False m = Some (res, m) \<and>
     new_decided_view_number res = Some 1 \<and> new_locked_view_number res = Some 2 \<and> new_decide_qc res \<noteq> None \<and> decided_upgrade_cert res = None"
proof -
  let ?c = "chain_consensus inj_crypto 3" and ?cm = "commit_Leaf2 inj_crypto (chain_leaf inj_crypto 3)"
  obtain lv n res r where run: "visit_loop ?c (Exclusive (last_decided_view ?c)) True (decide_visitor toy_ops ?c k None 4) (4, 0, outcome_default) ?cm = Some ((lv, n, res), r)"
    using visit_loop_ends [OF chain_older(1) [OF toy_chain_leaves(5)]] by (metis surj_pair)
  from chain_visit_complete [OF run toy_chain_leaves(1)] have dec: "new_decided_view_number res = Some 1" by simp
  with chain_visit_sound [OF run] have "new_locked_view_number res = Some 2 \<and> new_decide_qc res \<noteq> None"
    by (auto simp: three_chain_def)
  moreover have "decided_upgrade_cert res = None"
    by (rule no_upgrade_noted [OF run]) (use chain_saved(2) [OF toy_chain_leaves(5)] chain_leaf_upgrade(1) in force)
  ultimately show ?thesis
    using run dec toy_chain_leaves(2)
    by (auto simp: decide_from_proposal_def visit_leaf_ancestors_def fourth_proposal_def toy_proposal_def toy_qc_def Let_def)
qed

lemma toy_vote_state_simps:
  "sh_consensus (toy_vote_state c) = c" "sh_membership (toy_vote_state c) = toy_membership" "sh_upgrade_lock (toy_vote_state c) = UpgradeLock None"
  "sh_storage (toy_vote_state c) = []" "sh_public_key (toy_vote_state c) = 2" "sh_epoch_height (toy_vote_state c) = 10"
  "qv_latest_voted_view (toy_vote_state c) = 3" "qv_vote_dependencies (toy_vote_state c) = []" "qv_drb_computation (toy_vote_state c) = None"
  "(toy_vote_state c)\<lparr>sh_consensus := d\<rparr> = toy_vote_state d" "(toy_vote_state c)\<lparr>sh_membership := toy_membership\<rparr> = toy_vote_state c"
  by (simp_all add: toy_vote_state_def toy_shared_def shared.defs)

lemma collect_garbage_leaves:
  "collect_garbage x y c = Ok c' \<Longrightarrow> saved_leaves c' cm = Some l \<Longrightarrow> saved_leaves c cm = Some l"
  "collect_garbage x y c = Ok c' \<Longrightarrow> epoch_height c' = epoch_height c"
  by (auto simp: collect_garbage_def fold_remove Let_def split: if_splits)

lemma fourth_handled:
  "\<exists>c ls qc n. handle_quorum_proposal_validated toy_env (pr_data fourth_proposal) (toy_vote_state (chain_consensus inj_crypto 3)) =
     Some (Ok (), toy_vote_state c, [External (Event 1 (Decide ls qc n))]) \<and>
     (\<forall>cm l. saved_leaves c cm = Some l \<longrightarrow> saved_leaves (chain_consensus inj_crypto 3) cm = Some l) \<and> epoch_height c = 10"
proof -
  let ?c = "chain_consensus inj_crypto 3"
  obtain res qc where res: "decide_from_proposal toy_ops default_hooks (pr_data fourth_proposal) ?c None 2 False toy_membership = Some (res, toy_membership)"
      "new_decided_view_number res = Some 1" "new_locked_view_number res = Some 2" "new_decide_qc res = Some qc" "decided_upgrade_cert res = None"
    using fourth_decides [of 2 toy_membership] by auto
  obtain c1 where c1: "update_locked_view 2 ?c = Ok c1" "validated_state_map c1 = validated_state_map ?c" "last_decided_view c1 = 0"
      "saved_leaves c1 = saved_leaves ?c" "epoch_height c1 = epoch_height ?c"
    by (simp add: update_locked_view_def toy_chain_leaves)
  have "validated_state_map c1 \<noteq> []" using toy_chain_leaves(2) c1(2) by (auto simp: bt_get_def)
  then obtain c2 where c2: "collect_garbage 0 1 c1 = Ok c2" "last_decided_view c2 = 0"
    using c1 by (simp add: collect_garbage_def Let_def)
  obtain c3 where c3: "update_last_decided_view 1 c2 = Ok c3" "saved_leaves c3 = saved_leaves c2" "epoch_height c3 = epoch_height c2"
    using c2 by (simp add: update_last_decided_view_def)
  have pv: "q2_view_number (qw_proposal (pr_data fourth_proposal)) = 4" by (simp add: fourth_proposal_def toy_proposal_def)
  have env: "e_ops toy_env = toy_ops" "e_hooks toy_env = default_hooks" by (simp_all add: toy_env_def)
  have "handle_quorum_proposal_validated toy_env (pr_data fourth_proposal) (toy_vote_state ?c) =
      Some (Ok (), toy_vote_state c3, [External (Event 1 (Decide (leaf_views res) qc (map_option (\<lambda>txns. word_of_nat (card txns)) (included_txns res))))])"
    by (simp add: handle_quorum_proposal_validated_def exec_simps toy_vote_state_simps toy_version toy_env_simps env on_cond_def res c1 c2 c3 pv
        record_decided_upgrade_def announce_decide_def Let_def)
  moreover have "saved_leaves ?c cm = Some l" if "saved_leaves c3 cm = Some l" for cm l
    using that collect_garbage_leaves(1) [OF c2(1)] c1(4) c3(2) by simp
  moreover have "epoch_height c3 = 10"
    using collect_garbage_leaves(2) [OF c2(1)] c1(5) c3(3) by (simp add: chain_consensus_def genesis_consensus_def consensus_new_def)
  ultimately show ?thesis by blast
qed

theorem decisions_increase_witness:
  "\<exists>s' out. run_effects (qv_run_step toy_env) [Deliver (QuorumProposalValidated fourth_proposal (chain_leaf inj_crypto 3))]
     (toy_vote_state (chain_consensus inj_crypto 3)) = Some (s', out) \<and> decided_views out = [1] \<and> 1 \<le> last_decided_view (sh_consensus s')"
proof -
  let ?s = "toy_vote_state (chain_consensus inj_crypto 3)" and ?ev = "QuorumProposalValidated fourth_proposal (chain_leaf inj_crypto 3)"
  obtain c ls qc n where handled: "handle_quorum_proposal_validated toy_env (pr_data fourth_proposal) ?s = Some (Ok (), toy_vote_state c, [External (Event 1 (Decide ls qc n))])"
    and c: "\<And>cm l. saved_leaves c cm = Some l \<Longrightarrow> saved_leaves (chain_consensus inj_crypto 3) cm = Some l" "epoch_height c = 10"
    using fourth_handled by auto
  have "\<not> is_leaf_for_last_block cm c" for cm
  proof (cases "saved_leaves c cm")
    case (Some l)
    then obtain i where "i \<le> 3" "l = chain_leaf inj_crypto i" using c(1) chain_saved(2) [OF toy_chain_leaves(5)] by blast
    then have "l2_height l \<in> {0, 1, 2, 3}" using chain_leaf_upgrade(2) [of inj_crypto i] by (auto simp: le_Suc_eq eval_nat_numeral)
    then have "\<not> is_last_block_in_epoch (l2_height l) 10" unfolding is_last_block_in_epoch_def u64_mod_zero_unat by auto
    then show ?thesis using Some c(2) by (simp add: is_leaf_for_last_block_def)
  qed (simp add: is_leaf_for_last_block_def)
  then have eqc: "is_leaf_forming_eqc cm c = Some False" for cm by (simp add: is_leaf_forming_eqc_def)
  have tried: "attempt (handle_quorum_proposal_validated toy_env (pr_data fourth_proposal)) ?s = Some (Ok (Some ()), toy_vote_state c, [External (Event 1 (Decide ls qc n))])"
    by (simp add: attempt_def handled)
  have pv: "q2_view_number (qw_proposal (pr_data fourth_proposal)) = 4" by (simp add: fourth_proposal_def toy_proposal_def)
  have obs: "observe_all ?ev ?s = ?s" by (simp add: observe_all_def toy_vote_state_simps toy_vote_state_def shared.defs)
  have less: "(3 :: u64) < 4" by (simp add: word_less_nat_alt)
  have "qv_handle toy_env ?ev ?s = Some (Ok (), create_dependency_task_if_new 4 ?ev (toy_vote_state c), [External (Event 1 (Decide ls qc n))])"
    by (simp add: qv_handle_def qv_proposal_validated_def Let_def pv less
        exec_known [of "attempt (handle_quorum_proposal_validated toy_env (pr_data fourth_proposal))", OF tried]
        exec_simps toy_vote_state_simps toy_version toy_env_simps eqc modify_def)
  then have "\<exists>s' out. run_effects (qv_run_step toy_env) [Deliver ?ev] ?s = Some (s', out) \<and> decided_views out = [1]"
    by (simp add: obs perform_def)
  then obtain s' out where run: "run_effects (qv_run_step toy_env) [Deliver ?ev] ?s = Some (s', out)" and out: "decided_views out = [1]" by blast
  have "digest_32 toy_env" "drb_ok ?s" by (simp_all add: digest_32_def toy_env_def drb_ok_def toy_vote_state_simps)
  from decisions_increase [OF this run] run out show ?thesis by auto
qed

section \<open>Votes\<close>

definition vote_of :: "effect \<Rightarrow> QuorumVote2 option" where
  "vote_of x = (case x of Internal (QuorumVoteSend v) \<Rightarrow> Some v | Internal (ExtendedQuorumVoteSend v) \<Rightarrow> Some v | _ \<Rightarrow> None)"

text \<open>The vote is for the leaf of a proposal among the events, in its view, and the leaf extends the proposal's parent.\<close>

definition votes_for_event :: "env \<Rightarrow> HotShotEvent set \<Rightarrow> effect \<Rightarrow> bool" where
  "votes_for_event E D x \<longleftrightarrow>
     (\<forall>v. vote_of x = Some v \<longrightarrow>
        (\<exists>p parent. QuorumProposalValidated p parent \<in> D \<and> q2_view_number (qw_proposal (pr_data p)) = v_view_number v \<and>
           leaf_commit (v_data v) = commit_Leaf2 (e_crypto E) (from_quorum_proposal (pr_data p)) \<and>
           l2_parent_commitment (from_quorum_proposal (pr_data p)) = commit_Leaf2 (e_crypto E) parent))"

lemma votes_for_eventI:
  "vote_of x = Some v \<Longrightarrow> QuorumProposalValidated p parent \<in> D \<Longrightarrow> v_view_number v = q2_view_number (qw_proposal (pr_data p)) \<Longrightarrow>
   leaf_commit (v_data v) = commit_Leaf2 (e_crypto E) (from_quorum_proposal (pr_data p)) \<Longrightarrow>
   l2_parent_commitment (from_quorum_proposal (pr_data p)) = commit_Leaf2 (e_crypto E) parent \<Longrightarrow> votes_for_event E D x"
  unfolding votes_for_event_def by (metis option.inject)

lemma vote_of_None: "\<not> is_vote x \<Longrightarrow> vote_of x = None"
  by (auto simp: vote_of_def is_vote_def split: effect.splits HotShotEvent.splits)

lemma not_vote_ok: "\<not> is_vote x \<Longrightarrow> votes_for_event E D x"
  by (simp add: votes_for_event_def vote_of_None)

lemma submit_vote_emits:
  "emits (\<lambda>x. \<exists>v. vote_of x = Some v \<and> v_view_number v = view \<and> leaf_commit (v_data v) = commit_Leaf2 (e_crypto E) leaf) (submit_vote E view leaf share ext)"
  unfolding emits_def
proof
  fix s :: "'a shared_scheme"
  show "wp (submit_vote E view leaf share ext) (\<lambda>r s1 out. \<forall>x \<in> set out. \<exists>v. vote_of x = Some v \<and> v_view_number v = view \<and>
      leaf_commit (v_data v) = commit_Leaf2 (e_crypto E) leaf) s"
    by (rule wp_mono [OF submit_vote_sends]) (auto simp: vote_for_def vote_of_def)
qed

lemma eqc_votes:
  assumes "QuorumProposalValidated p l \<in> D"
  shows "emits (votes_for_event E D) (handle_eqc_voting E p l)"
proof -
  let ?leaf = "from_quorum_proposal (pr_data p)" and ?view = "q2_view_number (qw_proposal (pr_data p))"
  have quiet: "emits (votes_for_event E D) (update_shared_state E view leaf share pv)" for view leaf share pv
    using update_shared_state_silent by (rule emits_mono) (rule not_vote_ok)
  show ?thesis
  proof (cases "l2_parent_commitment ?leaf = commit_Leaf2 (e_crypto E) l")
    case True
    have "emits (votes_for_event E D) (submit_vote E ?view ?leaf share ext)" for share ext
      using submit_vote_emits by (rule emits_mono) (use assms True votes_for_eventI in blast)
    then show ?thesis unfolding handle_eqc_voting_def Let_def by (intro emits_intros quiet) (simp_all add: not_vote_ok is_vote_def)
  next
    case False
    then have eq: "(l2_parent_commitment ?leaf = commit_Leaf2 (e_crypto E) l) = False" by simp
    show ?thesis unfolding handle_eqc_voting_def Let_def eq guard_False by (intro emits_intros)
  qed
qed

text \<open>The dependency tasks know only delivered events, and complete with a proposal of their own view.\<close>

definition task_ok :: "HotShotEvent set \<Rightarrow> u64 \<Rightarrow> vote_task \<Rightarrow> bool" where
  "task_ok D view t \<longleftrightarrow>
     (\<forall>e. Received e \<in> set (vt_seen t) \<longrightarrow> e \<in> D) \<and>
     (\<forall>d \<in> set (vt_deps t). case completed_dependency d of
        None \<Rightarrow> \<exists>k. match_fn d = vote_match k view
      | Some e \<Rightarrow> e \<in> D \<and> vote_match QuorumProposalDep view e)"

definition tasks_ok :: "HotShotEvent set \<Rightarrow> QuorumVoteTaskState \<Rightarrow> bool" where
  "tasks_ok D s \<longleftrightarrow> (\<forall>(view, t) \<in> set (qv_vote_dependencies s). task_ok D view t)"

lemma task_ok_observe: "task_ok D v t \<Longrightarrow> ev \<in> D \<Longrightarrow> task_ok D v (vote_task_observe ev t)"
  by (auto simp: task_ok_def vote_task_observe_def)

lemma task_ok_new:
  "ev \<in> D \<Longrightarrow> (\<And>p l. ev = QuorumProposalValidated p l \<Longrightarrow> q2_view_number (qw_proposal (pr_data p)) = v) \<Longrightarrow> task_ok D v (vote_task_new v ev)"
  by (cases ev)
    (auto simp: task_ok_def vote_task_new_def create_event_dependency_def event_dependency_new_def mark_as_completed_def Let_def)

lemma vote_match_proposal: "vote_match k view (QuorumProposalValidated p l) \<Longrightarrow> q2_view_number (qw_proposal (pr_data p)) = view"
  by (cases k) auto

lemma task_result_ok:
  assumes "task_ok D view t" and "vote_task_result t = Some (mset res)" and "ev \<in> set res"
  shows "ev \<in> D \<and> (\<exists>k. vote_match k view ev)"
proof -
  have "Some ev \<in> set (map (\<lambda>d. completed d (vt_seen t)) (vt_deps t))"
    using assms(2,3) and_completed_members unfolding vote_task_result_def by fastforce
  then obtain d where d: "d \<in> set (vt_deps t)" "completed d (vt_seen t) = Some ev" by auto
  show ?thesis
  proof (cases "completed_dependency d")
    case None
    then show ?thesis using completed_matches [OF d(2) None] assms(1) d(1) by (fastforce simp: task_ok_def)
  next
    case (Some e)
    then have "e = ev" using d(2) by (simp add: completed_def)
    moreover have "e \<in> D \<and> vote_match QuorumProposalDep view e" using Some assms(1) d(1) by (auto simp: task_ok_def dest!: bspec)
    ultimately show ?thesis by blast
  qed
qed

lemma dep_result_votes:
  assumes "\<And>p l. QuorumProposalValidated p l \<in> set res \<Longrightarrow> QuorumProposalValidated p l \<in> D \<and> q2_view_number (qw_proposal (pr_data p)) = view"
  shows "emits (votes_for_event E D) (handle_dep_result E view res)"
  unfolding emits_def
proof
  fix s :: "'a shared_scheme"
  have init: "inputs_ok E {} s vote_inputs_default" by (simp add: inputs_ok_def vote_inputs_default_def)
  show "wp (handle_dep_result E view res) (\<lambda>r s1 out. \<forall>x \<in> set out. votes_for_event E D x) s"
    unfolding handle_dep_result_def
  proof (rule wp_andThenI [OF collect_vote_events_ok [OF init]], goal_cases)
    case (1 acc s1 out)
    then have acc: "inputs_ok E (set res) s1 acc" and out: "out = []" by auto
    have quiet: "emits (votes_for_event E D) (update_shared_state E view leaf share pv)" for leaf share pv
      using update_shared_state_silent by (rule emits_mono) (rule not_vote_ok)
    have vote: "emits (votes_for_event E D) (submit_vote E view leaf share ext)" if leaf: "vi_leaf acc = Some leaf" for leaf share ext
    proof -
      obtain p parent where p: "QuorumProposalValidated p parent \<in> set res" "leaf = from_quorum_proposal (pr_data p)"
        "l2_parent_commitment leaf = commit_Leaf2 (e_crypto E) parent"
        using acc leaf unfolding inputs_ok_def by blast
      show ?thesis
      proof (rule emits_mono [OF submit_vote_emits], elim exE conjE)
        fix x v
        assume "vote_of x = Some v" "v_view_number v = view" "leaf_commit (v_data v) = commit_Leaf2 (e_crypto E) leaf"
        then show "votes_for_event E D x" using assms [OF p(1)] p(2,3) by (intro votes_for_eventI [where p = p and parent = parent]) simp_all
      qed
    qed
    show ?case unfolding out append_Nil
      by (rule emits_wp, rule emits_andThen_lift, rule emits_andThen_lift, intro emits_intros quiet vote)
        (auto simp: ok_or_eq_Ok not_vote_ok is_vote_def)
  qed auto
qed

text \<open>The handlers keep the knowledge of the dependency tasks.\<close>

lemma same_task_keeps: "follows same_task h \<Longrightarrow> follows (keeps (tasks_ok D)) h"
  by (erule follows_weaken) (simp add: keeps_def tasks_ok_def same_task_fields)

lemmas shared_keeps = follows_same_task [THEN same_task_keeps]

lemma follows_keeps_create:
  assumes "ev \<in> D" and "\<And>p l. ev = QuorumProposalValidated p l \<Longrightarrow> q2_view_number (qw_proposal (pr_data p)) = v"
  shows "follows (keeps (tasks_ok D)) (modify (create_dependency_task_if_new v ev))"
proof (rule kp.follows_modify)
  show "keeps (tasks_ok D) s (create_dependency_task_if_new v ev s)" for s
    using task_ok_new [OF assms] by (auto simp: keeps_def tasks_ok_def create_dependency_task_if_new_def dest!: in_bt_insert)
qed

lemma drb_step_keeps: "follows drb_step h \<Longrightarrow> follows (keeps (tasks_ok D)) h"
  by (erule follows_weaken) (auto simp: keeps_def tasks_ok_def drb_step_def)

lemma follows_keeps_validated: "follows (keeps (tasks_ok D)) (handle_quorum_proposal_validated E p)"
  unfolding handle_quorum_proposal_validated_def record_decided_upgrade_def announce_decide_def Let_def
  by (intro follows_intros shared_keeps kp.follows_modify follows_drb_handlers [THEN drb_step_keeps]) (simp_all add: keeps_def tasks_ok_def)

lemma follows_keeps_qv_handle:
  assumes "ev \<in> D"
  shows "follows (keeps (tasks_ok D)) (qv_handle E ev)"
proof -
  have cancel: "keeps (tasks_ok D) s (cancel_old_votes v s)" "keeps (tasks_ok D) s (update_latest_voted_view v s)" for s v
    by (auto simp: keeps_def tasks_ok_def cancel_old_votes_def update_latest_voted_view_def bt_split_off_def)
  have "follows (keeps (tasks_ok D)) (qv_proposal_validated E p l)" if "QuorumProposalValidated p l \<in> D" for p l
    unfolding qv_proposal_validated_def Let_def
    by (intro follows_intros follows_keeps_validated same_task_keeps [OF follows_handle_eqc_voting(2)] follows_keeps_create that) simp
  moreover have "follows (keeps (tasks_ok D)) (qv_dac_recv E cert)" if "DaCertificateRecv cert \<in> D" for cert
    unfolding qv_dac_recv_def Let_def by (intro follows_intros shared_keeps follows_keeps_create that) simp
  moreover have "follows (keeps (tasks_ok D)) (qv_vid_share_recv E sender share)" if "VidShareRecv sender share \<in> D" for sender share
    unfolding qv_vid_share_recv_def Let_def by (intro follows_intros shared_keeps follows_keeps_create that) simp
  ultimately show ?thesis using assms unfolding qv_handle_def
    by (cases ev) (simp_all add: follows_intros kp.follows_modify cancel kp.R_trans [OF cancel(2) cancel(1)])
qed

lemma emits_votes_validated: "emits (votes_for_event E D) (handle_quorum_proposal_validated E p)"
  unfolding handle_quorum_proposal_validated_def record_decided_upgrade_def announce_decide_def Let_def
  by (intro emits_intros) (simp_all add: not_vote_ok is_vote_def)

lemma emits_votes_qv_handle:
  assumes "ev \<in> D"
  shows "emits (votes_for_event E D) (qv_handle E ev)"
proof -
  have "emits (votes_for_event E D) (qv_proposal_validated E p l)" if "QuorumProposalValidated p l \<in> D" for p l
    unfolding qv_proposal_validated_def Let_def by (intro emits_intros emits_votes_validated eqc_votes that)
  moreover have "emits (votes_for_event E D) (qv_dac_recv E cert)" "emits (votes_for_event E D) (qv_vid_share_recv E sender share)" for cert sender share
    unfolding qv_dac_recv_def qv_vid_share_recv_def Let_def by (intro emits_intros; simp add: not_vote_ok is_vote_def)+
  ultimately show ?thesis using assms unfolding qv_handle_def by (cases ev) (simp_all add: emits_intros)
qed

lemma qv_run_step_votes:
  assumes "a \<in> set steps" and "tasks_ok {ev. Deliver ev \<in> set steps} s" and "qv_run_step E a s = Some (s1, out)"
  shows "tasks_ok {ev. Deliver ev \<in> set steps} s1 \<and> (\<forall>x \<in> set out. votes_for_event E {ev. Deliver ev \<in> set steps} x)"
proof (cases a)
  case (Deliver ev)
  then have ev: "ev \<in> {ev. Deliver ev \<in> set steps}" using assms(1) by simp
  have "tasks_ok {ev. Deliver ev \<in> set steps} (observe_all ev s)"
    using assms(2) ev task_ok_observe by (auto simp: tasks_ok_def observe_all_def)
  then show ?thesis
    using assms(3) perform_wp [OF _ wp_conj [OF follows_wp [OF follows_keeps_qv_handle [OF ev]] emits_wp [OF emits_votes_qv_handle [OF ev]]]]
    by (fastforce simp: Deliver keeps_def)
next
  case (Complete view res)
  let ?D = "{ev. Deliver ev \<in> set steps}"
  obtain t where t: "bt_get view (qv_vote_dependencies s) = Some t" "vote_task_result t = Some (mset res)"
    and run: "perform (handle_dep_result E view res) (s\<lparr>qv_vote_dependencies := bt_insert view (t\<lparr>vt_finished := True\<rparr>) (qv_vote_dependencies s)\<rparr>) = Some (s1, out)"
    using assms(3) by (auto simp: Complete split: option.splits if_splits)
  have "(view, t) \<in> set (qv_vote_dependencies s)" using t(1) by (auto simp: bt_get_def dest: map_of_SomeD)
  then have ok: "task_ok ?D view t" using assms(2) by (auto simp: tasks_ok_def)
  have "QuorumProposalValidated p l \<in> ?D \<and> q2_view_number (qw_proposal (pr_data p)) = view" if "QuorumProposalValidated p l \<in> set res" for p l
    using task_result_ok [OF ok t(2) that] vote_match_proposal by blast
  then have emits: "emits (votes_for_event E ?D) (handle_dep_result E view res :: (QuorumVoteTaskState, unit) handler)" by (rule dep_result_votes)
  have "task_ok ?D view (t\<lparr>vt_finished := True\<rparr>)" using ok by (simp add: task_ok_def)
  then have "tasks_ok ?D (s\<lparr>qv_vote_dependencies := bt_insert view (t\<lparr>vt_finished := True\<rparr>) (qv_vote_dependencies s)\<rparr>)"
    using assms(2) by (auto simp: tasks_ok_def dest!: in_bt_insert)
  then show ?thesis
    using perform_wp [OF run wp_conj [OF follows_wp [OF same_task_keeps [OF follows_handle_dep_result(2)]] emits_wp [OF emits]]] by (fastforce simp: keeps_def)
next
  case FinishDrb
  then show ?thesis using assms(2,3) by (auto simp: drb_task_step_def tasks_ok_def split: option.splits prod.splits drb_handle.splits)
next
  case (Interfere a')
  then show ?thesis using assms(2,3) by (auto simp: tasks_ok_def)
qed

text \<open>
  C9. In every run that starts without pending votes, a node votes only for the leaf of a proposal that was
  delivered to it as validated, in the view of that proposal, and only if the leaf extends the parent it was
  validated against; this covers ordinary votes and votes for the last block of an epoch.
\<close>

theorem votes_are_for_validated:
  assumes "qv_vote_dependencies s = []" and "run_effects (qv_run_step E) steps s = Some (s', out)"
    and "Internal (QuorumVoteSend v) \<in> set out \<or> Internal (ExtendedQuorumVoteSend v) \<in> set out"
  shows "\<exists>p parent. Deliver (QuorumProposalValidated p parent) \<in> set steps \<and> v_view_number v = q2_view_number (qw_proposal (pr_data p)) \<and>
     leaf_commit (v_data v) = commit_Leaf2 (e_crypto E) (from_quorum_proposal (pr_data p)) \<and>
     l2_parent_commitment (from_quorum_proposal (pr_data p)) = commit_Leaf2 (e_crypto E) parent"
proof -
  let ?D = "{ev. Deliver ev \<in> set steps}"
  have "tasks_ok ?D s" using assms(1) by (simp add: tasks_ok_def)
  from run_effects_invariant [OF assms(2), of "tasks_ok ?D" "votes_for_event E ?D", OF this qv_run_step_votes]
  have "\<forall>x \<in> set out. votes_for_event E ?D x" by simp
  moreover obtain x where "x \<in> set out" "vote_of x = Some v" using assms(3) by (auto simp: vote_of_def)
  ultimately have "votes_for_event E ?D x" by blast
  then show ?thesis using \<open>vote_of x = Some v\<close> unfolding votes_for_event_def by (metis mem_Collect_eq)
qed

definition genesis_vote_state :: "(u64, vote_task) btree \<Rightarrow> QuorumVoteTaskState" where
  "genesis_vote_state deps = shared.extend (toy_shared (genesis_consensus inj_crypto))
     \<lparr>qv_latest_voted_view = 0, qv_vote_dependencies = deps, qv_drb_computation = None\<rparr>"

lemma genesis_vote_state_simps:
  "toy_node (genesis_vote_state d)" "sh_consensus (genesis_vote_state d) = genesis_consensus inj_crypto" "qv_vote_dependencies (genesis_vote_state d) = d"
  "qv_latest_voted_view (genesis_vote_state d) = 0" "(genesis_vote_state d)\<lparr>qv_vote_dependencies := d'\<rparr> = genesis_vote_state d'"
  "(genesis_vote_state d)\<lparr>sh_membership := toy_membership\<rparr> = genesis_vote_state d"
  by (simp_all add: genesis_vote_state_def toy_shared_def shared.defs toy_node_def)

lemma first_handled: "handle_quorum_proposal_validated toy_env (pr_data first_proposal) (genesis_vote_state d) = Some (Ok (), genesis_vote_state d, [])"
proof -
  let ?c = "genesis_consensus inj_crypto"
  have c: "bt_get 0 (validated_state_map ?c) = Some (LeafView (commit_Leaf2 inj_crypto genesis_leaf) 0 (Some 0) None)"
      "saved_leaves ?c (commit_Leaf2 inj_crypto genesis_leaf) = Some genesis_leaf" "last_decided_view ?c = 0"
    by (simp_all add: genesis_consensus_def consensus_new_def bt_get_def)
  have "visit_loop ?c (Exclusive 0) True f u (commit_Leaf2 inj_crypto genesis_leaf) = Some (u, Ok ())" for f :: "chain_state visitor" and u
    by (subst visit_loop.simps) (simp add: c state_and_delta_def)
  then have dec: "decide_from_proposal ops hooks (pr_data first_proposal) ?c ex k False m = Some (outcome_default, m)" for ops :: payload_ops and hooks ex k m
    by (simp add: decide_from_proposal_def visit_leaf_ancestors_def first_proposal_simps c Let_def)
  show ?thesis
    by (simp add: handle_quorum_proposal_validated_def exec_simps genesis_vote_state_simps toy_node_simps toy_version toy_env_simps on_cond_def dec
        first_proposal_simps record_decided_upgrade_def outcome_default_def Let_def)
qed

definition first_steps :: "qv_step list" where
  "first_steps = map Deliver first_events @ [Complete 1 first_events]"

lemma first_run: "\<exists>s' out. run_effects (qv_run_step toy_env) first_steps (genesis_vote_state []) = Some (s', out) \<and> Internal (QuorumVoteSend first_vote) \<in> set out"
proof -
  let ?ev = "QuorumProposalValidated first_proposal genesis_leaf"
  let ?t = "\<lambda>seen. (vote_task_new 1 ?ev)\<lparr>vt_seen := seen\<rparr>"
  have tried: "attempt (handle_quorum_proposal_validated toy_env (pr_data first_proposal)) (genesis_vote_state []) = Some (Ok (Some ()), genesis_vote_state [], [])"
    by (simp add: attempt_def first_handled)
  have eqc: "is_leaf_forming_eqc cm (genesis_consensus inj_crypto) = Some False" for cm
    by (auto simp: is_leaf_forming_eqc_def is_leaf_for_last_block_def is_last_block_in_epoch_def genesis_consensus_def consensus_new_def genesis_leaf_def)
  have "qv_handle toy_env ?ev (genesis_vote_state []) = Some (Ok (), genesis_vote_state [(1, ?t [])], [])"
    by (simp add: qv_handle_def qv_proposal_validated_def first_proposal_simps Let_def
        exec_known [of "attempt (handle_quorum_proposal_validated toy_env (pr_data first_proposal))", OF tried]
        exec_simps genesis_vote_state_simps toy_node_simps toy_version toy_env_simps eqc modify_def create_dependency_task_if_new_def bt_contains_def vote_task_new_def)
  then have 1: "qv_run_step toy_env (Deliver ?ev) (genesis_vote_state []) = Some (genesis_vote_state [(1, ?t [])], [])"
    by (simp add: observe_all_def genesis_vote_state_simps perform_def)
  have 2: "qv_run_step toy_env (Deliver (VidShareValidated first_share)) (genesis_vote_state [(1, ?t [])]) =
      Some (genesis_vote_state [(1, ?t [Received (VidShareValidated first_share)])], [])"
    by (simp add: observe_all_def genesis_vote_state_simps perform_def qv_handle_def ret_def vote_task_observe_def)
  have 3: "qv_run_step toy_env (Deliver (DaCertificateValidated first_dac)) (genesis_vote_state [(1, ?t [Received (VidShareValidated first_share)])]) =
      Some (genesis_vote_state [(1, ?t [Received (VidShareValidated first_share), Received (DaCertificateValidated first_dac)])], [])"
    by (simp add: observe_all_def genesis_vote_state_simps perform_def qv_handle_def ret_def vote_task_observe_def)
  have res: "vote_task_result (?t [Received (VidShareValidated first_share), Received (DaCertificateValidated first_dac)]) = Some (mset first_events)"
    by (simp add: vote_task_result_def vote_task_new_def create_event_dependency_def event_dependency_new_def mark_as_completed_def completed_def and_completed_def
        first_events_def first_share_def first_dac_def Let_def add_mset_commute)
  have fin: "\<not> vt_finished (?t seen)" for seen by (simp add: vote_task_new_def Let_def)
  obtain s1 where "handle_dep_result toy_env 1 first_events
      (genesis_vote_state [(1, ?t [Received (VidShareValidated first_share), Received (DaCertificateValidated first_dac)]\<lparr>vt_finished := True\<rparr>)]) =
      Some (Ok (), s1, [Internal (ViewChange 2 None), Internal (QuorumVoteSend first_vote)])"
    using first_vote_sent [OF genesis_vote_state_simps(1,2)] by blast
  then have 4: "qv_run_step toy_env (Complete 1 first_events) (genesis_vote_state [(1, ?t [Received (VidShareValidated first_share), Received (DaCertificateValidated first_dac)])]) =
      Some (s1, [Internal (ViewChange 2 None), Internal (QuorumVoteSend first_vote)])"
    using res fin by (simp add: bt_get_def genesis_vote_state_simps perform_def)
  show ?thesis
    by (simp add: first_steps_def first_events_def 1 2 3 4 [unfolded first_events_def] del: qv_run_step.simps)
qed

theorem votes_are_for_validated_witness:
  "\<exists>s' out. run_effects (qv_run_step toy_env) first_steps (genesis_vote_state []) = Some (s', out) \<and>
     Internal (QuorumVoteSend first_vote) \<in> set out \<and>
     (\<exists>p parent. Deliver (QuorumProposalValidated p parent) \<in> set first_steps \<and> v_view_number first_vote = q2_view_number (qw_proposal (pr_data p)))"
  using first_run votes_are_for_validated [OF genesis_vote_state_simps(3), of toy_env first_steps _ _ first_vote] by blast

end
