(* ===== verification/Network.thy ===== *)
theory Network
  imports Validation
begin

text \<open>
  The two network tasks of \<open>crates/task-impls/src/network.rs\<close>.  The message task turns a message from the network
  into an event; the event task turns an event into a message and spawns a task that records the action,
  serializes the message and puts it on the wire.  Spawned tasks wait in the state until they run.
  The LRU cache, the hash of a transaction and the serializer are given.
\<close>

section \<open>Messages from the network\<close>

record network_lib =
  nl_wire :: "Message wire"
  nl_cache_put :: "u64 \<Rightarrow> u64 list \<Rightarrow> u64 list \<times> bool"
  nl_hash :: "transaction \<Rightarrow> u64"

record NetworkMessageTaskState = shared +
  nm_transactions_cache :: "u64 list"

text \<open>The event of a consensus message; a message in the format of the wrong protocol version is dropped.\<close>

definition in_format :: "bool \<Rightarrow> HotShotEvent \<Rightarrow> HotShotEvent option" where
  "in_format b ev = (if b then Some ev else None)"

fun view_sync_event :: "(u64 \<Rightarrow> bool) \<Rightarrow> GeneralConsensusMessage \<Rightarrow> HotShotEvent option" where
  "view_sync_event epochs (ViewSyncPreCommitVoteMsg v) = in_format (\<not> epochs (v_view_number v)) (ViewSyncPreCommitVoteRecv (ViewSyncPreCommitVote_to_vote2 v))"
| "view_sync_event epochs (ViewSyncPreCommitVote2Msg v) = in_format (epochs (v_view_number v)) (ViewSyncPreCommitVoteRecv v)"
| "view_sync_event epochs (ViewSyncPreCommitCertificateMsg c) = in_format (\<not> epochs (c_view_number c)) (ViewSyncPreCommitCertificateRecv (pre_commit_to_vsc2 c))"
| "view_sync_event epochs (ViewSyncPreCommitCertificate2Msg c) = in_format (epochs (c_view_number c)) (ViewSyncPreCommitCertificateRecv c)"
| "view_sync_event epochs (ViewSyncCommitVoteMsg v) = in_format (\<not> epochs (v_view_number v)) (ViewSyncCommitVoteRecv (ViewSyncCommitVote_to_vote2 v))"
| "view_sync_event epochs (ViewSyncCommitVote2Msg v) = in_format (epochs (v_view_number v)) (ViewSyncCommitVoteRecv v)"
| "view_sync_event epochs (ViewSyncCommitCertificateMsg c) = in_format (\<not> epochs (c_view_number c)) (ViewSyncCommitCertificateRecv (commit_to_vsc2 c))"
| "view_sync_event epochs (ViewSyncCommitCertificate2Msg c) = in_format (epochs (c_view_number c)) (ViewSyncCommitCertificateRecv c)"
| "view_sync_event epochs (ViewSyncFinalizeVoteMsg v) = in_format (\<not> epochs (v_view_number v)) (ViewSyncFinalizeVoteRecv (ViewSyncFinalizeVote_to_vote2 v))"
| "view_sync_event epochs (ViewSyncFinalizeVote2Msg v) = in_format (epochs (v_view_number v)) (ViewSyncFinalizeVoteRecv v)"
| "view_sync_event epochs (ViewSyncFinalizeCertificateMsg c) = in_format (\<not> epochs (c_view_number c)) (ViewSyncFinalizeCertificateRecv (finalize_to_vsc2 c))"
| "view_sync_event epochs (ViewSyncFinalizeCertificate2Msg c) = in_format (epochs (c_view_number c)) (ViewSyncFinalizeCertificateRecv c)"
| "view_sync_event epochs m = None"

fun general_event :: "(u64 \<Rightarrow> bool) \<Rightarrow> pubkey \<Rightarrow> GeneralConsensusMessage \<Rightarrow> HotShotEvent option" where
  "general_event epochs sndr (ProposalMsg p) = in_format (\<not> epochs (qp_view_number (pr_data p))) (QuorumProposalRecv (convert_proposal qp_to_wrapper p) sndr)"
| "general_event epochs sndr (Proposal2Msg p) = in_format (epochs (q2_view_number (pr_data p))) (QuorumProposalRecv (convert_proposal qp2_to_wrapper p) sndr)"
| "general_event epochs sndr (ProposalRequestedMsg r g) = Some (QuorumProposalRequestRecv r g)"
| "general_event epochs sndr (ProposalResponseMsg p) = in_format (\<not> epochs (qp_view_number (pr_data p))) (QuorumProposalResponseRecv (convert_proposal qp_to_wrapper p))"
| "general_event epochs sndr (ProposalResponse2Msg p) = in_format (epochs (q2_view_number (pr_data p))) (QuorumProposalResponseRecv (convert_proposal qp2_to_wrapper p))"
| "general_event epochs sndr (VoteMsg v) = in_format (\<not> epochs (v_view_number v)) (QuorumVoteRecv (QuorumVote_to_vote2 v))"
| "general_event epochs sndr (Vote2Msg v) = in_format (epochs (v_view_number v)) (QuorumVoteRecv v)"
| "general_event epochs sndr (TimeoutVoteMsg v) = in_format (\<not> epochs (v_view_number v)) (TimeoutVoteRecv (TimeoutVote_to_vote2 v))"
| "general_event epochs sndr (TimeoutVote2Msg v) = in_format (epochs (v_view_number v)) (TimeoutVoteRecv v)"
| "general_event epochs sndr (UpgradeProposalMsg p) = Some (UpgradeProposalRecv p sndr)"
| "general_event epochs sndr (UpgradeVoteMsg v) = Some (UpgradeVoteRecv v)"
| "general_event epochs sndr (HighQcMsg qc) = Some (HighQcRecv qc sndr)"
| "general_event epochs sndr m = view_sync_event epochs m"

fun da_event :: "(u64 \<Rightarrow> bool) \<Rightarrow> pubkey \<Rightarrow> DaConsensusMessage \<Rightarrow> HotShotEvent option" where
  "da_event epochs sndr (DaProposalMsg p) = in_format (\<not> epochs (da_view_number (pr_data p))) (DaProposalRecv (convert_proposal da_proposal_to_2 p) sndr)"
| "da_event epochs sndr (DaProposal2Msg p) = in_format (epochs (da2_view_number (pr_data p))) (DaProposalRecv p sndr)"
| "da_event epochs sndr (DaVoteMsg v) = in_format (\<not> epochs (v_view_number v)) (DaVoteRecv (DaVote_to_vote2 v))"
| "da_event epochs sndr (DaVote2Msg v) = in_format (epochs (v_view_number v)) (DaVoteRecv v)"
| "da_event epochs sndr (DaCertificateMsg c) = in_format (\<not> epochs (c_view_number c)) (DaCertificateRecv (to_dac2 c))"
| "da_event epochs sndr (DaCertificate2Msg c) = in_format (epochs (c_view_number c)) (DaCertificateRecv c)"
| "da_event epochs sndr (VidDisperseMsg p) = in_format (\<not> epochs (as_view_number (pr_data p))) (VidShareRecv sndr (convert_proposal ShareV0 p))"
| "da_event epochs sndr (VidDisperseMsg2 p) = in_format (epochs (s2_view_number (pr_data p))) (VidShareRecv sndr (convert_proposal ShareV1 p))"

definition handle_message :: "network_lib \<Rightarrow> env \<Rightarrow> Message \<Rightarrow> (NetworkMessageTaskState, unit) handler" where
  "handle_message L E m =
     andThen (gets (\<lambda>s. epochs_enabled (e_versions E) (sh_upgrade_lock s))) (\<lambda>epochs.
     case msg_kind m of
       ConsensusMsg (General g) \<Rightarrow> (case general_event epochs (msg_sender m) g of None \<Rightarrow> ret () | Some ev \<Rightarrow> broadcast_event ev)
     | ConsensusMsg (DaMsg d) \<Rightarrow> (case da_event epochs (msg_sender m) d of None \<Rightarrow> ret () | Some ev \<Rightarrow> broadcast_event ev)
     | DataMsg (SubmitTransaction t _) \<Rightarrow>
         andThen (gets (\<lambda>s. nl_cache_put L (nl_hash L t) (nm_transactions_cache s))) (\<lambda>(cache, seen).
         seq (modify (\<lambda>s. s\<lparr>nm_transactions_cache := cache\<rparr>))
             (if seen then ret () else broadcast_event (TransactionsRecv [t])))
     | DataMsg (DataResponse (Found (DaMsg (VidDisperseMsg p)))) \<Rightarrow> broadcast_event (VidResponseRecv (msg_sender m) (convert_proposal ShareV0 p))
     | DataMsg (DataResponse (Found (DaMsg (VidDisperseMsg2 p)))) \<Rightarrow> broadcast_event (VidResponseRecv (msg_sender m) (convert_proposal ShareV1 p))
     | DataMsg (DataResponse _) \<Rightarrow> ret ()
     | DataMsg (RequestData r) \<Rightarrow>
         (case dr_request r of VidRequest _ _ \<Rightarrow> broadcast_event (VidRequestRecv r (msg_sender m)) | _ \<Rightarrow> ret ())
     | ExternalMsg d \<Rightarrow>
         andThen (gets sh_public_key) (\<lambda>me.
         if msg_sender m = me then ret () else notify 1 (ExternalMessageReceived (msg_sender m) d)))"

section \<open>Events for the network\<close>

datatype TransmitType = Direct pubkey | Broadcast | DaCommitteeBroadcast

datatype BroadcastDelay = DelayNone | DelayView u64

text \<open>A spawned task that has not run yet.\<close>

record transmit_task =
  tt_action :: "HotShotAction option"
  tt_view :: u64
  tt_epoch :: "epoch option"
  tt_message :: Message
  tt_transmit :: TransmitType
  tt_da_committee :: "pubkey set"
  tt_delay :: BroadcastDelay

record vid_task =
  vd_view :: u64
  vd_epoch :: "epoch option"
  vd_messages :: "pubkey \<rightharpoonup> bytes"

record NetworkEventTaskState = shared +
  ne_view :: u64
  ne_epoch :: "epoch option"
  ne_transmit_tasks :: "(u64, transmit_task list) btree"
  ne_vid_tasks :: "vid_task list"

text \<open>The messages of a dispersal, unless a share is in the format of the wrong protocol version.\<close>

fun vid_message :: "(u64 \<Rightarrow> bool) \<Rightarrow> pubkey \<Rightarrow> VidDisperseShare Proposal \<Rightarrow> Message option" where
  "vid_message epochs sndr p =
     (case pr_data p of
        ShareV1 d \<Rightarrow> if epochs (s2_view_number d)
          then Some \<lparr>msg_sender = sndr, msg_kind = ConsensusMsg (DaMsg (VidDisperseMsg2 \<lparr>pr_data = d, pr_signature = pr_signature p\<rparr>))\<rparr> else None
      | ShareV0 d \<Rightarrow> if epochs (as_view_number d) then None
          else Some \<lparr>msg_sender = sndr, msg_kind = ConsensusMsg (DaMsg (VidDisperseMsg \<lparr>pr_data = d, pr_signature = pr_signature p\<rparr>))\<rparr>)"

fun vid_messages ::
  "network_lib \<Rightarrow> versions \<Rightarrow> UpgradeLock \<Rightarrow> pubkey \<Rightarrow> VidDisperseShare Proposal list \<Rightarrow> (pubkey \<rightharpoonup> bytes) \<Rightarrow> ((pubkey \<rightharpoonup> bytes) option, error) result" where
  "vid_messages L V lock sndr [] msgs = Ok (Some msgs)"
| "vid_messages L V lock sndr (p # ps) msgs =
     (case vid_message (epochs_enabled V lock) sndr p of
        None \<Rightarrow> Ok None
      | Some m \<Rightarrow>
          (case lock_serialize V (nl_wire L) lock m of
             Ok bs \<Rightarrow> vid_messages L V lock sndr ps (msgs(recipient_key (pr_data p) \<mapsto> bs))
           | Err _ \<Rightarrow> vid_messages L V lock sndr ps msgs
           | Panic \<Rightarrow> Panic))"

definition handle_vid_disperse_proposal :: "network_lib \<Rightarrow> env \<Rightarrow> VidDisperse Proposal \<Rightarrow> pubkey \<Rightarrow> (NetworkEventTaskState, unit) handler" where
  "handle_vid_disperse_proposal L E vid_proposal sndr =
     andThen (check_state (\<lambda>s. vid_messages L (e_versions E) (sh_upgrade_lock s) sndr (to_vid_share_proposals vid_proposal) Map.empty)) (\<lambda>msgs.
     case msgs of
       None \<Rightarrow> ret ()
     | Some messages \<Rightarrow>
         let d = as_advz (pr_data vid_proposal) in
         modify (\<lambda>s. s\<lparr>ne_vid_tasks := ne_vid_tasks s @ [\<lparr>vd_view = ad_view_number d, vd_epoch = ad_epoch d, vd_messages = messages\<rparr>]\<rparr>))"

definition ne_cancel_tasks :: "u64 \<Rightarrow> NetworkEventTaskState \<Rightarrow> NetworkEventTaskState" where
  "ne_cancel_tasks view s = s\<lparr>ne_transmit_tasks := bt_split_off view (ne_transmit_tasks s)\<rparr>"

text \<open>What is put on the wire for an event: the action it stands for, the sender, the message and the recipients.\<close>

type_synonym parsed = "(HotShotAction option \<times> pubkey \<times> MessageKind \<times> TransmitType) option"

definition general_message :: "(u64 \<Rightarrow> bool) \<Rightarrow> u64 \<Rightarrow> GeneralConsensusMessage \<Rightarrow> GeneralConsensusMessage \<Rightarrow> MessageKind" where
  "general_message epochs view new old = ConsensusMsg (General (if epochs view then new else old))"

definition da_message :: "(u64 \<Rightarrow> bool) \<Rightarrow> u64 \<Rightarrow> DaConsensusMessage \<Rightarrow> DaConsensusMessage \<Rightarrow> MessageKind" where
  "da_message epochs view new old = ConsensusMsg (DaMsg (if epochs view then new else old))"

definition to_leader ::
  "HotShotAction option \<Rightarrow> pubkey \<Rightarrow> MessageKind \<Rightarrow> u64 \<Rightarrow> (NetworkEventTaskState \<Rightarrow> epoch option) \<Rightarrow> (NetworkEventTaskState, parsed) handler" where
  "to_leader action sndr kind view e =
     andThen (gets (\<lambda>s. leader (sh_membership s) view (e s))) (\<lambda>l.
     or_return l None (\<lambda>k. ret (Some (action, sndr, kind, Direct k))))"

definition parse_view_sync_event :: "(u64 \<Rightarrow> bool) \<Rightarrow> HotShotEvent \<Rightarrow> (NetworkEventTaskState, parsed) handler" where
  "parse_view_sync_event epochs ev =
     (case ev of
       ViewSyncPreCommitVoteSend v \<Rightarrow>
         to_leader None (signing_key v) (general_message epochs (v_view_number v) (ViewSyncPreCommitVote2Msg v)
           (ViewSyncPreCommitVoteMsg (ViewSyncPreCommitVote2_to_vote v)))
           (v_view_number v + (case v_data v of ViewSyncPreCommitData2 relay _ _ \<Rightarrow> relay)) ne_epoch
     | ViewSyncCommitVoteSend v \<Rightarrow>
         to_leader (Some ViewSyncVote) (signing_key v) (general_message epochs (v_view_number v) (ViewSyncCommitVote2Msg v)
           (ViewSyncCommitVoteMsg (ViewSyncCommitVote2_to_vote v)))
           (v_view_number v + (case v_data v of ViewSyncCommitData2 relay _ _ \<Rightarrow> relay)) ne_epoch
     | ViewSyncFinalizeVoteSend v \<Rightarrow>
         to_leader (Some ViewSyncVote) (signing_key v) (general_message epochs (v_view_number v) (ViewSyncFinalizeVote2Msg v)
           (ViewSyncFinalizeVoteMsg (ViewSyncFinalizeVote2_to_vote v)))
           (v_view_number v + (case v_data v of ViewSyncFinalizeData2 relay _ _ \<Rightarrow> relay)) ne_epoch
     | ViewSyncPreCommitCertificateSend c sndr \<Rightarrow>
         ret (Some (None, sndr, general_message epochs (c_view_number c) (ViewSyncPreCommitCertificate2Msg c)
           (ViewSyncPreCommitCertificateMsg (pre_commit_to_vsc c)), Broadcast))
     | ViewSyncCommitCertificateSend c sndr \<Rightarrow>
         ret (Some (None, sndr, general_message epochs (c_view_number c) (ViewSyncCommitCertificate2Msg c)
           (ViewSyncCommitCertificateMsg (commit_to_vsc c)), Broadcast))
     | ViewSyncFinalizeCertificateSend c sndr \<Rightarrow>
         ret (Some (None, sndr, general_message epochs (c_view_number c) (ViewSyncFinalizeCertificate2Msg c)
           (ViewSyncFinalizeCertificateMsg (finalize_to_vsc c)), Broadcast))
     | _ \<Rightarrow> ret None)"

definition parse_consensus_event :: "network_lib \<Rightarrow> env \<Rightarrow> (u64 \<Rightarrow> bool) \<Rightarrow> HotShotEvent \<Rightarrow> (NetworkEventTaskState, parsed) handler" where
  "parse_consensus_event L E epochs ev =
     (case ev of
       QuorumProposalSend p sndr \<Rightarrow>
         ret (Some (Some Propose, sndr, general_message epochs (q2_view_number (qw_proposal (pr_data p)))
           (Proposal2Msg (convert_proposal wrapper_to_qp2 p)) (ProposalMsg (convert_proposal wrapper_to_qp p)), Broadcast))
     | QuorumVoteSend v \<Rightarrow>
         to_leader (Some Vote) (signing_key v) (general_message epochs (v_view_number v) (Vote2Msg v) (VoteMsg (QuorumVote2_to_vote v)))
           (v_view_number v + 1) (\<lambda>_. qd_epoch (v_data v))
     | ExtendedQuorumVoteSend v \<Rightarrow>
         ret (Some (Some Vote, signing_key v, general_message epochs (v_view_number v) (Vote2Msg v) (VoteMsg (QuorumVote2_to_vote v)), Broadcast))
     | QuorumProposalRequestSend req signature \<Rightarrow>
         ret (Some (None, request_key req, ConsensusMsg (General (ProposalRequestedMsg req signature)), Broadcast))
     | QuorumProposalResponseSend sender_key p \<Rightarrow>
         ret (Some (None, sender_key, general_message epochs (q2_view_number (qw_proposal (pr_data p)))
           (ProposalResponse2Msg (convert_proposal wrapper_to_qp2 p)) (ProposalResponseMsg (convert_proposal wrapper_to_qp p)), Direct sender_key))
     | VidDisperseSend p sndr \<Rightarrow> seq (handle_vid_disperse_proposal L E p sndr) (ret None)
     | DaProposalSend p sndr \<Rightarrow>
         ret (Some (Some DaPropose, sndr, da_message epochs (da2_view_number (pr_data p)) (DaProposal2Msg p)
           (DaProposalMsg (convert_proposal da_proposal_to_1 p)), DaCommitteeBroadcast))
     | DaVoteSend v \<Rightarrow>
         to_leader (Some DaVote) (signing_key v) (da_message epochs (v_view_number v) (DaVote2Msg v) (DaVoteMsg (DaVote2_to_vote v)))
           (v_view_number v) (\<lambda>_. da_epoch (v_data v))
     | DacSend c sndr \<Rightarrow>
         ret (Some (Some DaCert, sndr, da_message epochs (c_view_number c) (DaCertificate2Msg c) (DaCertificateMsg (to_dac c)), Broadcast))
     | _ \<Rightarrow> parse_view_sync_event epochs ev)"

definition parse_event :: "network_lib \<Rightarrow> env \<Rightarrow> HotShotEvent \<Rightarrow> (NetworkEventTaskState, parsed) handler" where
  "parse_event L E ev =
     andThen (gets (\<lambda>s. epochs_enabled (e_versions E) (sh_upgrade_lock s))) (\<lambda>epochs.
     case ev of
       TimeoutVoteSend v \<Rightarrow>
         to_leader (Some Vote) (signing_key v) (general_message epochs (v_view_number v) (TimeoutVote2Msg v) (TimeoutVoteMsg (TimeoutVote2_to_vote v)))
           (v_view_number v + 1) ne_epoch
     | UpgradeProposalSend p sndr \<Rightarrow> ret (Some (None, sndr, ConsensusMsg (General (UpgradeProposalMsg p)), Broadcast))
     | UpgradeVoteSend v \<Rightarrow> to_leader None (signing_key v) (ConsensusMsg (General (UpgradeVoteMsg v))) (v_view_number v) ne_epoch
     | ViewChange view e \<Rightarrow>
         seq (modify (\<lambda>s. s\<lparr>ne_view := view, ne_epoch := if option_less (ne_epoch s) e then e else ne_epoch s\<rparr>))
        (seq (modify (ne_cancel_tasks (saturating_sub view 1)))
        (seq (emit (Spawn ''update_view'' (saturating_sub view 1))) (ret None)))
     | VidRequestSend req sndr rcpt \<Rightarrow> ret (Some (None, sndr, DataMsg (RequestData req), Direct rcpt))
     | VidResponseSend sndr rcpt p \<Rightarrow>
         ret (case pr_data p of
             ShareV0 d \<Rightarrow> if epochs (as_view_number d) then None
               else Some (None, sndr, DataMsg (DataResponse (Found (DaMsg (VidDisperseMsg \<lparr>pr_data = d, pr_signature = pr_signature p\<rparr>)))), Direct rcpt)
           | ShareV1 d \<Rightarrow> if \<not> epochs (s2_view_number d) then None
               else Some (None, sndr, DataMsg (DataResponse (Found (DaMsg (VidDisperseMsg2 \<lparr>pr_data = d, pr_signature = pr_signature p\<rparr>)))), Direct rcpt))
     | HighQcSend qc ldr sndr \<Rightarrow> ret (Some (None, sndr, ConsensusMsg (General (HighQcMsg qc)), Direct ldr))
     | _ \<Rightarrow> parse_consensus_event L E epochs ev)"

lemmas parse_event_defs = parse_event_def parse_consensus_event_def parse_view_sync_event_def

text \<open>Votes and data availability messages are delayed to their view.\<close>

definition broadcast_delay :: "MessageKind \<Rightarrow> BroadcastDelay" where
  "broadcast_delay kind =
     (case kind of
        ConsensusMsg (General (VoteMsg _)) \<Rightarrow> DelayView (kind_view kind)
      | ConsensusMsg (DaMsg _) \<Rightarrow> DelayView (kind_view kind)
      | _ \<Rightarrow> DelayNone)"

definition spawn_transmit_task ::
  "MessageKind \<Rightarrow> HotShotAction option \<Rightarrow> TransmitType \<Rightarrow> pubkey \<Rightarrow> (NetworkEventTaskState, unit) handler" where
  "spawn_transmit_task kind action transmit sndr =
     modify (\<lambda>s.
       let view = kind_view kind;
           task = \<lparr>tt_action = action, tt_view = view, tt_epoch = kind_epoch kind, tt_message = \<lparr>msg_sender = sndr, msg_kind = kind\<rparr>,
             tt_transmit = transmit, tt_da_committee = m_da_committee_members (sh_membership s) view (ne_epoch s), tt_delay = broadcast_delay kind\<rparr>;
           tasks = (case bt_get view (ne_transmit_tasks s) of Some ts \<Rightarrow> ts | None \<Rightarrow> [])
       in s\<lparr>ne_transmit_tasks := bt_insert view (tasks @ [task]) (ne_transmit_tasks s)\<rparr>)"

definition ne_handle :: "network_lib \<Rightarrow> env \<Rightarrow> HotShotEvent \<Rightarrow> (NetworkEventTaskState, unit) handler" where
  "ne_handle L E ev =
     andThen (parse_event L E ev) (\<lambda>p.
     case p of
       None \<Rightarrow> ret ()
     | Some (action, sndr, kind, transmit) \<Rightarrow> spawn_transmit_task kind action transmit sndr)"

section \<open>Spawned tasks\<close>

text \<open>What reaches the wire.\<close>

datatype transmission =
    DirectMessage Message bytes pubkey
  | BroadcastMessage Message bytes BroadcastDelay
  | DaBroadcastMessage Message bytes "pubkey set" BroadcastDelay
  | VidBroadcastMessage "pubkey \<rightharpoonup> bytes"

definition grant_action :: "HotShotAction \<Rightarrow> u64 \<Rightarrow> ('a shared_scheme, bool) handler" where
  "grant_action action view s =
     (let (c, granted) = update_action action view (sh_consensus s) in Some (Ok granted, s\<lparr>sh_consensus := c\<rparr>, []))"

definition maybe_record_action ::
  "env \<Rightarrow> HotShotAction option \<Rightarrow> u64 \<Rightarrow> epoch option \<Rightarrow> ('a shared_scheme, unit) handler" where
  "maybe_record_action E maybe_action view e =
     (case maybe_action of
        None \<Rightarrow> ret ()
      | Some action \<Rightarrow>
          andThen (grant_action action view) (\<lambda>granted.
          seq (guard granted (Error Unspecified []))
              (store E (Record_action view e (if action = ViewSyncVote then Vote else action)))))"

definition transmit_message :: "network_lib \<Rightarrow> env \<Rightarrow> transmit_task \<Rightarrow> ('a shared_scheme, transmission) handler" where
  "transmit_message L E t =
     seq (maybe_record_action E (tt_action t) (tt_view t) (tt_epoch t))
    (seq (case msg_kind (tt_message t) of
            ConsensusMsg (General (ProposalMsg p)) \<Rightarrow> store E (Append_proposal (convert_proposal qp_to_wrapper p))
          | _ \<Rightarrow> ret ())
    (andThen (check_state (\<lambda>s. lock_serialize (e_versions E) (nl_wire L) (sh_upgrade_lock s) (tt_message t))) (\<lambda>bs.
     ret (case tt_transmit t of
            Direct recipient \<Rightarrow> DirectMessage (tt_message t) bs recipient
          | Broadcast \<Rightarrow> BroadcastMessage (tt_message t) bs (tt_delay t)
          | DaCommitteeBroadcast \<Rightarrow> DaBroadcastMessage (tt_message t) bs (tt_da_committee t) (tt_delay t)))))"

definition transmit_vid :: "env \<Rightarrow> vid_task \<Rightarrow> ('a shared_scheme, transmission) handler" where
  "transmit_vid E t =
     seq (maybe_record_action E (Some VidDisperseAction) (vd_view t) (vd_epoch t)) (ret (VidBroadcastMessage (vd_messages t)))"

section \<open>From an event to the event of the receiver\<close>

text \<open>The event a receiver gets for an event that is sent.\<close>

definition received_as :: "HotShotEvent \<Rightarrow> HotShotEvent option" where
  "received_as ev =
     (case ev of
        QuorumProposalSend p k \<Rightarrow> Some (QuorumProposalRecv p k)
      | QuorumVoteSend v \<Rightarrow> Some (QuorumVoteRecv v)
      | ExtendedQuorumVoteSend v \<Rightarrow> Some (QuorumVoteRecv v)
      | QuorumProposalRequestSend r g \<Rightarrow> Some (QuorumProposalRequestRecv r g)
      | QuorumProposalResponseSend k p \<Rightarrow> Some (QuorumProposalResponseRecv p)
      | DaProposalSend p k \<Rightarrow> Some (DaProposalRecv p k)
      | DaVoteSend v \<Rightarrow> Some (DaVoteRecv v)
      | DacSend c k \<Rightarrow> Some (DaCertificateRecv c)
      | ViewSyncPreCommitVoteSend v \<Rightarrow> Some (ViewSyncPreCommitVoteRecv v)
      | ViewSyncCommitVoteSend v \<Rightarrow> Some (ViewSyncCommitVoteRecv v)
      | ViewSyncFinalizeVoteSend v \<Rightarrow> Some (ViewSyncFinalizeVoteRecv v)
      | ViewSyncPreCommitCertificateSend c k \<Rightarrow> Some (ViewSyncPreCommitCertificateRecv c)
      | ViewSyncCommitCertificateSend c k \<Rightarrow> Some (ViewSyncCommitCertificateRecv c)
      | ViewSyncFinalizeCertificateSend c k \<Rightarrow> Some (ViewSyncFinalizeCertificateRecv c)
      | TimeoutVoteSend v \<Rightarrow> Some (TimeoutVoteRecv v)
      | UpgradeProposalSend p k \<Rightarrow> Some (UpgradeProposalRecv p k)
      | UpgradeVoteSend v \<Rightarrow> Some (UpgradeVoteRecv v)
      | VidRequestSend r k _ \<Rightarrow> (case dr_request r of VidRequest _ _ \<Rightarrow> Some (VidRequestRecv r k) | _ \<Rightarrow> None)
      | VidResponseSend k _ p \<Rightarrow> Some (VidResponseRecv k p)
      | HighQcSend qc _ k \<Rightarrow> Some (HighQcRecv qc k)
      | _ \<Rightarrow> None)"

text \<open>The data fits the format used before epochs.\<close>

definition evidence_fits :: "ViewChangeEvidence2 option \<Rightarrow> bool" where
  "evidence_fits ev =
     (case ev of None \<Rightarrow> True | Some (Timeout2 tc) \<Rightarrow> timeout_epoch (c_data tc) = None
      | Some (ViewSync2 c) \<Rightarrow> epoch_ViewSyncFinalizeData2 (c_data c) = None)"

definition proposal_fits :: "QuorumProposal2 \<Rightarrow> bool" where
  "proposal_fits q \<longleftrightarrow> q2_epoch q = None \<and> q2_next_epoch_justify_qc q = None \<and> q2_next_drb_result q = None \<and>
     qd_epoch (c_data (q2_justify_qc q)) = None \<and> evidence_fits (q2_view_change_evidence q)"

definition fits_old_format :: "HotShotEvent \<Rightarrow> bool" where
  "fits_old_format ev =
     (case ev of
        QuorumProposalSend p _ \<Rightarrow> proposal_fits (qw_proposal (pr_data p))
      | QuorumProposalResponseSend _ p \<Rightarrow> proposal_fits (qw_proposal (pr_data p))
      | QuorumVoteSend v \<Rightarrow> qd_epoch (v_data v) = None
      | ExtendedQuorumVoteSend v \<Rightarrow> qd_epoch (v_data v) = None
      | DaProposalSend p _ \<Rightarrow> da2_epoch (pr_data p) = None
      | DaVoteSend v \<Rightarrow> da_epoch (v_data v) = None
      | DacSend c _ \<Rightarrow> da_epoch (c_data c) = None
      | ViewSyncPreCommitVoteSend v \<Rightarrow> epoch_ViewSyncPreCommitData2 (v_data v) = None
      | ViewSyncCommitVoteSend v \<Rightarrow> epoch_ViewSyncCommitData2 (v_data v) = None
      | ViewSyncFinalizeVoteSend v \<Rightarrow> epoch_ViewSyncFinalizeData2 (v_data v) = None
      | ViewSyncPreCommitCertificateSend c _ \<Rightarrow> epoch_ViewSyncPreCommitData2 (c_data c) = None
      | ViewSyncCommitCertificateSend c _ \<Rightarrow> epoch_ViewSyncCommitData2 (c_data c) = None
      | ViewSyncFinalizeCertificateSend c _ \<Rightarrow> epoch_ViewSyncFinalizeData2 (c_data c) = None
      | TimeoutVoteSend v \<Rightarrow> timeout_epoch (v_data v) = None
      | _ \<Rightarrow> True)"

lemma vote_downgrades:
  "qd_epoch (v_data qv) = None \<Longrightarrow> QuorumVote_to_vote2 (QuorumVote2_to_vote qv) = qv"
  "da_epoch (v_data dv) = None \<Longrightarrow> DaVote_to_vote2 (DaVote2_to_vote dv) = dv"
  "timeout_epoch (v_data tv) = None \<Longrightarrow> TimeoutVote_to_vote2 (TimeoutVote2_to_vote tv) = tv"
  "epoch_ViewSyncPreCommitData2 (v_data pv) = None \<Longrightarrow> ViewSyncPreCommitVote_to_vote2 (ViewSyncPreCommitVote2_to_vote pv) = pv"
  "epoch_ViewSyncCommitData2 (v_data cv) = None \<Longrightarrow> ViewSyncCommitVote_to_vote2 (ViewSyncCommitVote2_to_vote cv) = cv"
  "epoch_ViewSyncFinalizeData2 (v_data fv) = None \<Longrightarrow> ViewSyncFinalizeVote_to_vote2 (ViewSyncFinalizeVote2_to_vote fv) = fv"
  by (simp_all add: QuorumVote_to_vote2_def QuorumVote2_to_vote_def DaVote_to_vote2_def DaVote2_to_vote_def TimeoutVote_to_vote2_def TimeoutVote2_to_vote_def
      ViewSyncPreCommitVote_to_vote2_def ViewSyncPreCommitVote2_to_vote_def ViewSyncCommitVote_to_vote2_def ViewSyncCommitVote2_to_vote_def
      ViewSyncFinalizeVote_to_vote2_def ViewSyncFinalizeVote2_to_vote_def vote_with_comp vote_with_id data_round_trips_back)

lemma cert_downgrades:
  "qd_epoch (c_data qc) = None \<Longrightarrow> to_qc2 (to_qc qc) = qc"
  "da_epoch (c_data dc) = None \<Longrightarrow> to_dac2 (to_dac dc) = dc"
  "timeout_epoch (c_data tc) = None \<Longrightarrow> to_tc2 (to_tc tc) = tc"
  "epoch_ViewSyncPreCommitData2 (c_data pc) = None \<Longrightarrow> pre_commit_to_vsc2 (pre_commit_to_vsc pc) = pc"
  "epoch_ViewSyncCommitData2 (c_data cc) = None \<Longrightarrow> commit_to_vsc2 (commit_to_vsc cc) = cc"
  "epoch_ViewSyncFinalizeData2 (c_data fc) = None \<Longrightarrow> finalize_to_vsc2 (finalize_to_vsc fc) = fc"
  by (simp_all add: to_qc2_def to_qc_def to_dac2_def to_dac_def to_tc2_def to_tc_def pre_commit_to_vsc2_def pre_commit_to_vsc_def
      commit_to_vsc2_def commit_to_vsc_def finalize_to_vsc2_def finalize_to_vsc_def cert_with_comp cert_with_id data_round_trips_back)

lemma old_views:
  "v_view_number (QuorumVote2_to_vote qv) = v_view_number qv" "v_view_number (DaVote2_to_vote dv) = v_view_number dv"
  "v_view_number (TimeoutVote2_to_vote tv) = v_view_number tv" "v_view_number (ViewSyncPreCommitVote2_to_vote pv) = v_view_number pv"
  "v_view_number (ViewSyncCommitVote2_to_vote cv) = v_view_number cv" "v_view_number (ViewSyncFinalizeVote2_to_vote fv) = v_view_number fv"
  "c_view_number (to_dac dc) = c_view_number dc" "c_view_number (pre_commit_to_vsc pc) = c_view_number pc"
  "c_view_number (commit_to_vsc cc) = c_view_number cc" "c_view_number (finalize_to_vsc fc) = c_view_number fc"
  "da_view_number (da_proposal_to_1 d) = da2_view_number d" "qp_view_number (qp2_to_qp q) = q2_view_number q"
  by (simp_all add: QuorumVote2_to_vote_def DaVote2_to_vote_def TimeoutVote2_to_vote_def ViewSyncPreCommitVote2_to_vote_def ViewSyncCommitVote2_to_vote_def
      ViewSyncFinalizeVote2_to_vote_def to_dac_def pre_commit_to_vsc_def commit_to_vsc_def finalize_to_vsc_def vote_with_def cert_with_def
      da_proposal_to_1_def qp2_to_qp_def)

lemma convert_proposal_simps [simp]:
  "pr_data (convert_proposal f p) = f (pr_data p)" "pr_signature (convert_proposal f p) = pr_signature p"
  "convert_proposal g (convert_proposal f p) = convert_proposal (\<lambda>x. g (f x)) p"
  by (cases p; simp add: convert_proposal_def)+

lemma convert_proposal_id [simp]: "f (pr_data p) = pr_data p \<Longrightarrow> convert_proposal f p = p"
  by (cases p) (simp add: convert_proposal_def)

lemma proposal_downgrades:
  assumes "proposal_fits (qw_proposal w)"
  shows "qp_to_wrapper (wrapper_to_qp w) = w"
proof -
  have "map_option (\<lambda>x. to_evidence2 (to_evidence x)) (q2_view_change_evidence (qw_proposal w)) = q2_view_change_evidence (qw_proposal w)"
    using assms by (auto simp: proposal_fits_def evidence_fits_def cert_downgrades split: option.splits ViewChangeEvidence2.splits)
  then show ?thesis using assms
    by (cases w; cases "qw_proposal w") (simp add: qp_to_wrapper_def wrapper_to_qp_def qp_to_qp2_def qp2_to_qp_def proposal_fits_def cert_downgrades option.map_comp comp_def)
qed

lemma da_proposal_downgrades: "da2_epoch p = None \<Longrightarrow> da_proposal_to_2 (da_proposal_to_1 p) = p"
  by (cases p) (simp add: da_proposal_to_2_def da_proposal_to_1_def)

lemma wrapper_new_format: "qp2_to_wrapper (wrapper_to_qp2 w) = w" "q2_view_number (wrapper_to_qp2 w) = q2_view_number (qw_proposal w)"
  "qp_view_number (wrapper_to_qp w) = q2_view_number (qw_proposal w)"
  by (simp_all add: qp2_to_wrapper_def wrapper_to_qp2_def wrapper_to_qp_def old_views)

lemma to_leader_eq: "to_leader a k kind view e s = Some (Ok (Some (a', k', kind', tr)), s1, out) \<longleftrightarrow>
    (\<exists>l. leader (sh_membership s) view (e s) = Ok l \<and> a' = a \<and> k' = k \<and> kind' = kind \<and> tr = Direct l \<and> s1 = s \<and> out = [])"
  by (auto simp: to_leader_def andThen_def gets_def or_return_def ret_def lift_def split: result.splits)

lemma handle_message_consensus:
  "handle_message L E \<lparr>msg_sender = k, msg_kind = ConsensusMsg (General g)\<rparr> r =
     Some (Ok (), r, case general_event (epochs_enabled (e_versions E) (sh_upgrade_lock r)) k g of None \<Rightarrow> [] | Some ev \<Rightarrow> [Internal ev])"
  "handle_message L E \<lparr>msg_sender = k, msg_kind = ConsensusMsg (DaMsg d)\<rparr> r =
     Some (Ok (), r, case da_event (epochs_enabled (e_versions E) (sh_upgrade_lock r)) k d of None \<Rightarrow> [] | Some ev \<Rightarrow> [Internal ev])"
  by (simp_all add: handle_message_def andThen_def gets_def ret_def broadcast_event_def emit_def split: option.split)

lemma handle_message_data:
  "handle_message L E \<lparr>msg_sender = k, msg_kind = DataMsg (DataResponse (Found (DaMsg (VidDisperseMsg p0))))\<rparr> r =
     Some (Ok (), r, [Internal (VidResponseRecv k (convert_proposal ShareV0 p0))])"
  "handle_message L E \<lparr>msg_sender = k, msg_kind = DataMsg (DataResponse (Found (DaMsg (VidDisperseMsg2 p1))))\<rparr> r =
     Some (Ok (), r, [Internal (VidResponseRecv k (convert_proposal ShareV1 p1))])"
  "handle_message L E \<lparr>msg_sender = k, msg_kind = DataMsg (RequestData rq)\<rparr> r =
     Some (Ok (), r, case dr_request rq of VidRequest _ _ \<Rightarrow> [Internal (VidRequestRecv rq k)] | _ \<Rightarrow> [])"
  by (simp_all add: handle_message_def andThen_def gets_def ret_def broadcast_event_def emit_def split: RequestKind.split)

lemma convert_share:
  "pr_data p = ShareV0 d0 \<Longrightarrow> convert_proposal ShareV0 \<lparr>pr_data = d0, pr_signature = pr_signature p\<rparr> = p"
  "pr_data p = ShareV1 d1 \<Longrightarrow> convert_proposal ShareV1 \<lparr>pr_data = d1, pr_signature = pr_signature p\<rparr> = p"
  by (cases p; simp add: convert_proposal_def)+

lemma handle_message_parsed:
  assumes "parse_event L E ev s = Some (Ok (Some (a, k, kind, tr)), s1, out)" and "received_as ev = Some ev'"
    and "sh_upgrade_lock r = sh_upgrade_lock s"
    and "fits_old_format ev \<or> epochs_enabled (e_versions E) (sh_upgrade_lock s) (the (event_view ev))"
  shows "handle_message L E \<lparr>msg_sender = k, msg_kind = kind\<rparr> r = Some (Ok (), r, [Internal ev'])"
  using assms
  by (cases ev)
    (auto simp: parse_event_defs andThen_def gets_def ret_def to_leader_eq received_as_def general_message_def da_message_def
      handle_message_consensus in_format_def vote_downgrades cert_downgrades old_views fits_old_format_def proposal_downgrades
      da_proposal_downgrades wrapper_new_format handle_message_data convert_share
      split: if_splits VidDisperseShare.splits RequestKind.splits)

text \<open>
  C22. An event that is put on the wire reaches a node that has decided the same upgrade as the corresponding
  event, with the same contents: the message is serialized, read back and turned into that event.  Before epochs
  are enabled the contents must fit the old format.
\<close>

theorem network_roundtrip:
  assumes "wire_ok (nl_wire L)" and "parse_event L E ev s = Some (Ok (Some (a, k, kind, tr)), s1, out)"
    and "lock_serialize (e_versions E) (nl_wire L) (sh_upgrade_lock s) \<lparr>msg_sender = k, msg_kind = kind\<rparr> = Ok bs"
    and "received_as ev = Some ev'" and "sh_upgrade_lock r = sh_upgrade_lock s"
    and "fits_old_format ev \<or> epochs_enabled (e_versions E) (sh_upgrade_lock s) (the (event_view ev))"
  shows "\<exists>m. lock_deserialize (e_versions E) (nl_wire L) (sh_upgrade_lock r) bs = Ok m \<and> handle_message L E m r = Some (Ok (), r, [Internal ev'])"
  using serialize_reads_back [OF assms(1,3)] handle_message_parsed [OF assms(2,4-6)] assms(5) by auto

definition wire_vote :: "u64 \<Rightarrow> bytes \<Rightarrow> QuorumVote2" where
  "wire_vote view leaf = \<lparr>v_signature = (1, 1), v_data = QuorumData2 leaf None, v_view_number = view\<rparr>"

text \<open>A wire for the votes of node 1 with a one byte commitment.\<close>

definition vote_message :: "u64 \<Rightarrow> bytes \<Rightarrow> Message" where
  "vote_message view leaf = \<lparr>msg_sender = 1, msg_kind = ConsensusMsg (General (VoteMsg (QuorumVote2_to_vote (wire_vote view leaf))))\<rparr>"

definition vote_wire :: "Message wire" where
  "vote_wire = \<lparr>
     wire_serialize = (\<lambda>ver m. if ver = Version 0 1 \<and> m = vote_message 1 [7] then Some [1, 7] else None),
     wire_deserialize = (\<lambda>ver bs. if bs = [1, 7] then Some (vote_message 1 [7]) else None),
     wire_version = (\<lambda>bs. if bs = [1, 7] then Some (Version 0 1) else None),
     wire_view_number = message_view\<rparr>"

definition toy_network_lib :: network_lib where
  "toy_network_lib = \<lparr>nl_wire = vote_wire, nl_cache_put = (\<lambda>h c. (h # c, h \<in> set c)), nl_hash = word_of_nat\<rparr>"

definition toy_network_state :: NetworkEventTaskState where
  "toy_network_state = shared.extend (toy_shared (genesis_consensus inj_crypto)) \<lparr>ne_view = 1, ne_epoch = None, ne_transmit_tasks = [], ne_vid_tasks = []\<rparr>"

definition toy_receiver :: NetworkMessageTaskState where
  "toy_receiver = shared.extend (toy_shared (genesis_consensus inj_crypto)) \<lparr>nm_transactions_cache = []\<rparr>"

lemmas toy_network_simps = toy_network_state_def toy_receiver_def shared.defs toy_shared_def toy_env_def toy_network_lib_def

lemma vote_parsed:
  assumes "sh_upgrade_lock s = UpgradeLock None"
  shows "parse_event toy_network_lib toy_env (ExtendedQuorumVoteSend (wire_vote view leaf)) s =
     Some (Ok (Some (Some Vote, 1, ConsensusMsg (General (VoteMsg (QuorumVote2_to_vote (wire_vote view leaf)))), Broadcast)), s, [])"
  using assms
  by (simp add: parse_event_defs exec_simps general_message_def signing_key_def wire_vote_def toy_env_def epochs_enabled_def version_infallible_def toy_versions_def
      word_le_nat_alt)

lemma vote_serialized:
  "lock_serialize toy_versions vote_wire (UpgradeLock None) (vote_message 1 [7]) = Ok [1, 7]"
  by (simp add: lock_serialize_def toy_versions_def vote_wire_def version_def)

theorem network_roundtrip_witness:
  "\<exists>m. lock_deserialize toy_versions vote_wire (UpgradeLock None) [1, 7] = Ok m \<and>
     handle_message toy_network_lib toy_env m toy_receiver = Some (Ok (), toy_receiver, [Internal (QuorumVoteRecv (wire_vote 1 [7]))])"
proof -
  have wire: "wire_ok (nl_wire toy_network_lib)" by (simp add: wire_ok_def toy_network_lib_def vote_wire_def)
  have lock: "sh_upgrade_lock toy_network_state = UpgradeLock None" by (simp add: toy_network_simps)
  have ser: "lock_serialize (e_versions toy_env) (nl_wire toy_network_lib) (sh_upgrade_lock toy_network_state)
      \<lparr>msg_sender = 1, msg_kind = ConsensusMsg (General (VoteMsg (QuorumVote2_to_vote (wire_vote 1 [7]))))\<rparr> = Ok [1, 7]"
    using vote_serialized by (simp add: toy_network_simps vote_message_def)
  show ?thesis
    using network_roundtrip [OF wire vote_parsed [OF lock, of 1 "[7]"] ser, of "QuorumVoteRecv (wire_vote 1 [7])" toy_receiver]
    by (simp add: received_as_def fits_old_format_def wire_vote_def toy_network_simps)
qed

section \<open>Actions on the wire\<close>

text \<open>A node's spawned tasks run in any order and interleaved with other tasks of the node.\<close>

datatype net_step = NetEvent HotShotEvent | NetTransmit u64 nat | NetVid nat | NetOther "cons_op list" | NetUpgrade UpgradeLock

definition remove_nth :: "nat \<Rightarrow> 'a list \<Rightarrow> 'a list" where
  "remove_nth i xs = take i xs @ drop (Suc i) xs"

definition on_wire :: "((transmission, error) result \<times> 's \<times> effect list) option \<Rightarrow> ('s \<times> transmission list) option" where
  "on_wire res = map_option (\<lambda>(r, s, _). (s, case r of Ok t \<Rightarrow> [t] | _ \<Rightarrow> [])) res"

primrec net_run_step :: "network_lib \<Rightarrow> env \<Rightarrow> net_step \<Rightarrow> NetworkEventTaskState \<Rightarrow> (NetworkEventTaskState \<times> transmission list) option" where
  "net_run_step L E (NetEvent ev) s = map_option (\<lambda>(s1, _). (s1, [])) (perform (ne_handle L E ev) s)"
| "net_run_step L E (NetTransmit view i) s =
     (case bt_get view (ne_transmit_tasks s) of
        None \<Rightarrow> Some (s, [])
      | Some ts \<Rightarrow>
          if i < length ts
          then on_wire (transmit_message L E (ts ! i) (s\<lparr>ne_transmit_tasks := bt_insert view (remove_nth i ts) (ne_transmit_tasks s)\<rparr>))
          else Some (s, []))"
| "net_run_step L E (NetVid i) s =
     (if i < length (ne_vid_tasks s)
      then on_wire (transmit_vid E (ne_vid_tasks s ! i) (s\<lparr>ne_vid_tasks := remove_nth i (ne_vid_tasks s)\<rparr>))
      else Some (s, []))"
| "net_run_step L E (NetOther as) s =
     map_option (\<lambda>c. (s\<lparr>sh_consensus := c\<rparr>, [])) (run_steps (cons_apply (e_crypto E)) as (sh_consensus s))"
| "net_run_step L E (NetUpgrade l) s = Some (s\<lparr>sh_upgrade_lock := l\<rparr>, [])"

text \<open>The action that a message stands for, with its view; timeout votes count as votes.\<close>

definition message_action :: "Message \<Rightarrow> (HotShotAction \<times> u64) option" where
  "message_action m =
     (case msg_kind m of
        ConsensusMsg (General (VoteMsg v)) \<Rightarrow> Some (Vote, v_view_number v)
      | ConsensusMsg (General (Vote2Msg v)) \<Rightarrow> Some (Vote, v_view_number v)
      | ConsensusMsg (General (TimeoutVoteMsg v)) \<Rightarrow> Some (Vote, v_view_number v)
      | ConsensusMsg (General (TimeoutVote2Msg v)) \<Rightarrow> Some (Vote, v_view_number v)
      | ConsensusMsg (General (ProposalMsg p)) \<Rightarrow> Some (Propose, qp_view_number (pr_data p))
      | ConsensusMsg (General (Proposal2Msg p)) \<Rightarrow> Some (Propose, q2_view_number (pr_data p))
      | ConsensusMsg (DaMsg (DaProposalMsg p)) \<Rightarrow> Some (DaPropose, da_view_number (pr_data p))
      | ConsensusMsg (DaMsg (DaProposal2Msg p)) \<Rightarrow> Some (DaPropose, da2_view_number (pr_data p))
      | _ \<Rightarrow> None)"

fun sent_action :: "transmission \<Rightarrow> (HotShotAction \<times> u64) option" where
  "sent_action (DirectMessage m _ _) = message_action m"
| "sent_action (BroadcastMessage m _ _) = message_action m"
| "sent_action (DaBroadcastMessage m _ _ _) = message_action m"
| "sent_action (VidBroadcastMessage _) = None"

definition sent_views :: "HotShotAction \<Rightarrow> transmission list \<Rightarrow> u64 list" where
  "sent_views a out = concat (map (\<lambda>t. case sent_action t of Some (a', v) \<Rightarrow> if a' = a then [v] else [] | None \<Rightarrow> []) out)"

definition limited :: "HotShotAction set" where
  "limited = {Vote, Propose, DaPropose}"

definition action_level :: "HotShotAction \<Rightarrow> 'a shared_scheme \<Rightarrow> u64" where
  "action_level a s =
     (let l = last_actions (sh_consensus s) in case a of Vote \<Rightarrow> voted l | Propose \<Rightarrow> proposed l | DaPropose \<Rightarrow> da_proposed l | _ \<Rightarrow> 0)"

lemma forward_level: "forward (sh_consensus s) (sh_consensus s') \<Longrightarrow> action_level a s \<le> action_level a s'"
  by (cases a) (simp_all add: action_level_def forward_def)

lemma maybe_record_action_sends:
  fixes s :: NetworkEventTaskState
  assumes "a \<in> limited"
  shows "wp (maybe_record_action E act v e) (\<lambda>r s1 out. action_level a s \<le> action_level a s1 \<and> set (sh_storage s) \<subseteq> set (sh_storage s1) \<and>
     ne_transmit_tasks s1 = ne_transmit_tasks s \<and>
     (r = Ok () \<longrightarrow> act = Some a \<longrightarrow> action_level a s < v \<and> action_level a s1 = v \<and> Record_action v e a \<in> set (sh_storage s1))) s"
proof (cases act)
  case (Some a')
  then show ?thesis using assms
    by (cases a') (auto simp: maybe_record_action_def wp_def andThen_def seq_def grant_action_def guard_def lift_def ensure_def store_def
        limited_def action_level_def)
qed (simp add: maybe_record_action_def wp_simps)

text \<open>A task for a message has the action of the message.\<close>

definition task_wf :: "transmit_task \<Rightarrow> bool" where
  "task_wf t \<longleftrightarrow> (\<forall>a v. message_action (tt_message t) = Some (a, v) \<longrightarrow> tt_action t = Some a \<and> tt_view t = v)"

definition tasks_wf :: "NetworkEventTaskState \<Rightarrow> bool" where
  "tasks_wf s \<longleftrightarrow> (\<forall>(v, ts) \<in> set (ne_transmit_tasks s). \<forall>t \<in> set ts. task_wf t)"

lemma parse_event_wf:
  "wp (parse_event L E ev) (\<lambda>r s1 out. (tasks_wf s \<longrightarrow> tasks_wf s1) \<and> sh_consensus s1 = sh_consensus s \<and> sh_storage s1 = sh_storage s \<and>
     (\<forall>action k kind tr a v. r = Ok (Some (action, k, kind, tr)) \<longrightarrow> message_action \<lparr>msg_sender = k, msg_kind = kind\<rparr> = Some (a, v) \<longrightarrow>
        action = Some a \<and> kind_view kind = v)) s"
  by (cases ev)
    (auto simp: parse_event_defs wp_simps to_leader_def message_action_def general_message_def da_message_def handle_vid_disperse_proposal_def
      ne_cancel_tasks_def tasks_wf_def bt_split_off_def Let_def split: result.splits option.splits VidDisperseShare.splits)

lemma transmit_message_sends:
  fixes s :: NetworkEventTaskState
  assumes a: "a \<in> limited" and t: "task_wf t"
  shows "wp (transmit_message L E t) (\<lambda>r s1 out. action_level a s \<le> action_level a s1 \<and> set (sh_storage s) \<subseteq> set (sh_storage s1) \<and>
     ne_transmit_tasks s1 = ne_transmit_tasks s \<and>
     (\<forall>tr v. r = Ok tr \<longrightarrow> sent_action tr = Some (a, v) \<longrightarrow>
        action_level a s < v \<and> v \<le> action_level a s1 \<and> (\<exists>e. Record_action v e a \<in> set (sh_storage s1)))) s"
  unfolding transmit_message_def
proof (rule wp_seqI [OF maybe_record_action_sends [OF a]], goal_cases)
  case (1 u s1 out)
  note recorded = 1
  define stored where "stored = (\<lambda>(r :: (unit, error) result) (s2 :: NetworkEventTaskState) (o2 :: effect list). sh_consensus s2 = sh_consensus s1 \<and>
      ne_transmit_tasks s2 = ne_transmit_tasks s1 \<and> set (sh_storage s1) \<subseteq> set (sh_storage s2))"
  have "wp (case msg_kind (tt_message t) of
            ConsensusMsg (General (ProposalMsg p)) \<Rightarrow> store E (Append_proposal (convert_proposal qp_to_wrapper p))
          | _ \<Rightarrow> ret ()) stored s1"
    by (auto simp: wp_simps stored_def split: MessageKind.split SequencingMessage.split GeneralConsensusMessage.split)
  then show ?case
  proof (rule wp_seqI, goal_cases)
    case (1 u' s2 out2)
    have "action_level a s2 = action_level a s1" using 1 by (simp add: action_level_def stored_def)
    moreover have "message_action (tt_message t) = Some (a, v) \<Longrightarrow> tt_action t = Some a \<and> tt_view t = v" for v
      using t by (simp add: task_wf_def)
    ultimately show ?case using 1 recorded
      by (auto simp: wp_simps stored_def split: result.splits TransmitType.splits)
  qed (use 1 in \<open>auto simp: stored_def action_level_def\<close>)
qed auto

lemma transmit_vid_sends:
  fixes s :: NetworkEventTaskState
  assumes "a \<in> limited"
  shows "wp (transmit_vid E t) (\<lambda>r s1 out. action_level a s \<le> action_level a s1 \<and> set (sh_storage s) \<subseteq> set (sh_storage s1) \<and>
     ne_transmit_tasks s1 = ne_transmit_tasks s \<and> (\<forall>tr. r = Ok tr \<longrightarrow> sent_action tr = None)) s"
  unfolding transmit_vid_def by (rule wp_seqI [OF maybe_record_action_sends [OF assms]]) (auto simp: wp_simps)

definition sends_ok :: "HotShotAction \<Rightarrow> NetworkEventTaskState \<Rightarrow> NetworkEventTaskState \<Rightarrow> transmission list \<Rightarrow> bool" where
  "sends_ok a s s1 out \<longleftrightarrow> tasks_wf s1 \<and> action_level a s \<le> action_level a s1 \<and> set (sh_storage s) \<subseteq> set (sh_storage s1) \<and>
     sorted_wrt (<) (sent_views a out) \<and>
     (\<forall>v \<in> set (sent_views a out). action_level a s < v \<and> v \<le> action_level a s1 \<and> (\<exists>e. Record_action v e a \<in> set (sh_storage s1)))"

lemma sends_ok_append:
  assumes "sends_ok a s s1 out1" and "sends_ok a s1 s2 out2"
  shows "sends_ok a s s2 (out1 @ out2)"
proof -
  have views: "sent_views a (out1 @ out2) = sent_views a out1 @ sent_views a out2" by (simp add: sent_views_def)
  have "v < w" if "v \<in> set (sent_views a out1)" "w \<in> set (sent_views a out2)" for v w
    using assms that unfolding sends_ok_def by (meson le_less_trans)
  moreover have "v \<le> action_level a s2" if "v \<in> set (sent_views a out1)" for v
    using assms that unfolding sends_ok_def by (meson order.trans)
  moreover have "action_level a s < v" if "v \<in> set (sent_views a out2)" for v
    using assms that unfolding sends_ok_def by (meson le_less_trans)
  moreover have "\<exists>e. Record_action v e a \<in> set (sh_storage s2)" if "v \<in> set (sent_views a out1)" for v
    using assms that unfolding sends_ok_def by (meson subsetD)
  ultimately show ?thesis using assms unfolding sends_ok_def views by (auto simp: sorted_wrt_append intro: order.trans)
qed

lemma on_wire_ok:
  assumes "wp h (\<lambda>r s1 out. action_level a s \<le> action_level a s1 \<and> set (sh_storage s) \<subseteq> set (sh_storage s1) \<and>
      ne_transmit_tasks s1 = ne_transmit_tasks s0 \<and>
      (\<forall>tr v. r = Ok tr \<longrightarrow> sent_action tr = Some (a, v) \<longrightarrow>
        action_level a s < v \<and> v \<le> action_level a s1 \<and> (\<exists>e. Record_action v e a \<in> set (sh_storage s1)))) s0"
    and "on_wire (h s0) = Some (s1, out)" and "tasks_wf s0"
  shows "sends_ok a s s1 out"
proof -
  obtain r out0 where r: "h s0 = Some (r, s1, out0)" "out = (case r of Ok t \<Rightarrow> [t] | _ \<Rightarrow> [])"
    using assms(2) by (auto simp: on_wire_def)
  then show ?thesis using assms(1,3)
    by (cases r) (auto simp: wp_def sends_ok_def sent_views_def tasks_wf_def split: option.splits)
qed

lemma net_run_step_ok:
  assumes a: "a \<in> limited" and wf: "tasks_wf s" and step: "net_run_step L E st s = Some (s1, out)"
  shows "sends_ok a s s1 out"
proof (cases st)
  case (NetEvent ev)
  have "wp (ne_handle L E ev) (\<lambda>r s1 out. tasks_wf s1 \<and> sh_consensus s1 = sh_consensus s \<and> sh_storage s1 = sh_storage s) s"
    unfolding ne_handle_def
  proof (rule wp_andThenI [OF parse_event_wf], goal_cases)
    case (1 p s2 out2)
    show ?case
    proof (cases p)
      case (Some q)
      obtain action k kind tr where q: "q = (action, k, kind, tr)" by (metis prod_cases4)
      define t where "t = \<lparr>tt_action = action, tt_view = kind_view kind, tt_epoch = kind_epoch kind, tt_message = \<lparr>msg_sender = k, msg_kind = kind\<rparr>,
             tt_transmit = tr, tt_da_committee = m_da_committee_members (sh_membership s2) (kind_view kind) (ne_epoch s2), tt_delay = broadcast_delay kind\<rparr>"
      have t: "task_wf t" using 1 Some q by (simp add: task_wf_def t_def)
      have "\<forall>x \<in> set ts. task_wf x" if "bt_get v (ne_transmit_tasks s2) = Some ts" for v ts
        using that 1 wf by (auto simp: tasks_wf_def bt_get_def dest!: map_of_SomeD)
      then show ?thesis using 1 wf t
        by (auto simp: Some q wp_simps spawn_transmit_task_def Let_def t_def [symmetric] tasks_wf_def dest!: in_bt_insert split: option.splits)
    qed (use 1 wf in \<open>simp add: wp_simps\<close>)
  qed (use wf in auto)
  from perform_wp [OF _ this] step NetEvent show ?thesis
    by (auto simp: sends_ok_def sent_views_def action_level_def)
next
  case (NetTransmit view i)
  show ?thesis
  proof (cases "\<exists>ts. bt_get view (ne_transmit_tasks s) = Some ts \<and> i < length ts")
    case True
    then obtain ts where ts: "bt_get view (ne_transmit_tasks s) = Some ts" "i < length ts" by blast
    define s0 where "s0 = s\<lparr>ne_transmit_tasks := bt_insert view (remove_nth i ts) (ne_transmit_tasks s)\<rparr>"
    have all: "\<forall>t \<in> set ts. task_wf t" using ts(1) wf by (auto simp: tasks_wf_def bt_get_def dest!: map_of_SomeD)
    then have "\<forall>t \<in> set (remove_nth i ts). task_wf t" by (auto simp: remove_nth_def dest: in_set_takeD in_set_dropD)
    then have wf0: "tasks_wf s0" using wf by (auto simp: s0_def tasks_wf_def dest!: in_bt_insert)
    have "wp (transmit_message L E (ts ! i)) (\<lambda>r s1 out. action_level a s \<le> action_level a s1 \<and> set (sh_storage s) \<subseteq> set (sh_storage s1) \<and>
      ne_transmit_tasks s1 = ne_transmit_tasks s0 \<and>
      (\<forall>tr v. r = Ok tr \<longrightarrow> sent_action tr = Some (a, v) \<longrightarrow>
        action_level a s < v \<and> v \<le> action_level a s1 \<and> (\<exists>e. Record_action v e a \<in> set (sh_storage s1)))) s0"
      using transmit_message_sends [OF a, of "ts ! i" L E s0] all ts(2) by (simp add: s0_def action_level_def)
    then show ?thesis using step ts wf0 by (intro on_wire_ok [of _ _ _ s0]) (simp_all add: NetTransmit s0_def)
  qed (use step wf NetTransmit in \<open>auto simp: sends_ok_def sent_views_def split: option.splits\<close>)
next
  case (NetVid i)
  show ?thesis
  proof (cases "i < length (ne_vid_tasks s)")
    case True
    define s0 where "s0 = s\<lparr>ne_vid_tasks := remove_nth i (ne_vid_tasks s)\<rparr>"
    have "wp (transmit_vid E (ne_vid_tasks s ! i)) (\<lambda>r s1 out. action_level a s \<le> action_level a s1 \<and> set (sh_storage s) \<subseteq> set (sh_storage s1) \<and>
      ne_transmit_tasks s1 = ne_transmit_tasks s0 \<and>
      (\<forall>tr v. r = Ok tr \<longrightarrow> sent_action tr = Some (a, v) \<longrightarrow>
        action_level a s < v \<and> v \<le> action_level a s1 \<and> (\<exists>e. Record_action v e a \<in> set (sh_storage s1)))) s0"
      by (rule wp_mono [OF transmit_vid_sends [OF a, of E "ne_vid_tasks s ! i" s0]]) (auto simp: s0_def action_level_def)
    then show ?thesis using step True wf by (intro on_wire_ok [of _ _ _ s0]) (simp_all add: NetVid s0_def tasks_wf_def)
  qed (use step wf NetVid in \<open>auto simp: sends_ok_def sent_views_def\<close>)
next
  case (NetOther as)
  then obtain c where c: "run_steps (cons_apply (e_crypto E)) as (sh_consensus s) = Some c" "s1 = s\<lparr>sh_consensus := c\<rparr>" "out = []" using step by auto
  then have "action_level a s \<le> action_level a s1" using cm.run_le [OF c(1)] by (intro forward_level) simp
  then show ?thesis using wf c by (simp add: sends_ok_def sent_views_def tasks_wf_def)
next
  case (NetUpgrade l)
  then have "s1 = s\<lparr>sh_upgrade_lock := l\<rparr>" "out = []" using step by auto
  then show ?thesis using wf by (simp add: sends_ok_def sent_views_def tasks_wf_def action_level_def)
qed


text \<open>Two votes of the same view wait to be sent; the second one is refused.\<close>

definition vote_steps :: "net_step list" where
  "vote_steps = [NetEvent (ExtendedQuorumVoteSend (wire_vote 1 [7])), NetEvent (ExtendedQuorumVoteSend (wire_vote 1 [9])), NetTransmit 1 0, NetTransmit 1 0]"

lemma vote_steps_run:
  "\<exists>s'. run_effects (net_run_step toy_network_lib toy_env) vote_steps toy_network_state = Some (s', [BroadcastMessage (vote_message 1 [7]) [1, 7] (DelayView 1)])"
proof -
  let ?task = "\<lambda>b. \<lparr>tt_action = Some Vote, tt_view = 1, tt_epoch = None, tt_message = vote_message 1 [b], tt_transmit = Broadcast,
    tt_da_committee = m_da_committee_members toy_membership 1 None, tt_delay = DelayView 1\<rparr>"
  let ?s1 = "toy_network_state\<lparr>ne_transmit_tasks := [(1, [?task 7])]\<rparr>"
  let ?s2 = "toy_network_state\<lparr>ne_transmit_tasks := [(1, [?task 7, ?task 9])]\<rparr>"
  obtain c c' where grant: "update_action Vote 1 (genesis_consensus inj_crypto) = (c, True)" "update_action Vote 1 c = (c', False)"
    by (simp add: genesis_consensus_def consensus_new_def actions_from_view_def)
  let ?s3 = "toy_network_state\<lparr>ne_transmit_tasks := [(1, [?task 9])], sh_consensus := c, sh_storage := [Record_action 1 None Vote]\<rparr>"
  have event: "net_run_step toy_network_lib toy_env (NetEvent (ExtendedQuorumVoteSend (wire_vote 1 [b]))) (toy_network_state\<lparr>ne_transmit_tasks := ts\<rparr>) =
      Some (toy_network_state\<lparr>ne_transmit_tasks := bt_insert 1 ((case bt_get 1 ts of Some xs \<Rightarrow> xs | None \<Rightarrow> []) @ [?task b]) ts\<rparr>, [])" for b ts
  proof -
    have "sh_upgrade_lock (toy_network_state\<lparr>ne_transmit_tasks := ts\<rparr>) = UpgradeLock None" by (simp add: toy_network_simps)
    from vote_parsed [OF this] show ?thesis
      by (simp add: ne_handle_def perform_def andThen_def modify_def spawn_transmit_task_def broadcast_delay_def Let_def
        toy_network_simps vote_message_def wire_vote_def QuorumVote2_to_vote_def vote_with_def)
  qed
  have 1: "net_run_step toy_network_lib toy_env (NetEvent (ExtendedQuorumVoteSend (wire_vote 1 [7]))) toy_network_state = Some (?s1, [])"
    using event [of 7 "[]"] by (simp add: toy_network_simps bt_get_def)
  have 2: "net_run_step toy_network_lib toy_env (NetEvent (ExtendedQuorumVoteSend (wire_vote 1 [9]))) ?s1 = Some (?s2, [])"
    using event [of 9 "[(1, [?task 7])]"] by (simp add: bt_get_def)
  have kinds: "msg_kind (vote_message 1 [b]) = ConsensusMsg (General (VoteMsg (QuorumVote2_to_vote (wire_vote 1 [b]))))" for b
    by (simp add: vote_message_def)
  have 3: "net_run_step toy_network_lib toy_env (NetTransmit 1 0) ?s2 = Some (?s3, [BroadcastMessage (vote_message 1 [7]) [1, 7] (DelayView 1)])"
    using grant(1) vote_serialized
    by (simp add: on_wire_def transmit_message_def maybe_record_action_def grant_action_def andThen_def seq_def guard_def ret_def check_state_def lift_def store_def
        toy_network_simps remove_nth_def bt_get_def kinds del: update_action.simps)
  have 4: "\<exists>s'. net_run_step toy_network_lib toy_env (NetTransmit 1 0) ?s3 = Some (s', [])"
    using grant(2)
    by (simp add: on_wire_def transmit_message_def maybe_record_action_def grant_action_def andThen_def seq_def guard_def ret_def fail_def lift_def
        toy_network_simps remove_nth_def bt_get_def case_prod_beta Let_def del: update_action.simps)
  then show ?thesis using 1 2 3 by (auto simp: vote_steps_def)
qed


end
