(* ===== verification/Availability.thy ===== *)
theory Availability
  imports VoteCollection
begin

text \<open>
  Data availability: the tasks of \<open>crates/task-impls/src/da.rs\<close> and \<open>crates/task-impls/src/vid.rs\<close>.  The leader of a view
  sends the transactions to the DA committee and disperses shares of them to everyone; members of the committee store
  the transactions and vote for their commitment; the leader collects the votes.
  Whether the primary network is down is given; the task that is spawned then is a handler of its own.
\<close>

section \<open>The DA task\<close>

record DaTaskState = shared +
  da_cur_view :: u64
  da_cur_epoch :: "epoch option"
  da_vote_collectors :: vote_collectors

definition da_proposal_recv :: "env \<Rightarrow> DaProposal2 Proposal \<Rightarrow> pubkey \<Rightarrow> (DaTaskState, unit) handler" where
  "da_proposal_recv E proposal sndr =
     (let p = pr_data proposal; view = da2_view_number p in
      seq (check_state (\<lambda>s. ensure (da_cur_view s \<le> view + 1)
        (Error Unspecified [''Throwing away DA proposal that is more than one view older''])))
     (seq (check_state (\<lambda>s. case bt_get view (saved_payloads (sh_consensus s)) of
          Some payload \<Rightarrow> ensure (encode payload = da2_encoded_transactions p)
            (Error ErrorLevel [''Received DA proposal but we already have a payload for that view and they are not identical. Throwing it away''])
        | None \<Rightarrow> Ok ()))
     (andThen (check_state (\<lambda>s. leader (sh_membership s) view (da2_epoch p))) (\<lambda>view_leader_key.
      seq (guard (view_leader_key = sndr) (Error Warn [''DA proposal doesn't have expected leader key'']))
     (seq (guard (key_validate (e_crypto E) view_leader_key (pr_signature proposal) (e_sha256 E (da2_encoded_transactions p)))
        (Error Warn [''Could not verify proposal.'']))
          (broadcast_event (DaProposalValidated proposal sndr)))))))"

definition vid_target_epoch :: "membership \<Rightarrow> pubkey \<Rightarrow> epoch option \<Rightarrow> (epoch option, error) result" where
  "vid_target_epoch m public_key proposal_epoch =
     (let next_epoch = map_option (\<lambda>e. e + 1) proposal_epoch in
      if m_has_stake m public_key proposal_epoch then Ok proposal_epoch
      else if m_has_stake m public_key next_epoch then Ok next_epoch
      else Err (Error Unspecified [''Not calculating VID, the node doesn't belong to the current epoch or the next epoch.'']))"

definition da_proposal_validated :: "env \<Rightarrow> bool \<Rightarrow> DaProposal2 Proposal \<Rightarrow> pubkey \<Rightarrow> (DaTaskState, unit) handler" where
  "da_proposal_validated E primary_down proposal sndr =
     (let p = pr_data proposal; view_number = da2_view_number p; epoch_number = da2_epoch p in
      seq (check_state (\<lambda>s. ensure (cur_view (sh_consensus s) \<le> view_number + 1)
        (Error Debug [''Validated DA proposal for prior view but it's too old now''])))
     (seq (notify view_number (DaProposalEvent proposal sndr))
     (seq (check_state (\<lambda>s. ensure (m_has_da_stake (sh_membership s) (sh_public_key s) epoch_number)
        (Error Debug [''We were not chosen for consensus committee''])))
     (andThen (check_state (\<lambda>s. vid_commitment (e_vid E) (da2_encoded_transactions p) (m_total_nodes (sh_membership s) epoch_number)
        (version_infallible (e_versions E) (sh_upgrade_lock s) view_number))) (\<lambda>pc.
      seq (contextual (Error ErrorLevel [''Failed to append DA proposal to storage'']) (store E (Append_da proposal pc)))
     (andThen (check_state (\<lambda>s. create_signed_vote (finalize (e_crypto E)) (e_versions E) (commit_DaData2 (finalize (e_crypto E)))
        (key_sign (e_crypto E) (sh_private_key s)) (DaData2 pc epoch_number) view_number (sh_public_key s) (sh_upgrade_lock s))) (\<lambda>vote.
      seq (broadcast_event (DaVoteSend vote))
     (seq (log_consensus (update_da_view view_number epoch_number pc))
     (seq (log_consensus (update_saved_payloads view_number (from_bytes (e_ops E) (da2_encoded_transactions p) (da2_metadata p))))
          (on_cond primary_down
            (seq (check_state (\<lambda>s. vid_target_epoch (sh_membership s) (sh_public_key s) epoch_number))
                 (emit (Spawn ''calculate_and_update_vid'' view_number)))))))))))))"

text \<open>The spawned task: disperse the saved payload and take this node's own share.\<close>

definition da_vid_task :: "env \<Rightarrow> u64 \<Rightarrow> epoch option \<Rightarrow> ('a shared_scheme, unit) handler" where
  "da_vid_task E view target =
     andThen (check_state (\<lambda>s. calculate_and_update_vid (e_crypto E) (e_vid E) (sh_membership s) (sh_private_key s) view target (sh_consensus s))) (\<lambda>c.
     seq (case c of Some c' \<Rightarrow> with_consensus (\<lambda>_. c') | None \<Rightarrow> ret ())
    (andThen (gets (\<lambda>s. (sh_public_key s, Option.bind (bt_get view (vid_shares (sh_consensus s))) (\<lambda>shares. shares (sh_public_key s))))) (\<lambda>(me, share).
     case share of Some vid_share \<Rightarrow> broadcast_event (VidShareRecv me vid_share) | None \<Rightarrow> ret ())))"

definition da_vote_recv :: "env \<Rightarrow> DaVote2 \<Rightarrow> (DaTaskState, unit) handler" where
  "da_vote_recv E vote =
     (let view = v_view_number vote; e = da_epoch (v_data vote) in
      seq (check_state (\<lambda>s. and_then (leader (sh_membership s) view e) (\<lambda>l.
        if l = sh_public_key s then Ok ()
        else and_then (leader (sh_membership s) (view + 1) e) (\<lambda>_. Err (Error Debug [''We are not the DA committee leader'']))))) 
      (zoom da_vote_collectors (\<lambda>cs s. s\<lparr>da_vote_collectors := cs\<rparr>)
        (\<lambda>s. handle_vote E da_votes (node_of s) vote e (DaVoteRecv vote) NotInTransition)))"

definition da_view_change :: "u64 \<Rightarrow> epoch option \<Rightarrow> (DaTaskState, unit) handler" where
  "da_view_change view e =
     seq (modify (\<lambda>s. if option_less (da_cur_epoch s) e then s\<lparr>da_cur_epoch := e\<rparr> else s))
    (seq (check_state (\<lambda>s. ensure (da_cur_view s < view) (Error Info [''Received a view change to an older view.''])))
         (modify (\<lambda>s. s\<lparr>da_cur_view := view\<rparr>)))"

definition da_block_recv :: "env \<Rightarrow> PackedBundle \<Rightarrow> (DaTaskState, unit) handler" where
  "da_block_recv E b =
     (let view_number = pb_view_number b in
      andThen (check_state (\<lambda>s. ok_or (key_sign (e_crypto E) (sh_private_key s) (e_sha256 E (pb_encoded_transactions b))) (Error Unspecified []))) (\<lambda>signature.
      andThen (check_state (\<lambda>s. leader (sh_membership s) view_number (da_cur_epoch s))) (\<lambda>l.
      andThen (gets (\<lambda>s. (sh_public_key s, da_cur_epoch s))) (\<lambda>(me, e).
      if l \<noteq> me then ret ()
      else seq (broadcast_event (DaProposalSend
             \<lparr>pr_data = \<lparr>da2_encoded_transactions = pb_encoded_transactions b, da2_metadata = pb_metadata b, da2_view_number = view_number, da2_epoch = e\<rparr>,
              pr_signature = signature\<rparr> me))
          (log_consensus (update_saved_payloads view_number (from_bytes (e_ops E) (pb_encoded_transactions b) (pb_metadata b))))))))"

definition da_handle :: "env \<Rightarrow> bool \<Rightarrow> HotShotEvent \<Rightarrow> (DaTaskState, unit) handler" where
  "da_handle E primary_down ev =
     (case ev of
        DaProposalRecv proposal sndr \<Rightarrow> da_proposal_recv E proposal sndr
      | DaProposalValidated proposal sndr \<Rightarrow> da_proposal_validated E primary_down proposal sndr
      | DaVoteRecv vote \<Rightarrow> da_vote_recv E vote
      | ViewChange view e \<Rightarrow> da_view_change view e
      | BlockRecv b \<Rightarrow> da_block_recv E b
      | _ \<Rightarrow> ret ())"

section \<open>The VID task\<close>

record VidTaskState = shared +
  vid_cur_view :: u64
  vid_cur_epoch :: "epoch option"

text \<open>Signing and sending a dispersal.\<close>

definition send_dispersal :: "env \<Rightarrow> VidDisperse \<Rightarrow> (VidTaskState, unit) handler" where
  "send_dispersal E d =
     andThen (gets (\<lambda>s. (sh_public_key s, key_sign (e_crypto E) (sh_private_key s) (ad_payload_commitment (as_advz d))))) (\<lambda>(me, signature).
     case signature of
       None \<Rightarrow> ret ()
     | Some g \<Rightarrow> broadcast_event (VidDisperseSend \<lparr>pr_data = d, pr_signature = g\<rparr> me))"

definition vid_block_recv :: "env \<Rightarrow> PackedBundle \<Rightarrow> (VidTaskState, unit) handler" where
  "vid_block_recv E b =
     (let view_number = pb_view_number b; payload = from_bytes (e_ops E) (pb_encoded_transactions b) (pb_metadata b) in
      andThen (gets (\<lambda>s. leader (sh_membership s) view_number (vid_cur_epoch s))) (\<lambda>l.
      or_return l () (\<lambda>key.
      andThen (gets (\<lambda>s. (sh_public_key s,
        calculate_vid_disperse (e_vid E) (encode payload) (sh_membership s) view_number (vid_cur_epoch s) (vid_cur_epoch s)))) (\<lambda>(me, res).
      if key \<noteq> me then ret ()
      else or_return res () (\<lambda>vid_disperse.
        seq (modify (\<lambda>s. s\<lparr>sh_consensus := fold (\<lambda>share c. case share_to_proposal (e_crypto E) (sh_private_key s) share of
                Some prp \<Rightarrow> update_vid_shares view_number prp c | None \<Rightarrow> c) (from_vid_disperse vid_disperse) (sh_consensus s)\<rparr>))
       (seq (broadcast_event (SendPayloadCommitmentAndMetadata (ad_payload_commitment (as_advz vid_disperse))
               (builder_commitment (e_ops E) payload (pb_metadata b)) (pb_metadata b) view_number (pb_sequencing_fees b) (pb_auction_result b)))
            (send_dispersal E vid_disperse)))))))"

definition vid_view_change :: "u64 \<Rightarrow> epoch option \<Rightarrow> VidTaskState \<Rightarrow> VidTaskState" where
  "vid_view_change view e s0 =
     (let s = (if option_less (vid_cur_epoch s0) e then s0\<lparr>vid_cur_epoch := e\<rparr> else s0) in
      if (view \<noteq> 0 \<or> 0 < vid_cur_view s) \<and> view \<le> vid_cur_view s then s else s\<lparr>vid_cur_view := view\<rparr>)"

text \<open>After a proposal for the last block of an epoch the payload is dispersed to the nodes of the next epoch.\<close>

definition vid_proposal_send :: "env \<Rightarrow> QuorumProposal2 \<Rightarrow> (VidTaskState, unit) handler" where
  "vid_proposal_send E q =
     andThen (gets sh_epoch_height) (\<lambda>eh.
     if q2_epoch q = None then ret ()
     else if eh = 0 then lift Panic
     else if block_number (q2_block_header q) mod eh \<noteq> 0 then ret ()
     else
       let view = q2_view_number q;
           sender_epoch = option_epoch_from_block_number True (block_number (q2_block_header q)) eh in
       andThen (gets (\<lambda>s. (bt_get view (saved_payloads (sh_consensus s)), sh_membership s))) (\<lambda>(payload, m).
       case payload of
         None \<Rightarrow> ret ()
       | Some p \<Rightarrow> or_return (calculate_vid_disperse (e_vid E) (encode p) m view (map_option (\<lambda>x. x + 1) sender_epoch) sender_epoch) ()
           (send_dispersal E)))"

definition vid_handle :: "env \<Rightarrow> HotShotEvent \<Rightarrow> (VidTaskState, unit) handler" where
  "vid_handle E ev =
     (case ev of
        BlockRecv b \<Rightarrow> vid_block_recv E b
      | ViewChange view e \<Rightarrow> modify (vid_view_change view e)
      | QuorumProposalSend p _ \<Rightarrow> vid_proposal_send E (qw_proposal (pr_data p))
      | _ \<Rightarrow> ret ())"

section \<open>Votes of the DA committee\<close>

text \<open>The vote is that of a member of the DA committee for the commitment of the transactions it has stored.\<close>

definition da_vote_backed :: "env \<Rightarrow> HotShotEvent \<Rightarrow> 'a shared_scheme \<Rightarrow> 'a shared_scheme \<Rightarrow> DaVote2 \<Rightarrow> bool" where
  "da_vote_backed E ev s s1 vote \<longleftrightarrow>
     (\<exists>p k pc. ev = DaProposalValidated p k \<and>
        m_has_da_stake (sh_membership s) (sh_public_key s) (da2_epoch (pr_data p)) \<and>
        vid_commitment (e_vid E) (da2_encoded_transactions (pr_data p)) (m_total_nodes (sh_membership s) (da2_epoch (pr_data p)))
          (version_infallible (e_versions E) (sh_upgrade_lock s) (da2_view_number (pr_data p))) = (Ok pc :: (commitment, error) result) \<and>
        Append_da p pc \<in> set (sh_storage s1) \<and>
        create_signed_vote (finalize (e_crypto E)) (e_versions E) (commit_DaData2 (finalize (e_crypto E))) (key_sign (e_crypto E) (sh_private_key s))
          (DaData2 pc (da2_epoch (pr_data p))) (da2_view_number (pr_data p)) (sh_public_key s) (sh_upgrade_lock s) = Ok vote)"

definition no_da_vote :: "effect \<Rightarrow> bool" where
  "no_da_vote x \<longleftrightarrow> (\<forall>vote. x \<noteq> Internal (DaVoteSend vote))"

lemma other_da_events:
  "emits no_da_vote (da_proposal_recv E p k)" "emits no_da_vote (da_vote_recv E v)"
  "emits no_da_vote (da_view_change view e)" "emits no_da_vote (da_block_recv E b)"
  unfolding da_proposal_recv_def da_vote_recv_def da_view_change_def da_block_recv_def Let_def
  by (intro emits_intros emits_zoom emits_handle_vote; simp add: no_da_vote_def da_votes_def)+

lemma wp_seq_storedI [wp_intros]:
  "wp k Q (s\<lparr>sh_storage := sh_storage s @ [sop]\<rparr>) \<Longrightarrow> (\<And>e. Q (Err e) s []) \<Longrightarrow> wp (seq (contextual err (store E sop)) k) Q s"
  by (simp add: wp_simps with_context_def split: result.splits)

lemma da_proposal_validated_backed:
  "wp (da_proposal_validated E down p k)
     (\<lambda>r s1 out. \<forall>vote. Internal (DaVoteSend vote) \<in> set out \<longrightarrow> da_vote_backed E (DaProposalValidated p k) s s1 vote) s"
  unfolding da_proposal_validated_def Let_def
  by (intro wp_intros) (auto simp: wp_simps da_vote_backed_def on_cond_def ensure_eq_Ok split: result.splits)

text \<open>
  C14. A DA vote is sent only by a member of the DA committee, for a validated proposal, with the commitment of its
  transactions, and only after the proposal has been stored with that commitment.
\<close>

theorem da_vote_is_stored:
  assumes "da_handle E down ev s = Some (r, s1, out)" and "Internal (DaVoteSend vote) \<in> set out"
  shows "da_vote_backed E ev s s1 vote"
proof -
  have "wp (da_handle E down ev) (\<lambda>r s1 out. \<forall>vote. Internal (DaVoteSend vote) \<in> set out \<longrightarrow> da_vote_backed E ev s s1 vote) s"
  proof (cases "\<exists>p k. ev = DaProposalValidated p k")
    case True
    then show ?thesis using da_proposal_validated_backed by (auto simp: da_handle_def)
  next
    case False
    then have "emits no_da_vote (da_handle E down ev)" by (cases ev) (simp_all add: da_handle_def other_da_events emits_silent)
    then show ?thesis by (rule wp_mono [OF emits_wp]) (auto simp: no_da_vote_def)
  qed
  then show ?thesis using assms by (simp add: wp_def)
qed

section \<open>The leader's tasks and the committee agree\<close>

text \<open>Documented behaviour of the dispersal scheme, of payloads and of signature keys.\<close>

definition commit_is_disperse :: "vid_scheme \<Rightarrow> bool" where
  "commit_is_disperse vid \<longleftrightarrow> (\<forall>n b d. disperse vid n b = Some d \<longrightarrow> commit_only vid n b = Some (jf_commit d))"

definition payload_encodes :: "payload_ops \<Rightarrow> bool" where
  "payload_encodes ops \<longleftrightarrow> (\<forall>b md. encode (from_bytes ops b md) = b)"

lemma da_block_recv_sends:
  "wp (da_block_recv E b) (\<lambda>r s1 out. \<forall>p k. Internal (DaProposalSend p k) \<in> set out \<longrightarrow>
     pr_data p = \<lparr>da2_encoded_transactions = pb_encoded_transactions b, da2_metadata = pb_metadata b, da2_view_number = pb_view_number b, da2_epoch = da_cur_epoch s\<rparr> \<and>
     k = sh_public_key s \<and> leader (sh_membership s) (pb_view_number b) (da_cur_epoch s) = Ok k \<and>
     key_sign (e_crypto E) (sh_private_key s) (e_sha256 E (pb_encoded_transactions b)) = Some (pr_signature p)) s"
  unfolding da_block_recv_def Let_def
  by (intro wp_intros) (auto simp: wp_simps ok_or_eq_Ok split: result.splits)

lemma vid_block_recv_sends:
  "wp (vid_block_recv E b) (\<lambda>r s1 out. \<exists>d.
     (\<forall>pc bc md view fees auc. Internal (SendPayloadCommitmentAndMetadata pc bc md view fees auc) \<in> set out \<longrightarrow>
        calculate_vid_disperse (e_vid E) (encode (from_bytes (e_ops E) (pb_encoded_transactions b) (pb_metadata b))) (sh_membership s) (pb_view_number b)
          (vid_cur_epoch s) (vid_cur_epoch s) = Ok d \<and> pc = ad_payload_commitment (as_advz d) \<and> view = pb_view_number b) \<and>
     (\<forall>p k. Internal (VidDisperseSend p k) \<in> set out \<longrightarrow> pr_data p = d)) s"
  unfolding vid_block_recv_def send_dispersal_def Let_def
  by (intro wp_intros) (auto simp: wp_simps or_return_def split: result.splits option.splits)

lemma disperse_commitment:
  assumes "calculate_vid_disperse vid txns m view te de = Ok d"
  shows "\<exists>jd. disperse vid (m_total_nodes m te) txns = Some jd \<and> ad_payload_commitment (as_advz d) = jf_commit jd \<and> ad_view_number (as_advz d) = view"
  using assms
  by (auto simp: calculate_vid_disperse_def advz_calculate_vid_disperse_def advz_from_membership_def Let_def and_then_eq_Ok ok_or_eq_Ok split: option.splits)

lemma shares_commitment:
  "sh \<in> set (from_vid_disperse d) \<Longrightarrow> share_payload_commitment sh = ad_payload_commitment (as_advz d) \<and> share_view_number sh = ad_view_number (as_advz d)"
  by (cases d) (auto simp: from_advz_disperse_def from_vid_disperse2_def)

text \<open>
  C13. The DA task and the VID task of a leader work on the same block on their own.  Still, every vote of a
  DA committee member for the leader's DA proposal is for the very payload commitment that the VID task hands to the
  proposal, and so are all shares that it disperses.  A member that is not too far ahead and has no other payload for the view
  accepts the leader's proposal.
\<close>

theorem availability_agrees:
  assumes docs: "commit_is_disperse (e_vid E)" "payload_encodes (e_ops E)" "key_pair (e_crypto E) (sh_public_key sd) (sh_private_key sd)"
    and da: "da_handle E down (BlockRecv b) sd = Some (rd, sd', outd)" "Internal (DaProposalSend p k) \<in> set outd"
    and vid: "vid_handle E (BlockRecv b) sv = Some (rv, sv', outv)"
      "Internal (SendPayloadCommitmentAndMetadata pc bc md view fees auc) \<in> set outv"
    and same: "sh_membership sd = sh_membership sv" "da_cur_epoch sd = vid_cur_epoch sv" "sh_membership sm = sh_membership sv"
  shows "(\<forall>down' rm sm' outm vote. da_handle E down' (DaProposalValidated p k) sm = Some (rm, sm', outm) \<longrightarrow> Internal (DaVoteSend vote) \<in> set outm \<longrightarrow>
        v_data vote = DaData2 pc (vid_cur_epoch sv) \<and> v_view_number vote = view) \<and>
     (\<forall>d k' sh. Internal (VidDisperseSend d k') \<in> set outv \<longrightarrow> sh \<in> set (from_vid_disperse (pr_data d)) \<longrightarrow>
        share_payload_commitment sh = pc \<and> share_view_number sh = view) \<and>
     (da_cur_view sm \<le> view + 1 \<and> (\<forall>pl. bt_get view (saved_payloads (sh_consensus sm)) = Some pl \<longrightarrow> encode pl = pb_encoded_transactions b) \<longrightarrow>
        da_handle E down (DaProposalRecv p k) sm = Some (Ok (), sm, [Internal (DaProposalValidated p k)]))"
proof -
  have p: "pr_data p = \<lparr>da2_encoded_transactions = pb_encoded_transactions b, da2_metadata = pb_metadata b, da2_view_number = pb_view_number b, da2_epoch = da_cur_epoch sd\<rparr>"
      "k = sh_public_key sd" "leader (sh_membership sd) (pb_view_number b) (da_cur_epoch sd) = Ok k"
      "key_sign (e_crypto E) (sh_private_key sd) (e_sha256 E (pb_encoded_transactions b)) = Some (pr_signature p)"
    using wpD [OF da_block_recv_sends] da by (auto simp: da_handle_def)
  obtain d where d: "calculate_vid_disperse (e_vid E) (pb_encoded_transactions b) (sh_membership sv) (pb_view_number b) (vid_cur_epoch sv) (vid_cur_epoch sv) = Ok d"
      "pc = ad_payload_commitment (as_advz d)" "view = pb_view_number b" "\<And>dp k. Internal (VidDisperseSend dp k) \<in> set outv \<Longrightarrow> pr_data dp = d"
  proof -
    have run: "vid_block_recv E b sv = Some (rv, sv', outv)" using vid(1) by (simp add: vid_handle_def)
    show ?thesis using wpD [OF vid_block_recv_sends run] vid(2) that docs(2) unfolding payload_encodes_def by metis
  qed
  obtain jd where jd: "disperse (e_vid E) (m_total_nodes (sh_membership sv) (vid_cur_epoch sv)) (pb_encoded_transactions b) = Some jd"
      "pc = jf_commit jd" "ad_view_number (as_advz d) = view" using disperse_commitment [OF d(1)] d(2,3) by auto
  then have commit: "commit_only (e_vid E) (m_total_nodes (sh_membership sv) (vid_cur_epoch sv)) (pb_encoded_transactions b) = Some pc"
    using docs(1) by (simp add: commit_is_disperse_def)
  have "v_data vote = DaData2 pc (vid_cur_epoch sv) \<and> v_view_number vote = view"
    if "da_handle E down' (DaProposalValidated p k) sm = Some (rm, sm', outm)" "Internal (DaVoteSend vote) \<in> set outm" for down' rm sm' outm vote
  proof -
    have "wp (da_handle E down' (DaProposalValidated p k)) (\<lambda>r s1 out. \<forall>vote. Internal (DaVoteSend vote) \<in> set out \<longrightarrow> da_vote_backed E (DaProposalValidated p k) sm s1 vote) sm"
      using da_proposal_validated_backed by (simp add: da_handle_def)
    then have "da_vote_backed E (DaProposalValidated p k) sm sm' vote" using that by (simp add: wp_def)
    then show ?thesis using commit same d(3)
      by (auto simp: da_vote_backed_def p vid_commitment_def create_signed_vote_def and_then_eq_Ok)
  qed
  moreover have "da_handle E down (DaProposalRecv p k) sm = Some (Ok (), sm, [Internal (DaProposalValidated p k)])"
    if "da_cur_view sm \<le> view + 1" "\<forall>pl. bt_get view (saved_payloads (sh_consensus sm)) = Some pl \<longrightarrow> encode pl = pb_encoded_transactions b"
    using that p docs(3) same d(3) by (auto simp: da_handle_def da_proposal_recv_def exec_simps Let_def key_pair_def split: option.split)
  moreover have "share_payload_commitment sh = pc \<and> share_view_number sh = view"
    if "Internal (VidDisperseSend dp k') \<in> set outv" "sh \<in> set (from_vid_disperse (pr_data dp))" for dp k' sh
    using shares_commitment [of sh d] that d(2) d(4) [OF that(1)] jd(3) by simp
  ultimately show ?thesis by blast
qed

text \<open>Four nodes that are all in the DA committee, and a block for view 1, whose leader is node 2.\<close>

definition toy_da_membership :: membership where
  "toy_da_membership = static_membership (static_new [peer 1 1, peer 2 1, peer 3 1, peer 4 1] [peer 1 1, peer 2 1, peer 3 1, peer 4 1])"

definition toy_da_node :: "nat \<Rightarrow> shared" where
  "toy_da_node k = (toy_shared (genesis_consensus inj_crypto))\<lparr>sh_membership := toy_da_membership, sh_public_key := k, sh_private_key := k\<rparr>"

definition toy_da_state :: "nat \<Rightarrow> DaTaskState" where
  "toy_da_state k = shared.extend (toy_da_node k) \<lparr>da_cur_view = 1, da_cur_epoch = None, da_vote_collectors = []\<rparr>"

definition toy_vid_state :: "nat \<Rightarrow> VidTaskState" where
  "toy_vid_state k = shared.extend (toy_da_node k) \<lparr>vid_cur_view = 1, vid_cur_epoch = None\<rparr>"

definition toy_block :: PackedBundle where
  "toy_block = \<lparr>pb_encoded_transactions = [7], pb_metadata = [], pb_view_number = 1, pb_epoch_number = None, pb_sequencing_fees = [], pb_auction_result = None\<rparr>"

definition toy_da_proposal :: "DaProposal2 Proposal" where
  "toy_da_proposal = \<lparr>pr_data = \<lparr>da2_encoded_transactions = [7], da2_metadata = [], da2_view_number = 1, da2_epoch = None\<rparr>, pr_signature = 2\<rparr>"

lemmas toy_da_simps = toy_da_state_def toy_vid_state_def toy_da_node_def toy_shared_def shared.defs

lemma toy_da_membership_simps:
  "leader toy_da_membership 1 None = Ok 2" "m_has_da_stake toy_da_membership 3 None" "m_total_nodes toy_da_membership None = 4"
  "m_committee_members toy_da_membership 1 None = {1, 2, 3, 4}"
  by (auto simp: leader_def toy_da_membership_def static_membership_def static_lookup_leader_def static_new_def nth_leader_def
      positive_entries_def peer_def index_at_def Let_def has_positive_def index_entries_def bt_get_def)

lemma toy_keys: "key_sign inj_crypto k msg = Some k" "k < 100 \<Longrightarrow> key_pair inj_crypto k k"
  by (simp_all add: key_pair_def inj_crypto_def toy_crypto_def)

lemma toy_block_proposed:
  "\<exists>s'. da_handle toy_env False (BlockRecv toy_block) (toy_da_state 2) = Some (Ok (), s', [Internal (DaProposalSend toy_da_proposal 2)])"
  by (simp add: da_handle_def da_block_recv_def exec_simps log_consensus_def toy_da_simps toy_env_def toy_block_def toy_da_proposal_def
      toy_da_membership_simps toy_keys Let_def)

lemma toy_disperse:
  "\<exists>d. calculate_vid_disperse toy_vid [7] toy_da_membership 1 None None = Ok d \<and> ad_payload_commitment (as_advz d) = [7]"
proof -
  let ?jd = "\<lparr>jf_commit = [7], jf_common = 4, jf_shares = [0..<4]\<rparr>"
  have "finite (m_committee_members toy_da_membership 1 None)" "card (m_committee_members toy_da_membership 1 None) \<le> length (jf_shares ?jd)"
    by (simp_all add: toy_da_membership_simps)
  then obtain x where "advz_from_membership 1 ?jd toy_da_membership None None None = Ok x" "ad_payload_commitment x = [7]"
    using from_membership_shares [of toy_da_membership 1 None ?jd None None] by auto
  then show ?thesis by (simp add: calculate_vid_disperse_def advz_calculate_vid_disperse_def toy_vid_def toy_da_membership_simps Let_def)
qed

lemma toy_block_dispersed:
  "\<exists>s' d. vid_handle toy_env (BlockRecv toy_block) (toy_vid_state 2) =
     Some (Ok (), s', [Internal (SendPayloadCommitmentAndMetadata [7] [7] [] 1 [] None), Internal (VidDisperseSend d 2)])"
  using toy_disperse
  by (auto simp: vid_handle_def vid_block_recv_def send_dispersal_def exec_simps toy_da_simps toy_env_def toy_block_def toy_da_membership_simps
      toy_keys toy_ops_def or_return_def Let_def)

lemma toy_da_vote_sent:
  "\<exists>s' vote. da_handle toy_env False (DaProposalValidated toy_da_proposal 2) (toy_da_state 3) =
     Some (Ok (), s', [External (Event 1 (DaProposalEvent toy_da_proposal 2)), Internal (DaVoteSend vote)])"
proof -
  have "cur_view (genesis_consensus inj_crypto) = 0" by (simp add: genesis_consensus_def consensus_new_def)
  moreover have "version toy_versions (UpgradeLock None) 1 = Ok (Version 0 1)" by (simp add: version_def toy_versions_def)
  ultimately show ?thesis
    by (simp add: da_handle_def da_proposal_validated_def exec_simps toy_da_simps toy_env_def toy_da_membership_simps toy_da_proposal_def
        toy_keys toy_ops_def toy_vid_def vid_commitment_def create_signed_vote_def versioned_new_def on_cond_def Let_def)
qed

theorem da_vote_is_stored_witness:
  "\<exists>s' vote. Append_da toy_da_proposal [7] \<in> set (sh_storage s') \<and>
     da_vote_backed toy_env (DaProposalValidated toy_da_proposal 2) (toy_da_state 3) s' vote"
proof -
  obtain s' vote where run: "da_handle toy_env False (DaProposalValidated toy_da_proposal 2) (toy_da_state 3) =
     Some (Ok (), s', [External (Event 1 (DaProposalEvent toy_da_proposal 2)), Internal (DaVoteSend vote)])"
    using toy_da_vote_sent by blast
  have backed: "da_vote_backed toy_env (DaProposalValidated toy_da_proposal 2) (toy_da_state 3) s' vote"
    by (rule da_vote_is_stored [OF run]) simp
  then have "Append_da toy_da_proposal [7] \<in> set (sh_storage s')"
    by (auto simp: da_vote_backed_def toy_env_def toy_vid_def vid_commitment_def toy_da_proposal_def)
  then show ?thesis using backed by blast
qed

theorem availability_agrees_witness:
  "\<exists>s' vote out. da_handle toy_env False (DaProposalValidated toy_da_proposal 2) (toy_da_state 3) = Some (Ok (), s', out) \<and>
     Internal (DaVoteSend vote) \<in> set out \<and> v_data vote = DaData2 [7] None \<and> v_view_number vote = 1"
proof -
  obtain sd' where da: "da_handle toy_env False (BlockRecv toy_block) (toy_da_state 2) = Some (Ok (), sd', [Internal (DaProposalSend toy_da_proposal 2)])"
    using toy_block_proposed by blast
  obtain sv' d where vid: "vid_handle toy_env (BlockRecv toy_block) (toy_vid_state 2) =
     Some (Ok (), sv', [Internal (SendPayloadCommitmentAndMetadata [7] [7] [] 1 [] None), Internal (VidDisperseSend d 2)])"
    using toy_block_dispersed by blast
  obtain s' vote where run: "da_handle toy_env False (DaProposalValidated toy_da_proposal 2) (toy_da_state 3) =
     Some (Ok (), s', [External (Event 1 (DaProposalEvent toy_da_proposal 2)), Internal (DaVoteSend vote)])"
    using toy_da_vote_sent by blast
  have docs: "commit_is_disperse (e_vid toy_env)" "payload_encodes (e_ops toy_env)"
      "key_pair (e_crypto toy_env) (sh_public_key (toy_da_state 2)) (sh_private_key (toy_da_state 2))"
    by (simp_all add: commit_is_disperse_def payload_encodes_def toy_env_def toy_vid_def toy_ops_def toy_da_simps toy_keys)
  have same: "sh_membership (toy_da_state 2) = sh_membership (toy_vid_state 2)" "da_cur_epoch (toy_da_state 2) = vid_cur_epoch (toy_vid_state 2)"
      "sh_membership (toy_da_state 3) = sh_membership (toy_vid_state 2)"
    by (simp_all add: toy_da_simps)
  have "v_data vote = DaData2 [7] (vid_cur_epoch (toy_vid_state 2)) \<and> v_view_number vote = 1"
    using availability_agrees [OF docs da _ vid _ same, of toy_da_proposal 2 "[7]" "[7]" "[]" 1 "[]" None] run by (auto simp del: One_nat_def)
  then show ?thesis using run by (auto simp: toy_da_simps)
qed

end
