(* ===== verification/Upgrades.thy ===== *)
theory Upgrades
  imports VoteCollection
begin

text \<open>
  The upgrade task of \<open>crates/task-impls/src/upgrade.rs\<close> with its configuration from
  \<open>crates/types/src/upgrade_config.rs\<close>: proposing an upgrade when this node will lead, voting for a proposal that fits, and
  collecting the votes.  The clock is given.
\<close>

section \<open>Configuration\<close>

record UpgradeConstants =
  propose_offset :: u64
  decide_by_offset :: u64
  begin_offset :: u64
  finish_offset :: u64

definition DEFAULT_UPGRADE_CONSTANTS :: UpgradeConstants where
  "DEFAULT_UPGRADE_CONSTANTS = \<lparr>propose_offset = 5, decide_by_offset = 105, begin_offset = 110, finish_offset = 115\<rparr>"

definition TEST_UPGRADE_CONSTANTS :: UpgradeConstants where
  "TEST_UPGRADE_CONSTANTS = \<lparr>propose_offset = 5, decide_by_offset = 10, begin_offset = 15, finish_offset = 20\<rparr>"

record UpgradeConfig =
  start_proposing_view :: u64
  stop_proposing_view :: u64
  start_voting_view :: u64
  stop_voting_view :: u64
  start_proposing_time :: u64
  stop_proposing_time :: u64
  start_voting_time :: u64
  stop_voting_time :: u64

definition upgrade_config_default :: UpgradeConfig where
  "upgrade_config_default =
     \<lparr>start_proposing_view = - 1, stop_proposing_view = 0, start_voting_view = - 1, stop_voting_view = 0,
      start_proposing_time = - 1, stop_proposing_time = 0, start_voting_time = - 1, stop_voting_time = 0\<rparr>"

section \<open>The task\<close>

record UpgradeTaskState = shared +
  ug_cur_view :: u64
  ug_cur_epoch :: "epoch option"
  ug_vote_collectors :: vote_collectors
  ug_config :: UpgradeConfig

definition upgraded :: "'a shared_scheme \<Rightarrow> bool" where
  "upgraded s \<longleftrightarrow> decided_upgrade_certificate (sh_upgrade_lock s) \<noteq> None"

definition within :: "u64 \<Rightarrow> u64 \<Rightarrow> u64 \<Rightarrow> bool" where
  "within lo hi x \<longleftrightarrow> lo \<le> x \<and> x < hi"

definition upgrade_target :: "versions \<Rightarrow> UpgradeProposalData \<Rightarrow> bool" where
  "upgrade_target V d \<longleftrightarrow> new_version_hash d = V_UPGRADE_HASH V \<and> old_version d = V_Base V \<and> new_version d = V_Upgrade V"

text \<open>The time is the number of seconds of the clock, or nothing if the clock is before the epoch of the system.\<close>

definition upgrade_proposal_recv :: "env \<Rightarrow> u64 option \<Rightarrow> UpgradeProposal Proposal \<Rightarrow> pubkey \<Rightarrow> (UpgradeTaskState, unit) handler" where
  "upgrade_proposal_recv E now proposal sndr =
     (let view = up_view_number (pr_data proposal); d = up_upgrade_proposal (pr_data proposal) in
      seq (check_state (\<lambda>s. ensure (\<not> upgraded s) (Error Info [''Already upgraded; not voting.''])))
     (andThen (lift (with_context (Error ErrorLevel [''Failed to calculate duration. This should never happen.'']) (ok_or now (Error Unspecified [])))) (\<lambda>time.
      seq (check_state (\<lambda>s. ensure (within (start_voting_time (ug_config s)) (stop_voting_time (ug_config s)) time)
        (Error Unspecified [''Refusing to vote because we are no longer in the configured vote time window.''])))
     (seq (check_state (\<lambda>s. ensure (within (start_voting_view (ug_config s)) (stop_voting_view (ug_config s)) view)
        (Error Unspecified [''Refusing to vote because we are no longer in the configured vote view window.''])))
     (seq (guard (upgrade_target (e_versions E) d) (Error Unspecified [''Proposal does not match our upgrade target'']))
     (seq (check_state (\<lambda>s. ensure (ug_cur_view s \<noteq> 0 \<and> saturating_sub (ug_cur_view s) 1 \<le> view)
        (Error Warn [''Discarding old upgrade proposal''])))
     (andThen (check_state (\<lambda>s. leader (sh_membership s) view (ug_cur_epoch s))) (\<lambda>view_leader_key.
      seq (guard (view_leader_key = sndr) (Error Info [''Upgrade proposal doesn't have expected leader key'']))
     (andThen (gets ug_cur_view) (\<lambda>cur.
      seq (notify cur (UpgradeProposalEvent proposal sndr))
     (andThen (check_state (\<lambda>s. create_signed_vote (finalize (e_crypto E)) (e_versions E) (commit_UpgradeProposalData (finalize (e_crypto E)))
        (key_sign (e_crypto E) (sh_private_key s)) d view (sh_public_key s) (sh_upgrade_lock s))) (\<lambda>vote.
      broadcast_event (UpgradeVoteSend vote)))))))))))))"

definition upgrade_vote_recv :: "env \<Rightarrow> UpgradeVote \<Rightarrow> (UpgradeTaskState, unit) handler" where
  "upgrade_vote_recv E vote =
     (let view = v_view_number vote in
      seq (check_state (\<lambda>s. and_then (leader (sh_membership s) view (ug_cur_epoch s)) (\<lambda>l.
        if l = sh_public_key s then Ok ()
        else and_then (leader (sh_membership s) (view + 1) (ug_cur_epoch s)) (\<lambda>_. Err (Error Debug [''We are not the leader'']))))) 
      (zoom ug_vote_collectors (\<lambda>cs s. s\<lparr>ug_vote_collectors := cs\<rparr>)
        (\<lambda>s. handle_vote E upgrade_votes (node_of s) vote (ug_cur_epoch s) (UpgradeVoteRecv vote) NotInTransition)))"

definition upgrade_proposal_data :: "versions \<Rightarrow> UpgradeConstants \<Rightarrow> u64 \<Rightarrow> UpgradeProposalData" where
  "upgrade_proposal_data V K view =
     UpgradeProposalData (V_Base V) (V_Upgrade V) (view + decide_by_offset K) (V_UPGRADE_HASH V) (view + begin_offset K) (view + finish_offset K)"

definition upgrade_view_change :: "env \<Rightarrow> UpgradeConstants \<Rightarrow> u64 option \<Rightarrow> u64 \<Rightarrow> epoch option \<Rightarrow> (UpgradeTaskState, unit) handler" where
  "upgrade_view_change E K now new_view e =
     seq (modify (\<lambda>s. if option_less (ug_cur_epoch s) e then s\<lparr>ug_cur_epoch := e\<rparr> else s))
    (seq (check_state (\<lambda>s. ensure (ug_cur_view s < new_view \<or> ug_cur_view s = 0) (Error Unspecified [''condition 'self.cur_view < *new_view || *self.cur_view == 0' failed.'']))) 
    (seq (modify (\<lambda>s. s\<lparr>ug_cur_view := new_view\<rparr>))
    (andThen (lift (with_context (Error ErrorLevel [''Failed to calculate duration. This should never happen.'']) (ok_or now (Error Unspecified [])))) (\<lambda>time.
     andThen (check_state (\<lambda>s. leader (sh_membership s) (new_view + propose_offset K) (ug_cur_epoch s))) (\<lambda>l.
     andThen (gets (\<lambda>s. within (start_proposing_view (ug_config s)) (stop_proposing_view (ug_config s)) new_view \<and>
         within (start_proposing_time (ug_config s)) (stop_proposing_time (ug_config s)) time \<and> \<not> upgraded s \<and> l = sh_public_key s)) (\<lambda>propose.
     on_cond propose
       (let d = upgrade_proposal_data (e_versions E) K new_view in
        andThen (check_state (\<lambda>s. unwrap (key_sign (e_crypto E) (sh_private_key s) (commit_UpgradeProposalData (finalize (e_crypto E)) d)))) (\<lambda>signature.
        andThen (gets sh_public_key) (\<lambda>me.
        broadcast_event (UpgradeProposalSend
          \<lparr>pr_data = \<lparr>up_upgrade_proposal = d, up_view_number = new_view + propose_offset K\<rparr>, pr_signature = signature\<rparr> me))))))))))"

definition upgrade_handle :: "env \<Rightarrow> UpgradeConstants \<Rightarrow> u64 option \<Rightarrow> HotShotEvent \<Rightarrow> (UpgradeTaskState, unit) handler" where
  "upgrade_handle E K now ev =
     (case ev of
        UpgradeProposalRecv proposal sndr \<Rightarrow> upgrade_proposal_recv E now proposal sndr
      | UpgradeVoteRecv vote \<Rightarrow> upgrade_vote_recv E vote
      | ViewChange new_view e \<Rightarrow> upgrade_view_change E K now new_view e
      | _ \<Rightarrow> ret ())"

section \<open>What the task sends\<close>

text \<open>A vote for an upgrade: in both windows, for the upgrade of this version of the code, proposed by the leader.\<close>

definition upgrade_vote_ok :: "env \<Rightarrow> u64 option \<Rightarrow> HotShotEvent \<Rightarrow> UpgradeTaskState \<Rightarrow> UpgradeVote \<Rightarrow> bool" where
  "upgrade_vote_ok E now ev s vote \<longleftrightarrow>
     (\<exists>p k time. ev = UpgradeProposalRecv p k \<and> \<not> upgraded s \<and>
        now = Some time \<and> within (start_voting_time (ug_config s)) (stop_voting_time (ug_config s)) time \<and>
        within (start_voting_view (ug_config s)) (stop_voting_view (ug_config s)) (up_view_number (pr_data p)) \<and>
        upgrade_target (e_versions E) (up_upgrade_proposal (pr_data p)) \<and>
        leader (sh_membership s) (up_view_number (pr_data p)) (ug_cur_epoch s) = Ok k \<and>
        create_signed_vote (finalize (e_crypto E)) (e_versions E) (commit_UpgradeProposalData (finalize (e_crypto E))) (key_sign (e_crypto E) (sh_private_key s))
          (up_upgrade_proposal (pr_data p)) (up_view_number (pr_data p)) (sh_public_key s) (sh_upgrade_lock s) = Ok vote)"

text \<open>A proposal of an upgrade: when the view changes, in both windows, by the leader of the view it is for.\<close>

definition upgrade_proposal_ok ::
  "env \<Rightarrow> UpgradeConstants \<Rightarrow> u64 option \<Rightarrow> HotShotEvent \<Rightarrow> UpgradeTaskState \<Rightarrow> UpgradeTaskState \<Rightarrow> UpgradeProposal Proposal \<Rightarrow> pubkey \<Rightarrow> bool" where
  "upgrade_proposal_ok E K now ev s s1 p k \<longleftrightarrow>
     (\<exists>view e time. ev = ViewChange view e \<and> \<not> upgraded s \<and>
        now = Some time \<and> within (start_proposing_time (ug_config s)) (stop_proposing_time (ug_config s)) time \<and>
        within (start_proposing_view (ug_config s)) (stop_proposing_view (ug_config s)) view \<and>
        k = sh_public_key s \<and> leader (sh_membership s) (view + propose_offset K) (ug_cur_epoch s1) = Ok k \<and>
        pr_data p = \<lparr>up_upgrade_proposal = upgrade_proposal_data (e_versions E) K view, up_view_number = view + propose_offset K\<rparr> \<and>
        key_sign (e_crypto E) (sh_private_key s) (commit_UpgradeProposalData (finalize (e_crypto E)) (upgrade_proposal_data (e_versions E) K view)) = Some (pr_signature p))"

definition upgrade_may_send ::
  "env \<Rightarrow> UpgradeConstants \<Rightarrow> u64 option \<Rightarrow> HotShotEvent \<Rightarrow> UpgradeTaskState \<Rightarrow> UpgradeTaskState \<Rightarrow> effect \<Rightarrow> bool" where
  "upgrade_may_send E K now ev s s1 x \<longleftrightarrow>
     (case x of
        Internal (UpgradeVoteSend vote) \<Rightarrow> upgrade_vote_ok E now ev s vote
      | Internal (UpgradeProposalSend p k) \<Rightarrow> upgrade_proposal_ok E K now ev s s1 p k
      | Internal (UpgradeCertificateFormed c) \<Rightarrow> (\<exists>vote. ev = UpgradeVoteRecv vote)
      | Internal _ \<Rightarrow> False
      | External (Event v (UpgradeProposalEvent p k)) \<Rightarrow> v = ug_cur_view s \<and> ev = UpgradeProposalRecv p k
      | _ \<Rightarrow> False)"

lemma upgrade_proposal_recv_sends:
  "wp (upgrade_proposal_recv E now p k) (\<lambda>r s1 out. \<forall>x \<in> set out. upgrade_may_send E K now (UpgradeProposalRecv p k) s s1 x) s"
  unfolding upgrade_proposal_recv_def Let_def
  by (intro wp_intros) (auto simp: wp_simps upgrade_may_send_def upgrade_vote_ok_def ensure_eq_Ok ok_or_eq_Ok with_context_eq_Ok split: result.splits)

lemma upgrade_vote_recv_sends:
  "emits (\<lambda>x. \<forall>s1. upgrade_may_send E K now (UpgradeVoteRecv vote) s s1 x) (upgrade_vote_recv E vote)"
  unfolding upgrade_vote_recv_def Let_def
  by (intro emits_intros emits_zoom emits_handle_vote) (simp add: upgrade_may_send_def upgrade_votes_def)

lemma upgrade_view_change_sends:
  "wp (upgrade_view_change E K now view e) (\<lambda>r s1 out. \<forall>x \<in> set out. upgrade_may_send E K now (ViewChange view e) s s1 x) s"
  unfolding upgrade_view_change_def Let_def
  by (intro wp_intros) (auto simp: wp_simps upgrade_may_send_def upgrade_proposal_ok_def on_cond_def ensure_eq_Ok ok_or_eq_Ok with_context_eq_Ok
      upgraded_def unwrap_eq_Ok split: result.splits if_splits)


text \<open>
  C24. The leader's proposal for an upgrade finds the votes of its peers: every peer with the same committee and
  epoch, in its voting windows, that has not decided an upgrade and whose view is not beyond the view after the proposal's,
  answers the proposal with a vote for exactly the proposed upgrade.  If the proposed views do not wrap around and the
  offsets are ordered, the proposal comes before the last view for deciding it, that view before the last view of the old version, and
  that before the first view of the new one.
\<close>

theorem upgrade_proposal_gets_votes:
  assumes run: "upgrade_handle E K now (ViewChange view e) s = Some (r, s1, out)" "Internal (UpgradeProposalSend p k) \<in> set out"
    and peer: "sh_membership t = sh_membership s" "ug_cur_epoch t = ug_cur_epoch s1" "\<not> upgraded t"
    and time: "within (start_voting_time (ug_config t)) (stop_voting_time (ug_config t)) time"
    and views: "within (start_voting_view (ug_config t)) (stop_voting_view (ug_config t)) (view + propose_offset K)"
      "ug_cur_view t \<noteq> 0" "saturating_sub (ug_cur_view t) 1 \<le> view + propose_offset K"
    and sign: "create_signed_vote (finalize (e_crypto E)) (e_versions E) (commit_UpgradeProposalData (finalize (e_crypto E))) (key_sign (e_crypto E) (sh_private_key t))
          (upgrade_proposal_data (e_versions E) K view) (view + propose_offset K) (sh_public_key t) (sh_upgrade_lock t) = Ok vote"
    and offsets: "propose_offset K < decide_by_offset K" "decide_by_offset K < begin_offset K" "begin_offset K < finish_offset K"
      "unat view + unat (finish_offset K) < 2 ^ 64"
  shows "upgrade_handle E K (Some time) (UpgradeProposalRecv p k) t =
      Some (Ok (), t, [External (Event (ug_cur_view t) (UpgradeProposalEvent p k)), Internal (UpgradeVoteSend vote)]) \<and>
    v_data vote = up_upgrade_proposal (pr_data p) \<and>
    view \<le> up_view_number (pr_data p) \<and> up_view_number (pr_data p) < decide_by (v_data vote) \<and>
    decide_by (v_data vote) < old_version_last_view (v_data vote) \<and> old_version_last_view (v_data vote) < new_version_first_view (v_data vote)"
proof -
  have "upgrade_may_send E K now (ViewChange view e) s s1 (Internal (UpgradeProposalSend p k))"
    using wpD [OF upgrade_view_change_sends, of E K now view e s r s1 out] run by (simp add: upgrade_handle_def)
  then have p: "leader (sh_membership s) (view + propose_offset K) (ug_cur_epoch s1) = Ok k"
      "pr_data p = \<lparr>up_upgrade_proposal = upgrade_proposal_data (e_versions E) K view, up_view_number = view + propose_offset K\<rparr>"
    by (auto simp: upgrade_may_send_def upgrade_proposal_ok_def)
  have vote: "v_data vote = upgrade_proposal_data (e_versions E) K view"
    using sign by (auto simp: create_signed_vote_def and_then_eq_Ok)
  have add: "unat (view + x) = unat view + unat x" if "x \<le> finish_offset K" for x
    using offsets(4) that by (simp add: unat_word_ariths word_le_nat_alt)
  have order: "unat (propose_offset K) < unat (decide_by_offset K)" "unat (decide_by_offset K) < unat (begin_offset K)" "unat (begin_offset K) < unat (finish_offset K)"
    using offsets by (simp_all add: word_less_nat_alt)
  have adds: "unat (view + propose_offset K) = unat view + unat (propose_offset K)" "unat (view + decide_by_offset K) = unat view + unat (decide_by_offset K)"
    "unat (view + begin_offset K) = unat view + unat (begin_offset K)" "unat (view + finish_offset K) = unat view + unat (finish_offset K)"
    using order by (simp_all add: add word_le_nat_alt)
  have "upgrade_target (e_versions E) (upgrade_proposal_data (e_versions E) K view)" by (simp add: upgrade_target_def upgrade_proposal_data_def)
  then have "upgrade_handle E K (Some time) (UpgradeProposalRecv p k) t =
      Some (Ok (), t, [External (Event (ug_cur_view t) (UpgradeProposalEvent p k)), Internal (UpgradeVoteSend vote)])"
    using peer time views sign p by (simp add: upgrade_handle_def upgrade_proposal_recv_def exec_simps Let_def)
  moreover have "view \<le> view + propose_offset K" "view + propose_offset K < view + decide_by_offset K"
    "view + decide_by_offset K < view + begin_offset K" "view + begin_offset K < view + finish_offset K"
    using adds order by (simp_all add: word_le_nat_alt word_less_nat_alt)
  ultimately show ?thesis by (simp add: vote p upgrade_proposal_data_def)
qed

section \<open>An upgrade\<close>

text \<open>Node 3 leads view 6 and proposes the upgrade when view 1 begins; node 1 votes for it.\<close>

definition toy_upgrade_config :: UpgradeConfig where
  "toy_upgrade_config =
     \<lparr>start_proposing_view = 1, stop_proposing_view = 10, start_voting_view = 1, stop_voting_view = 20,
      start_proposing_time = 0, stop_proposing_time = 100, start_voting_time = 0, stop_voting_time = 100\<rparr>"

definition toy_upgrade_state :: "nat \<Rightarrow> u64 \<Rightarrow> UpgradeTaskState" where
  "toy_upgrade_state k view = shared.extend ((toy_shared (genesis_consensus inj_crypto))\<lparr>sh_public_key := k, sh_private_key := k\<rparr>)
     \<lparr>ug_cur_view = view, ug_cur_epoch = None, ug_vote_collectors = [], ug_config = toy_upgrade_config\<rparr>"

definition toy_upgrade :: UpgradeProposalData where
  "toy_upgrade = upgrade_proposal_data toy_versions TEST_UPGRADE_CONSTANTS 1"

definition toy_upgrade_proposal :: "UpgradeProposal Proposal" where
  "toy_upgrade_proposal = \<lparr>pr_data = \<lparr>up_upgrade_proposal = toy_upgrade, up_view_number = 6\<rparr>, pr_signature = 3\<rparr>"

lemmas toy_upgrade_simps = toy_upgrade_state_def toy_shared_def shared.defs toy_upgrade_config_def toy_env_def upgraded_def within_def
  word_le_nat_alt word_less_nat_alt

lemma toy_upgrade_leader: "leader toy_membership 6 None = Ok 3"
  by (simp add: leader_def toy_membership_def static_membership_def static_lookup_leader_def static_new_def nth_leader_def
      positive_entries_def peer_def index_at_def Let_def)

lemma toy_upgrade_proposed:
  "upgrade_handle toy_env TEST_UPGRADE_CONSTANTS (Some 50) (ViewChange 1 None) (toy_upgrade_state 3 0) =
     Some (Ok (), toy_upgrade_state 3 1, [Internal (UpgradeProposalSend toy_upgrade_proposal 3)])"
  by (simp add: upgrade_handle_def upgrade_view_change_def exec_simps toy_upgrade_simps toy_upgrade_leader TEST_UPGRADE_CONSTANTS_def on_cond_def
      toy_upgrade_proposal_def toy_upgrade_def inj_crypto_def toy_crypto_def Let_def)


theorem upgrade_proposal_gets_votes_witness:
  "\<exists>vote. upgrade_handle toy_env TEST_UPGRADE_CONSTANTS (Some 51) (UpgradeProposalRecv toy_upgrade_proposal 3) (toy_upgrade_state 1 2) =
     Some (Ok (), toy_upgrade_state 1 2, [External (Event 2 (UpgradeProposalEvent toy_upgrade_proposal 3)), Internal (UpgradeVoteSend vote)])"
proof -
  have version: "version toy_versions (UpgradeLock None) 6 = Ok (Version 0 1)" by (simp add: version_def toy_versions_def)
  obtain vote where vote: "create_signed_vote (finalize (e_crypto toy_env)) (e_versions toy_env) (commit_UpgradeProposalData (finalize (e_crypto toy_env)))
      (key_sign (e_crypto toy_env) (sh_private_key (toy_upgrade_state 1 2))) (upgrade_proposal_data (e_versions toy_env) TEST_UPGRADE_CONSTANTS 1)
      (1 + propose_offset TEST_UPGRADE_CONSTANTS) (sh_public_key (toy_upgrade_state 1 2)) (sh_upgrade_lock (toy_upgrade_state 1 2)) = Ok vote"
    using version by (simp add: create_signed_vote_def versioned_new_def toy_upgrade_simps TEST_UPGRADE_CONSTANTS_def inj_crypto_def toy_crypto_def)
  have "ug_cur_view (toy_upgrade_state 1 2) = 2" by (simp add: toy_upgrade_state_def shared.defs)
  then show ?thesis
    using upgrade_proposal_gets_votes [OF toy_upgrade_proposed _ _ _ _ _ _ _ _ vote, of toy_upgrade_proposal 3 51]
    by (auto simp: toy_upgrade_simps TEST_UPGRADE_CONSTANTS_def saturating_sub_def)
qed

end
