(* ===== verification/Proposals.thy ===== *)
theory Proposals
  imports Validation Dependencies
begin

text \<open>
  The task that makes quorum proposals, \<open>crates/task-impls/src/quorum_proposal\<close>.  The leader of a view waits for the block and for
  a reason to propose: a quorum certificate of the view before, a timeout certificate or a view synchronisation certificate.  It
  then publishes a proposal on top of the certified leaf.  How headers are made and what arrives while the leader waits for
  certificates is given.
\<close>

section \<open>Given operations\<close>

record CommitmentAndMetadata =
  cm_commitment :: commitment
  cm_builder_commitment :: commitment
  cm_metadata :: metadata
  cm_fees :: "BuilderFee list"
  cm_block_view :: u64
  cm_auction_result :: "nat option"

text \<open>
  Waiting for the highest certificate is a list of rounds, each with what a clone of the receiver obtains in it; the list ends when
  the time is up.  For the certificate of the next epoch: what the receiver obtains, or nothing if no time is left, and the
  certificate in the shared state when the time is up.
\<close>

record proposal_lib =
  pl_new_legacy :: "validated_state \<Rightarrow> Leaf2 \<Rightarrow> commitment \<Rightarrow> commitment \<Rightarrow> metadata \<Rightarrow> BuilderFee \<Rightarrow> vid_common \<Rightarrow> Version \<Rightarrow> block_header option"
  pl_new_marketplace :: "validated_state \<Rightarrow> Leaf2 \<Rightarrow> commitment \<Rightarrow> commitment \<Rightarrow> metadata \<Rightarrow> BuilderFee list \<Rightarrow> u64 \<Rightarrow> vid_common \<Rightarrow> nat option \<Rightarrow> Version \<Rightarrow>
    block_header option"
  pl_qc_rounds :: "u64 \<Rightarrow> HotShotEvent received list list"
  pl_next_epoch_events :: "u64 \<Rightarrow> HotShotEvent received list option"
  pl_next_epoch_late :: "u64 \<Rightarrow> NextEpochQuorumCertificate2 option"

section \<open>Dependencies of a proposal\<close>

datatype ProposalDependency = PayloadAndMetadata | Qc | ViewSyncCert | TimeoutCert | ProposalDep | VidShare

definition dependency_view :: "ProposalDependency \<Rightarrow> HotShotEvent \<Rightarrow> u64 option" where
  "dependency_view t ev =
     (case t of
        Qc \<Rightarrow> (case ev of Qc2Formed (Inl qc) \<Rightarrow> Some (c_view_number qc + 1) | _ \<Rightarrow> None)
      | TimeoutCert \<Rightarrow> (case ev of Qc2Formed (Inr tc) \<Rightarrow> Some (c_view_number tc + 1) | _ \<Rightarrow> None)
      | ViewSyncCert \<Rightarrow> (case ev of ViewSyncFinalizeCertificateRecv c \<Rightarrow> Some (c_view_number c) | _ \<Rightarrow> None)
      | ProposalDep \<Rightarrow> (case ev of QuorumProposalPreliminarilyValidated p \<Rightarrow> Some (q2_view_number (qw_proposal (pr_data p)) + 1) | _ \<Rightarrow> None)
      | PayloadAndMetadata \<Rightarrow> (case ev of SendPayloadCommitmentAndMetadata _ _ _ view _ _ \<Rightarrow> Some view | _ \<Rightarrow> None)
      | VidShare \<Rightarrow> (case ev of VidDisperseSend p _ \<Rightarrow> Some (ad_view_number (as_advz (pr_data p))) | _ \<Rightarrow> None))"

definition create_proposal_dependency :: "ProposalDependency \<Rightarrow> u64 \<Rightarrow> HotShotEvent EventDependency" where
  "create_proposal_dependency t view_number = event_dependency_new (\<lambda>ev. dependency_view t ev = Some view_number)"

text \<open>A dependency of a new task: the one the event belongs to is already complete.\<close>

definition seeded :: "ProposalDependency \<Rightarrow> u64 \<Rightarrow> HotShotEvent \<Rightarrow> HotShotEvent EventDependency" where
  "seeded t view_number ev =
     (let d = create_proposal_dependency t view_number in if dependency_view t ev = None then d else mark_as_completed ev d)"

record proposal_task =
  pt_view :: u64
  pt_primary :: "HotShotEvent EventDependency list"
  pt_secondary :: "HotShotEvent EventDependency list list"
  pt_formed_upgrade_certificate :: "UpgradeCertificate option"
  pt_highest_qc :: QuorumCertificate2
  pt_seen :: "HotShotEvent received list"

definition create_and_complete_dependencies ::
  "u64 \<Rightarrow> HotShotEvent \<Rightarrow> HotShotEvent EventDependency list \<times> HotShotEvent EventDependency list list" where
  "create_and_complete_dependencies view_number ev =
     ([seeded PayloadAndMetadata view_number ev, seeded VidShare view_number ev],
      [[seeded TimeoutCert view_number ev], [seeded ViewSyncCert view_number ev],
       if 1 < view_number then [seeded Qc view_number ev, seeded ProposalDep view_number ev] else [seeded Qc view_number ev]])"

text \<open>What the dependencies of a task may complete with.\<close>

definition proposal_task_results :: "proposal_task \<Rightarrow> HotShotEvent multiset set" where
  "proposal_task_results t =
     (case and_completed (map (\<lambda>d. completed d (pt_seen t)) (pt_primary t)) of
        None \<Rightarrow> {}
      | Some block \<Rightarrow> (\<lambda>reason. block + reason) ` or_completed (map (\<lambda>ds. and_completed (map (\<lambda>d. completed d (pt_seen t)) ds)) (pt_secondary t)))"

section \<open>Certificates to propose with\<close>

definition received_high_qc :: "HotShotEvent \<Rightarrow> QuorumCertificate2 option" where
  "received_high_qc ev = (case ev of HighQcRecv qc _ \<Rightarrow> Some qc | _ \<Rightarrow> None)"

fun wait_for_qc_event :: "env \<Rightarrow> 'a shared_scheme \<Rightarrow> HotShotEvent received list \<Rightarrow> (QuorumCertificate2 option option, error) result" where
  "wait_for_qc_event E s [] = Ok None"
| "wait_for_qc_event E s (Overflowed n # rs) = Ok (Some None)"
| "wait_for_qc_event E s (Received ev # rs) =
     (case received_high_qc ev of
        Some qc \<Rightarrow>
          (case valid_qc2 E s (qd_epoch (c_data qc)) qc of
             Ok _ \<Rightarrow> Ok (Some (Some qc))
           | Err _ \<Rightarrow> wait_for_qc_event E s rs
           | Panic \<Rightarrow> Panic)
      | None \<Rightarrow> wait_for_qc_event E s rs)"

fun wait_rounds :: "env \<Rightarrow> 'a shared_scheme \<Rightarrow> HotShotEvent received list list \<Rightarrow> QuorumCertificate2 \<Rightarrow> (QuorumCertificate2, error) result" where
  "wait_rounds E s [] highest = Ok highest"
| "wait_rounds E s (rs # rounds) highest =
     and_then (wait_for_qc_event E s rs) (\<lambda>maybe_qc.
     case maybe_qc of
       None \<Rightarrow> Ok highest
     | Some None \<Rightarrow> wait_rounds E s rounds highest
     | Some (Some qc) \<Rightarrow> wait_rounds E s rounds (if c_view_number highest < c_view_number qc then qc else highest))"

definition wait_for_highest_qc :: "env \<Rightarrow> proposal_lib \<Rightarrow> proposal_task \<Rightarrow> 'a shared_scheme \<Rightarrow> (QuorumCertificate2, error) result" where
  "wait_for_highest_qc E L t s =
     (case version (e_versions E) (sh_upgrade_lock s) (pt_view t) of
        Panic \<Rightarrow> Panic
      | Ok v \<Rightarrow> if \<not> version_ge (e_versions E) v (V_Epochs (e_versions E)) then Ok (pt_highest_qc t)
          else wait_rounds E s (pl_qc_rounds L (pt_view t)) (pt_highest_qc t)
      | Err _ \<Rightarrow> wait_rounds E s (pl_qc_rounds L (pt_view t)) (pt_highest_qc t))"

definition same_leaf :: "QuorumCertificate2 \<Rightarrow> NextEpochQuorumCertificate2 \<Rightarrow> bool" where
  "same_leaf qc nqc \<longleftrightarrow> (case c_data nqc of NextEpochQuorumData2 d \<Rightarrow> leaf_commit d) = leaf_commit (c_data qc)"

definition keep_same_leaf :: "QuorumCertificate2 \<Rightarrow> NextEpochQuorumCertificate2 option \<Rightarrow> NextEpochQuorumCertificate2 option" where
  "keep_same_leaf qc maybe_nqc = (case maybe_nqc of Some nqc \<Rightarrow> if same_leaf qc nqc then Some nqc else None | None \<Rightarrow> None)"

definition get_next_epoch_qc :: "env \<Rightarrow> proposal_lib \<Rightarrow> u64 \<Rightarrow> QuorumCertificate2 \<Rightarrow> 'a shared_scheme \<Rightarrow> NextEpochQuorumCertificate2 option" where
  "get_next_epoch_qc E L view qc s =
     (if \<not> epochs_enabled (e_versions E) (sh_upgrade_lock s) view then None
      else case keep_same_leaf qc (next_epoch_high_qc (sh_consensus s)) of
        Some nqc \<Rightarrow> Some nqc
      | None \<Rightarrow>
          (case pl_next_epoch_events L view of
             None \<Rightarrow> None
           | Some rs \<Rightarrow>
               (case await_match (\<lambda>ev. case ev of NextEpochQc2Formed (Inl nqc) \<Rightarrow> same_leaf qc nqc | _ \<Rightarrow> False) rs of
                  Some (NextEpochQc2Formed (Inl nqc)) \<Rightarrow> Some nqc
                | Some _ \<Rightarrow> None
                | None \<Rightarrow> keep_same_leaf qc (pl_next_epoch_late L view))))"

section \<open>Publishing a proposal\<close>

definition proposed_header ::
  "env \<Rightarrow> proposal_lib \<Rightarrow> u64 \<Rightarrow> Version \<Rightarrow> bool \<Rightarrow> CommitmentAndMetadata \<Rightarrow> VidDisperse \<Rightarrow> Leaf2 \<Rightarrow> validated_state \<Rightarrow> (block_header, error) result" where
  "proposed_header E L view v forming_eqc cm share parent_leaf st =
     (if version_ge (e_versions E) v (V_Epochs (e_versions E)) \<and> forming_eqc then Ok (l2_block_header parent_leaf)
      else if \<not> version_ge (e_versions E) v (V_Marketplace (e_versions E)) then
        (case cm_fees cm of
           [] \<Rightarrow> Panic
         | fee # _ \<Rightarrow> opt_context (Error Warn [''Failed to construct legacy block header''])
             (pl_new_legacy L st parent_leaf (cm_commitment cm) (cm_builder_commitment cm) (cm_metadata cm) fee (ad_common (as_advz share)) v))
      else opt_context (Error Warn [''Failed to construct marketplace block header''])
        (pl_new_marketplace L st parent_leaf (cm_commitment cm) (cm_builder_commitment cm) (cm_metadata cm) (cm_fees cm) view
          (ad_common (as_advz share)) (cm_auction_result cm) v))"

definition proposed_upgrade :: "u64 \<Rightarrow> Leaf2 \<Rightarrow> UpgradeCertificate option \<Rightarrow> UpgradeCertificate option \<Rightarrow> UpgradeCertificate option" where
  "proposed_upgrade view parent_leaf formed decided =
     (case (case l2_upgrade_certificate parent_leaf of Some c \<Rightarrow> Some c | None \<Rightarrow> formed) of
        Some c \<Rightarrow> (case is_relevant c view decided of Err _ \<Rightarrow> None | _ \<Rightarrow> Some c)
      | None \<Rightarrow> None)"

definition publish_proposal ::
  "env \<Rightarrow> proposal_lib \<Rightarrow> u64 \<Rightarrow> CommitmentAndMetadata \<Rightarrow> VidDisperse Proposal \<Rightarrow> ViewChangeEvidence2 option \<Rightarrow> UpgradeCertificate option \<Rightarrow>
   QuorumCertificate2 \<Rightarrow> ('a shared_scheme, unit) handler" where
  "publish_proposal E L view cm vid_share evidence formed parent_qc =
     andThen (parent_leaf_and_state E (c_view_number parent_qc)) (\<lambda>(parent_leaf, st).
     andThen (gets (\<lambda>s. proposed_upgrade view parent_leaf formed (decided_upgrade_certificate (sh_upgrade_lock s)))) (\<lambda>upgrade_certificate.
     seq (guard (cm_block_view cm = view) (Error Unspecified [''Cannot propose because our VID payload commitment and metadata is for an older view.'']))
    (andThen (check_state (\<lambda>s. version (e_versions E) (sh_upgrade_lock s) view)) (\<lambda>v.
     andThen (run (\<lambda>s. if version_ge (e_versions E) v (V_Epochs (e_versions E)) then is_qc_forming_eqc parent_qc (sh_consensus s) else Some False)) (\<lambda>forming_eqc.
     andThen (lift (proposed_header E L view v forming_eqc cm (pr_data vid_share) parent_leaf st)) (\<lambda>header.
     andThen (gets (\<lambda>s. option_epoch_from_block_number (version_ge (e_versions E) v (V_Epochs (e_versions E))) (block_number header) (sh_epoch_height s))) (\<lambda>e.
     andThen (check_state (\<lambda>s. leader (sh_membership s) view e)) (\<lambda>l.
     andThen (gets sh_public_key) (\<lambda>me.
     if l \<noteq> me then ret ()
     else
       andThen (gets (\<lambda>s. \<lparr>qw_proposal = \<lparr>q2_block_header = header, q2_view_number = view, q2_epoch = e, q2_justify_qc = parent_qc,
           q2_next_epoch_justify_qc = (if is_leaf_for_last_block (leaf_commit (c_data parent_qc)) (sh_consensus s) then get_next_epoch_qc E L view parent_qc s else None),
           q2_upgrade_certificate = upgrade_certificate,
           q2_view_change_evidence = (case evidence of Some ev \<Rightarrow> if is_valid_for_view2 ev view then Some ev else None | None \<Rightarrow> None),
           q2_next_drb_result = (if is_last_block_in_epoch (block_number header) (sh_epoch_height s)
             then Option.bind e (\<lambda>x. bt_get x (results (drb_seeds_and_results (sh_consensus s)))) else None)\<rparr>\<rparr>)) (\<lambda>proposal.
       let proposed_leaf = from_quorum_proposal proposal in
       seq (guard (l2_parent_commitment proposed_leaf = commit_Leaf2 (e_crypto E) parent_leaf) (Error Unspecified [''Proposed leaf parent does not equal high qc'']))
      (andThen (check_state (\<lambda>s. opt_context (Error ErrorLevel [''Failed to compute proposed_leaf.commit()''])
         (key_sign (e_crypto E) (sh_private_key s) (commit_Leaf2 (e_crypto E) proposed_leaf)))) (\<lambda>signature.
       broadcast_event (QuorumProposalSend \<lparr>pr_data = proposal, pr_signature = signature\<rparr> me)))))))))))))"

section \<open>A completed task\<close>

record proposal_inputs =
  pi_commit_and_metadata :: "CommitmentAndMetadata option"
  pi_timeout_certificate :: "TimeoutCertificate2 option"
  pi_view_sync_finalize_cert :: "ViewSyncFinalizeCertificate2 option"
  pi_vid_share :: "VidDisperse Proposal option"
  pi_parent_qc :: "QuorumCertificate2 option"

definition proposal_inputs_none :: proposal_inputs where
  "proposal_inputs_none = \<lparr>pi_commit_and_metadata = None, pi_timeout_certificate = None, pi_view_sync_finalize_cert = None, pi_vid_share = None, pi_parent_qc = None\<rparr>"

definition collect_proposal_event :: "HotShotEvent \<Rightarrow> proposal_inputs \<Rightarrow> proposal_inputs" where
  "collect_proposal_event ev acc =
     (case ev of
        SendPayloadCommitmentAndMetadata pc bc md view fees auction \<Rightarrow>
          acc\<lparr>pi_commit_and_metadata := Some \<lparr>cm_commitment = pc, cm_builder_commitment = bc, cm_metadata = md, cm_fees = fees, cm_block_view = view,
            cm_auction_result = auction\<rparr>\<rparr>
      | Qc2Formed (Inr tc) \<Rightarrow> acc\<lparr>pi_timeout_certificate := Some tc\<rparr>
      | Qc2Formed (Inl qc) \<Rightarrow> acc\<lparr>pi_parent_qc := Some qc\<rparr>
      | ViewSyncFinalizeCertificateRecv c \<Rightarrow> acc\<lparr>pi_view_sync_finalize_cert := Some c\<rparr>
      | VidDisperseSend p _ \<Rightarrow> acc\<lparr>pi_vid_share := Some p\<rparr>
      | _ \<Rightarrow> acc)"

definition proposal_evidence :: "proposal_inputs \<Rightarrow> ViewChangeEvidence2 option" where
  "proposal_evidence i =
     (case pi_view_sync_finalize_cert i of Some c \<Rightarrow> Some (ViewSync2 c) | None \<Rightarrow> map_option Timeout2 (pi_timeout_certificate i))"

definition handle_proposal_dep_result :: "env \<Rightarrow> proposal_lib \<Rightarrow> proposal_task \<Rightarrow> HotShotEvent list \<Rightarrow> ('a shared_scheme, unit) handler" where
  "handle_proposal_dep_result E L t evs =
     (let i = fold collect_proposal_event evs proposal_inputs_none in
      andThen (gets (\<lambda>s. version (e_versions E) (sh_upgrade_lock s) (pt_view t))) (\<lambda>r.
      or_return r () (\<lambda>v.
      andThen (case pi_parent_qc i of
          Some qc \<Rightarrow> ret qc
        | None \<Rightarrow> if \<not> version_ge (e_versions E) v (V_Epochs (e_versions E)) then gets (\<lambda>s. high_qc (sh_consensus s))
            else check_state (wait_for_highest_qc E L t)) (\<lambda>parent_qc.
      case (pi_commit_and_metadata i, pi_vid_share i) of
        (Some cm, Some vid_share) \<Rightarrow>
          seq (attempt (publish_proposal E L (pt_view t) cm vid_share (proposal_evidence i) (pt_formed_upgrade_certificate t) parent_qc)) (ret ())
      | _ \<Rightarrow> ret ()))))"

section \<open>The task\<close>

record QuorumProposalTaskState = shared +
  qpt_latest_proposed_view :: u64
  qpt_cur_epoch :: "epoch option"
  qpt_proposal_dependencies :: "(u64, proposal_task) btree"
  qpt_formed_upgrade_certificate :: "UpgradeCertificate option"
  qpt_highest_qc :: QuorumCertificate2

definition leads :: "QuorumProposalTaskState \<Rightarrow> u64 \<Rightarrow> epoch option \<Rightarrow> EpochTransitionIndicator \<Rightarrow> (bool, error) result" where
  "leads s view_number e indicator =
     and_then (leader (sh_membership s) view_number e) (\<lambda>l.
     and_then (if e \<noteq> None \<and> indicator = InTransition
         then and_then (leader (sh_membership s) view_number (map_option (\<lambda>x. x + 1) e)) (\<lambda>l'. Ok (l' = sh_public_key s)) else Ok False) (\<lambda>next.
     Ok (l = sh_public_key s \<or> next)))"

definition create_proposal_task_if_new ::
  "u64 \<Rightarrow> epoch option \<Rightarrow> HotShotEvent \<Rightarrow> EpochTransitionIndicator \<Rightarrow> (QuorumProposalTaskState, unit) handler" where
  "create_proposal_task_if_new view_number e ev indicator =
     andThen (check_state (\<lambda>s. leads s view_number e indicator)) (\<lambda>entitled.
     seq (guard entitled (Error Debug [''We are not the leader of the next view'']))
    (seq (check_state (\<lambda>s. ensure (qpt_latest_proposed_view s < view_number) (Error Unspecified [''We have already proposed for this view''])))
    (seq (check_state (\<lambda>s. ensure (\<not> bt_contains view_number (qpt_proposal_dependencies s)) (Error Unspecified [''Task already exists''])))
         (modify (\<lambda>s. case create_and_complete_dependencies view_number ev of (primary, secondary) \<Rightarrow>
            s\<lparr>qpt_proposal_dependencies := bt_insert view_number
              \<lparr>pt_view = view_number, pt_primary = primary, pt_secondary = secondary,
               pt_formed_upgrade_certificate = qpt_formed_upgrade_certificate s, pt_highest_qc = qpt_highest_qc s, pt_seen = []\<rparr>
              (qpt_proposal_dependencies s)\<rparr>)))))"

definition update_latest_proposed_view :: "u64 \<Rightarrow> QuorumProposalTaskState \<Rightarrow> QuorumProposalTaskState \<times> bool" where
  "update_latest_proposed_view new_view s =
     (if qpt_latest_proposed_view s < new_view
      then (s\<lparr>qpt_proposal_dependencies := filter (\<lambda>(v, _). \<not> (qpt_latest_proposed_view s + 1 \<le> v \<and> v \<le> new_view)) (qpt_proposal_dependencies s),
              qpt_latest_proposed_view := new_view\<rparr>, True)
      else (s, False))"

definition qpt_cancel_tasks :: "u64 \<Rightarrow> QuorumProposalTaskState \<Rightarrow> QuorumProposalTaskState" where
  "qpt_cancel_tasks view s = s\<lparr>qpt_proposal_dependencies := bt_split_off view (qpt_proposal_dependencies s)\<rparr>"

definition valid_finalize_cert :: "env \<Rightarrow> 'a shared_scheme \<Rightarrow> ViewSyncFinalizeCertificate2 \<Rightarrow> (unit, error) result" where
  "valid_finalize_cert E s c =
     (let e = epoch_ViewSyncFinalizeData2 (c_data c) in
      with_context (Error Warn [''View Sync Finalize certificate was invalid''])
        (is_valid_cert (e_crypto E) (e_versions E) (commit_ViewSyncFinalizeData2 (finalize (e_crypto E))) (sh_upgrade_lock s)
          (m_stake_table (sh_membership s) e) (m_success_threshold (sh_membership s) e) c))"

definition qpt_qc_formed :: "env \<Rightarrow> QuorumCertificate2 \<Rightarrow> epoch option \<Rightarrow> HotShotEvent \<Rightarrow> EpochTransitionIndicator \<Rightarrow> (QuorumProposalTaskState, unit) handler" where
  "qpt_qc_formed E qc e ev indicator =
     seq (contextual (Error ErrorLevel [''Failed to update high QC in internal consensus state!'']) (try_consensus (update_high_qc qc)))
    (seq (contextual (Error ErrorLevel [''Failed to update high QC in storage!'']) (store E (Update_high_qc qc)))
         (create_proposal_task_if_new (c_view_number qc + 1) e ev indicator))"

definition qpt_next_epoch_qc_formed :: "env \<Rightarrow> NextEpochQuorumCertificate2 \<Rightarrow> (QuorumProposalTaskState, unit) handler" where
  "qpt_next_epoch_qc_formed E nqc =
     seq (check_state (\<lambda>s. ensure (case next_epoch_high_qc (sh_consensus s) of None \<Rightarrow> True | Some cur \<Rightarrow> c_view_number cur < c_view_number nqc)
       (Error Debug [''Received a next epoch QC for a view that was not > than our current next epoch high QC''])))
    (seq (contextual (Error ErrorLevel [''Failed to update next epoch high QC in internal consensus state!'']) (try_consensus (update_next_epoch_high_qc nqc)))
         (contextual (Error ErrorLevel [''Failed to update next epoch high QC in storage!'']) (store E (Update_next_epoch_high_qc nqc))))"

definition qpt_high_qc_send :: "env \<Rightarrow> QuorumCertificate2 \<Rightarrow> (QuorumProposalTaskState, unit) handler" where
  "qpt_high_qc_send E qc =
     seq (check_state (\<lambda>s. ensure (c_view_number (qpt_highest_qc s) < c_view_number qc) (Error Unspecified [''condition failed'']))) 
    (seq (check_state (\<lambda>s. with_context (Error Warn [''Quorum certificate was invalid'']) (valid_qc2 E s (qd_epoch (c_data qc)) qc)))
         (modify (\<lambda>s. s\<lparr>qpt_highest_qc := qc\<rparr>)))"

definition qpt_handle :: "env \<Rightarrow> HotShotEvent \<Rightarrow> (QuorumProposalTaskState, unit) handler" where
  "qpt_handle E ev =
     andThen (gets (\<lambda>s. (qpt_cur_epoch s, if is_high_qc_for_last_block (sh_consensus s) then InTransition else NotInTransition))) (\<lambda>(e, indicator).
     case ev of
       UpgradeCertificateFormed cert \<Rightarrow>
         modify (\<lambda>s. if qpt_latest_proposed_view s + 3 \<le> decide_by (c_data cert) then s\<lparr>qpt_formed_upgrade_certificate := Some cert\<rparr> else s)
     | Qc2Formed (Inr tc) \<Rightarrow> create_proposal_task_if_new (c_view_number tc + 1) e ev indicator
     | Qc2Formed (Inl qc) \<Rightarrow> qpt_qc_formed E qc e ev indicator
     | SendPayloadCommitmentAndMetadata _ _ _ view_number _ _ \<Rightarrow> create_proposal_task_if_new view_number e ev NotInTransition
     | ViewSyncFinalizeCertificateRecv c \<Rightarrow>
         seq (check_state (\<lambda>s. valid_finalize_cert E s c))
             (create_proposal_task_if_new (c_view_number c) (epoch_ViewSyncFinalizeData2 (c_data c)) ev NotInTransition)
     | QuorumProposalPreliminarilyValidated p \<Rightarrow>
         let view_number = q2_view_number (qw_proposal (pr_data p)) in
         seq (modify (\<lambda>s. fst (update_latest_proposed_view view_number s)))
             (create_proposal_task_if_new (view_number + 1) e ev indicator)
     | QuorumProposalSend p _ \<Rightarrow>
         andThen (gets (update_latest_proposed_view (q2_view_number (qw_proposal (pr_data p))))) (\<lambda>(s', updated).
         seq (modify (\<lambda>_. s')) (guard updated (Error Unspecified [''Failed to update latest proposed view''])))
     | VidDisperseSend p _ \<Rightarrow> create_proposal_task_if_new (ad_view_number (as_advz (pr_data p))) e ev NotInTransition
     | ViewChange view epoch \<Rightarrow>
         seq (modify (\<lambda>s. if option_less (qpt_cur_epoch s) epoch then s\<lparr>qpt_cur_epoch := epoch\<rparr> else s))
             (modify (qpt_cancel_tasks (saturating_sub view 1)))
     | TimeoutEvent view _ \<Rightarrow> modify (qpt_cancel_tasks (saturating_sub view 1))
     | HighQcSend qc _ _ \<Rightarrow> qpt_high_qc_send E qc
     | NextEpochQc2Formed (Inl nqc) \<Rightarrow> qpt_next_epoch_qc_formed E nqc
     | _ \<Rightarrow> ret ())"

section \<open>Published proposals\<close>

definition no_proposal :: "effect \<Rightarrow> bool" where
  "no_proposal x \<longleftrightarrow> (\<forall>p k. x \<noteq> Internal (QuorumProposalSend p k))"

lemma parent_leaf_and_state_quiet:
  "wp (parent_leaf_and_state E view) (\<lambda>r s1 out. undisturbed s s1 \<and> (\<forall>x \<in> set out. no_proposal x)) s"
proof (rule wp_conj)
  have "follows undisturbed (fetch_proposal E view :: ('a shared_scheme, _) handler)" unfolding fetch_proposal_def Let_def by (intro follows_intros)
  then have "follows undisturbed (parent_leaf_and_state E view :: ('a shared_scheme, _) handler)" unfolding parent_leaf_and_state_def by (intro follows_intros)
  then show "wp (parent_leaf_and_state E view) (\<lambda>r s1 out. undisturbed s s1) s" by (simp add: follows_def)
  have "emits no_proposal (fetch_proposal E view :: ('a shared_scheme, _) handler)"
    unfolding fetch_proposal_def Let_def by (intro emits_intros) (simp add: no_proposal_def)
  then have "emits no_proposal (parent_leaf_and_state E view :: ('a shared_scheme, _) handler)" unfolding parent_leaf_and_state_def by (intro emits_intros)
  then show "wp (parent_leaf_and_state E view) (\<lambda>r s1 out. \<forall>x \<in> set out. no_proposal x) s" by (rule emits_wp)
qed

text \<open>A proposal by the leader of the view, on top of a certified leaf it has, signed, with the evidence that is for the view.\<close>

definition published_ok ::
  "env \<Rightarrow> 'a shared_scheme \<Rightarrow> u64 \<Rightarrow> QuorumCertificate2 \<Rightarrow> ViewChangeEvidence2 option \<Rightarrow> QuorumProposalWrapper Proposal \<Rightarrow> pubkey \<Rightarrow> bool" where
  "published_ok E s view qc evidence p k \<longleftrightarrow>
     (let q = qw_proposal (pr_data p) in
      k = sh_public_key s \<and> leader (sh_membership s) view (q2_epoch q) = Ok k \<and> q2_view_number q = view \<and> q2_justify_qc q = qc \<and>
      (\<exists>v. version (e_versions E) (sh_upgrade_lock s) view = Ok v \<and>
         q2_epoch q = option_epoch_from_block_number (version_ge (e_versions E) v (V_Epochs (e_versions E))) (block_number (q2_block_header q)) (sh_epoch_height s)) \<and>
      q2_view_change_evidence q = (case evidence of Some ev \<Rightarrow> if is_valid_for_view2 ev view then Some ev else None | None \<Rightarrow> None) \<and>
      (\<exists>parent. commit_Leaf2 (e_crypto E) parent = l2_parent_commitment (from_quorum_proposal (pr_data p))) \<and>
      key_sign (e_crypto E) (sh_private_key s) (commit_Leaf2 (e_crypto E) (from_quorum_proposal (pr_data p))) = Some (pr_signature p))"

lemma publish_proposal_ok:
  "wp (publish_proposal E L view cm vid_share evidence formed qc)
     (\<lambda>r s1 out. \<forall>p k. Internal (QuorumProposalSend p k) \<in> set out \<longrightarrow> published_ok E s view qc evidence p k) s"
  unfolding publish_proposal_def
proof (rule wp_andThenI [OF parent_leaf_and_state_quiet], goal_cases)
  case (1 ps s1 out)
  obtain parent st where ps: "ps = (parent, st)" by fastforce
  have quiet: "Internal (QuorumProposalSend p k) \<notin> set out" for p k using 1 by (auto simp: no_proposal_def)
  have same: "sh_membership s1 = sh_membership s" "sh_upgrade_lock s1 = sh_upgrade_lock s" "sh_public_key s1 = sh_public_key s"
    "sh_private_key s1 = sh_private_key s" "sh_epoch_height s1 = sh_epoch_height s" using 1 by (auto simp: undisturbed_def)
  show ?case unfolding ps case_prod_conv Let_def
    by (intro wp_intros) (auto simp: wp_simps quiet same published_ok_def Let_def opt_context_eq_Ok split: result.splits intro: sym)
qed (auto simp: no_proposal_def)

text \<open>A decided upgrade leads away from this node's base version; votes for an upgrade require it.\<close>

definition upgrades_from_base :: "versions \<Rightarrow> UpgradeLock \<Rightarrow> bool" where
  "upgrades_from_base V lock \<longleftrightarrow> (\<forall>cert. decided_upgrade_certificate lock = Some cert \<longrightarrow> old_version (c_data cert) = V_Base V)"

lemma version_infallible_eq: "version V lock view = Ok v \<Longrightarrow> upgrades_from_base V lock \<Longrightarrow> version_infallible V lock view = v"
  by (auto simp: version_def version_infallible_def upgrades_from_base_def split: option.splits if_splits)

lemma published_validates:
  assumes "published_ok E s view qc evidence p k" and "key_pair (e_crypto E) (sh_public_key s) (sh_private_key s)"
    and "upgrades_from_base (e_versions E) (sh_upgrade_lock s)"
    and n: "sh_membership n = sh_membership s" "sh_upgrade_lock n = sh_upgrade_lock s" "sh_epoch_height n = sh_epoch_height s"
  shows "validate_epoch (e_versions E) (sh_upgrade_lock n) (sh_epoch_height n) (qw_proposal (pr_data p)) = Ok () \<and>
    validate_signature (e_crypto E) (sh_membership n) (sh_epoch_height n) p = Ok ()"
proof -
  let ?q = "qw_proposal (pr_data p)"
  obtain v where v: "version (e_versions E) (sh_upgrade_lock s) view = Ok v"
    "q2_epoch ?q = option_epoch_from_block_number (version_ge (e_versions E) v (V_Epochs (e_versions E))) (block_number (q2_block_header ?q)) (sh_epoch_height s)"
    and q: "q2_view_number ?q = view" "leader (sh_membership s) view (q2_epoch ?q) = Ok k" "k = sh_public_key s"
    "key_sign (e_crypto E) (sh_private_key s) (commit_Leaf2 (e_crypto E) (from_quorum_proposal (pr_data p))) = Some (pr_signature p)"
    using assms(1) by (auto simp: published_ok_def Let_def)
  have "option_epoch_from_block_number (q2_epoch ?q \<noteq> None) (block_number (q2_block_header ?q)) (sh_epoch_height s) = q2_epoch ?q"
    using v(2) by (auto simp: option_epoch_from_block_number_def split: if_splits)
  moreover have "key_validate (e_crypto E) k (pr_signature p) (commit_Leaf2 (e_crypto E) (from_quorum_proposal (pr_data p)))"
    using assms(2) q by (simp add: key_pair_def)
  ultimately show ?thesis using v q n version_infallible_eq [OF v(1) assms(3)]
    by (simp add: validate_epoch_def validate_signature_def epochs_enabled_def Let_def)
qed

section \<open>From events to a proposal\<close>

definition reason_to_propose :: "u64 \<Rightarrow> HotShotEvent \<Rightarrow> bool" where
  "reason_to_propose view ev \<longleftrightarrow> (\<exists>t \<in> {Qc, TimeoutCert, ViewSyncCert}. dependency_view t ev = Some view)"

lemma completed_seeded:
  assumes "completed (seeded t view ev0) rs = Some ev" and "dependency_view t ev0 \<in> {None, Some view}"
  shows "dependency_view t ev = Some view"
  using assms by (auto simp: completed_def seeded_def create_proposal_dependency_def event_dependency_new_def mark_as_completed_def Let_def await_match_eq_Some
      split: if_splits)

lemma proposal_task_reason:
  assumes "(pt_primary t, pt_secondary t) = create_and_complete_dependencies view ev0" and seed: "\<And>d. dependency_view d ev0 \<in> {None, Some view}"
    and "mset evs \<in> proposal_task_results t"
  shows "(\<exists>ev \<in> set evs. reason_to_propose view ev) \<and> (\<forall>ev \<in> set evs. \<exists>d. dependency_view d ev = Some view)"
proof -
  let ?c = "\<lambda>d. completed (seeded d view ev0) (pt_seen t)"
  note step = completed_seeded [OF _ seed]
  obtain b r where evs: "mset evs = b + r" and b: "and_completed [?c PayloadAndMetadata, ?c VidShare] = Some b"
    and r: "and_completed [?c TimeoutCert] = Some r \<or> and_completed [?c ViewSyncCert] = Some r \<or>
      (if 1 < view then and_completed [?c Qc, ?c ProposalDep] else and_completed [?c Qc]) = Some r"
    using assms(1,3)
    by (auto simp: proposal_task_results_def create_and_complete_dependencies_def or_completed_def split: option.splits if_splits)
  have "\<exists>d. dependency_view d x = Some view" if "x \<in># b" for x
  proof -
    have "?c PayloadAndMetadata = Some x \<or> ?c VidShare = Some x" using that and_completed_members [OF b, of x] by auto
    then show ?thesis using step by blast
  qed
  moreover have "(\<forall>x \<in># r. \<exists>d. dependency_view d x = Some view) \<and> (\<exists>x \<in># r. reason_to_propose view x)"
    using r unfolding and_completed_def reason_to_propose_def
    by (auto simp: collect_options_eq_Some split: if_splits option.splits dest!: step)
  moreover have "set evs = set_mset b \<union> set_mset r" using evs by (metis set_mset_mset set_mset_union)
  ultimately show ?thesis by auto
qed

lemma collected_inputs:
  "pi_parent_qc (fold collect_proposal_event evs acc) = Some qc \<Longrightarrow> Qc2Formed (Inl qc) \<in> set evs \<or> pi_parent_qc acc = Some qc"
  "pi_timeout_certificate (fold collect_proposal_event evs acc) = Some tc \<Longrightarrow> Qc2Formed (Inr tc) \<in> set evs \<or> pi_timeout_certificate acc = Some tc"
  "pi_view_sync_finalize_cert (fold collect_proposal_event evs acc) = Some vc \<Longrightarrow>
     ViewSyncFinalizeCertificateRecv vc \<in> set evs \<or> pi_view_sync_finalize_cert acc = Some vc"
  by (induction evs arbitrary: acc; fastforce simp: collect_proposal_event_def split: HotShotEvent.splits sum.splits)+

definition has_reason :: "proposal_inputs \<Rightarrow> bool" where
  "has_reason i \<longleftrightarrow> pi_parent_qc i \<noteq> None \<or> proposal_evidence i \<noteq> None"

lemma collected_reason:
  "has_reason acc \<or> (\<exists>ev \<in> set evs. reason_to_propose view ev) \<Longrightarrow> has_reason (fold collect_proposal_event evs acc)"
proof (induction evs arbitrary: acc)
  case (Cons ev evs)
  have "has_reason acc \<Longrightarrow> has_reason (collect_proposal_event ev acc)"
    by (auto simp: has_reason_def proposal_evidence_def collect_proposal_event_def split: HotShotEvent.splits sum.splits option.splits)
  moreover have "reason_to_propose view ev \<Longrightarrow> has_reason (collect_proposal_event ev acc)"
    by (auto simp: reason_to_propose_def dependency_view_def has_reason_def proposal_evidence_def collect_proposal_event_def
        split: HotShotEvent.splits sum.splits option.splits)
  ultimately show ?case using Cons by auto
qed simp

text \<open>The certificate of the event passes the check of the receiver as evidence for a proposal in the view.\<close>

definition evidence_checks :: "env \<Rightarrow> 'a shared_scheme \<Rightarrow> u64 \<Rightarrow> HotShotEvent \<Rightarrow> bool" where
  "evidence_checks E n view ev \<longleftrightarrow>
     (case ev of
        Qc2Formed (Inr tc) \<Rightarrow> check_evidence E n view (Timeout2 tc) = Ok ()
      | ViewSyncFinalizeCertificateRecv c \<Rightarrow> check_evidence E n view (ViewSync2 c) = Ok ()
      | _ \<Rightarrow> True)"

lemma check_evidence_view: "check_evidence E n view ev = Ok () \<Longrightarrow> is_valid_for_view2 ev view"
  by (cases ev) (auto simp: check_evidence_def and_then_eq_Ok ensure_eq_Ok)

lemma proposal_evidence_checked:
  assumes ok: "\<forall>ev \<in> set evs. evidence_checks E n view ev" and "proposal_evidence (fold collect_proposal_event evs proposal_inputs_none) = Some ev"
  shows "check_evidence E n view ev = Ok ()"
proof -
  consider (vc) vc where "ev = ViewSync2 vc" "pi_view_sync_finalize_cert (fold collect_proposal_event evs proposal_inputs_none) = Some vc"
    | (tc) tc where "ev = Timeout2 tc" "pi_timeout_certificate (fold collect_proposal_event evs proposal_inputs_none) = Some tc"
    using assms(2) by (auto simp: proposal_evidence_def split: option.splits)
  then show ?thesis
  proof cases
    case vc
    then have "ViewSyncFinalizeCertificateRecv vc \<in> set evs" using collected_inputs(3) by (fastforce simp: proposal_inputs_none_def)
    from bspec [OF ok this] vc show ?thesis by (simp add: evidence_checks_def)
  next
    case tc
    then have "Qc2Formed (Inr tc) \<in> set evs" using collected_inputs(2) by (fastforce simp: proposal_inputs_none_def)
    from bspec [OF ok this] tc show ?thesis by (simp add: evidence_checks_def)
  qed
qed

lemma wp_seq_attemptI: "wp h (\<lambda>r s1 out. P out) s \<Longrightarrow> wp (seq (attempt h) (ret ())) (\<lambda>r s1 out. P out) s"
  by (auto simp: wp_def seq_def andThen_def attempt_def ret_def split: option.splits result.splits)

lemma handle_proposal_dep_result_ok:
  assumes "handle_proposal_dep_result E L t evs s = Some (r, s1, out)" and "Internal (QuorumProposalSend p k) \<in> set out"
  shows "\<exists>qc. published_ok E s (pt_view t) qc (proposal_evidence (fold collect_proposal_event evs proposal_inputs_none)) p k \<and>
    (\<forall>qc'. pi_parent_qc (fold collect_proposal_event evs proposal_inputs_none) = Some qc' \<longrightarrow> qc = qc')"
proof -
  define i where "i = fold collect_proposal_event evs proposal_inputs_none"
  define Q where "Q = (\<lambda>(r :: (unit, error) result) (s1 :: 'a shared_scheme) out. \<forall>p k. Internal (QuorumProposalSend p k) \<in> set out \<longrightarrow>
    (\<exists>qc. published_ok E s (pt_view t) qc (proposal_evidence i) p k \<and> (\<forall>qc'. pi_parent_qc i = Some qc' \<longrightarrow> qc = qc')))"
  have none: "Q r s1 []" for r s1 by (simp add: Q_def)
  have publish: "wp (seq (attempt (publish_proposal E L (pt_view t) cm share (proposal_evidence i) formed qc)) (ret ())) Q s"
    if "\<forall>qc'. pi_parent_qc i = Some qc' \<longrightarrow> qc = qc'" for cm share formed qc
    unfolding Q_def
    by (rule wp_seq_attemptI, rule wp_mono [OF publish_proposal_ok [of E L "pt_view t" cm share "proposal_evidence i" formed qc s]]) (use that in blast)
  then have step: "wp (case pi_commit_and_metadata i of None \<Rightarrow> ret () | Some cm \<Rightarrow> (case pi_vid_share i of None \<Rightarrow> ret () | Some vid_share \<Rightarrow>
          seq (attempt (publish_proposal E L (pt_view t) cm vid_share (proposal_evidence i) (pt_formed_upgrade_certificate t) qc)) (ret ()))) Q s" if "\<forall>qc'. pi_parent_qc i = Some qc' \<longrightarrow> qc = qc'" for qc
    using that by (auto simp: wp_simps none split: option.split)
  have "wp (handle_proposal_dep_result E L t evs) Q s"
    unfolding handle_proposal_dep_result_def Let_def i_def [symmetric]
    by (cases "pi_parent_qc i"; cases "version (e_versions E) (sh_upgrade_lock s) (pt_view t)")
      (auto simp: or_return_def none wp_simps step split: result.split)
  then show ?thesis using assms by (simp add: wp_def Q_def i_def)
qed


text \<open>
  Only the first valid certificate that arrives while the leader waits is ever looked at: each round starts from a fresh clone of the
  receiver, so it obtains the same messages again.
\<close>

lemma wait_for_qc_event_append: "wait_for_qc_event E s rs = Ok (Some x) \<Longrightarrow> wait_for_qc_event E s (rs @ rs') = Ok (Some x)"
  by (induction E s rs rule: wait_for_qc_event.induct) (auto split: option.splits result.splits)

lemma highest_qc_is_first:
  assumes "wait_for_qc_event E s rs = Ok (Some (Some qc))" and "\<forall>r \<in> set rounds. \<exists>later. r = rs @ later"
  shows "wait_rounds E s rounds highest = Ok (if rounds \<noteq> [] \<and> c_view_number highest < c_view_number qc then qc else highest)"
  using assms(2)
proof (induction rounds arbitrary: highest)
  case (Cons r rounds)
  then obtain later where "r = rs @ later" by auto
  then have "wait_for_qc_event E s r = Ok (Some (Some qc))" using wait_for_qc_event_append [OF assms(1)] by simp
  then show ?case using Cons by auto
qed simp

section \<open>A proposal for the first view\<close>

definition toy_proposal_lib :: proposal_lib where
  "toy_proposal_lib = \<lparr>pl_new_legacy = (\<lambda>st l pc bc md fee vc v. Some (toy_header 1)), pl_new_marketplace = (\<lambda>st l pc bc md fees view vc ar v. None),
     pl_qc_rounds = (\<lambda>view. []), pl_next_epoch_events = (\<lambda>view. None), pl_next_epoch_late = (\<lambda>view. None)\<rparr>"

definition toy_dispersal :: "VidDisperse Proposal" where
  "toy_dispersal = \<lparr>pr_data = DisperseV0 \<lparr>ad_view_number = 1, ad_epoch = None, ad_target_epoch = None, ad_payload_commitment = [], 
     ad_data_epoch_payload_commitment = None, ad_shares = [], ad_common = 4\<rparr>, pr_signature = 2\<rparr>"

definition toy_fee :: BuilderFee where
  "toy_fee = \<lparr>fee_amount = 0, fee_account = 0, fee_signature = 0\<rparr>"

definition toy_qc_event :: HotShotEvent where
  "toy_qc_event = Qc2Formed (Inl (toy_qc 0 (commit_Leaf2 inj_crypto genesis_leaf)))"

definition toy_block_events :: "HotShotEvent list" where
  "toy_block_events = [SendPayloadCommitmentAndMetadata [] [] [] 1 [toy_fee] None, VidDisperseSend toy_dispersal 2]"

definition toy_proposal_task :: proposal_task where
  "toy_proposal_task = \<lparr>pt_view = 1, pt_primary = fst (create_and_complete_dependencies 1 toy_qc_event),
     pt_secondary = snd (create_and_complete_dependencies 1 toy_qc_event), pt_formed_upgrade_certificate = None,
     pt_highest_qc = toy_qc 0 (commit_Leaf2 inj_crypto genesis_leaf), pt_seen = map Received toy_block_events\<rparr>"

definition toy_proposer :: shared where
  "toy_proposer = (toy_shared (genesis_consensus inj_crypto))\<lparr>sh_public_key := 2, sh_private_key := 2\<rparr>"

lemma toy_task_result: "mset (toy_block_events @ [toy_qc_event]) \<in> proposal_task_results toy_proposal_task"
proof -
  note simps = create_and_complete_dependencies_def seeded_def create_proposal_dependency_def event_dependency_new_def dependency_view_def
    toy_qc_event_def mark_as_completed_def completed_def toy_block_events_def toy_dispersal_def
  have prim: "map (\<lambda>d. completed d (pt_seen toy_proposal_task)) (pt_primary toy_proposal_task) = map Some toy_block_events"
    by (simp add: toy_proposal_task_def simps)
  have sec: "map (\<lambda>d. completed d (pt_seen toy_proposal_task)) [seeded Qc 1 toy_qc_event] = [Some toy_qc_event]" "pt_secondary toy_proposal_task ! 2 = [seeded Qc 1 toy_qc_event]"
    by (simp_all add: toy_proposal_task_def simps)
  have len: "length (pt_secondary toy_proposal_task) = 3" by (simp add: toy_proposal_task_def create_and_complete_dependencies_def)
  have "pt_secondary toy_proposal_task ! 2 \<in> set (pt_secondary toy_proposal_task)" using len by (intro nth_mem) simp
  then have "{#toy_qc_event#} \<in> or_completed (map (\<lambda>ds. and_completed (map (\<lambda>d. completed d (pt_seen toy_proposal_task)) ds)) (pt_secondary toy_proposal_task))"
    unfolding or_completed_def using sec by (auto simp: and_completed_def intro!: rev_image_eqI)
  moreover have "and_completed (map (\<lambda>d. completed d (pt_seen toy_proposal_task)) (pt_primary toy_proposal_task)) = Some (mset toy_block_events)"
    unfolding prim by (simp add: and_completed_def collect_options_eq_Some)
  ultimately show ?thesis by (simp add: proposal_task_results_def)
qed

lemma toy_proposal_published:
  "handle_proposal_dep_result toy_env toy_proposal_lib toy_proposal_task (toy_block_events @ [toy_qc_event]) toy_proposer =
     Some (Ok (), toy_proposer, [Internal (QuorumProposalSend first_proposal 2)])"
proof -
  let ?c = "genesis_consensus inj_crypto"
  have parent: "parent_leaf_and_state toy_env 0 toy_proposer = Some (Ok (genesis_leaf, 0), toy_proposer, [])"
    by (simp add: parent_leaf_and_state_def exec_simps toy_proposer_def toy_shared_def genesis_consensus_def consensus_new_def bt_contains_def bt_get_def)
  have proposer: "sh_consensus toy_proposer = ?c" "sh_membership toy_proposer = toy_membership" "sh_upgrade_lock toy_proposer = UpgradeLock None"
    "sh_public_key toy_proposer = 2" "sh_private_key toy_proposer = 2" "sh_epoch_height toy_proposer = 10" by (simp_all add: toy_proposer_def toy_shared_def)
  have toy_env_simps: "e_crypto toy_env = inj_crypto" "e_versions toy_env = toy_versions" by (simp_all add: toy_env_def)
  have leader: "leader toy_membership 1 None = Ok 2"
    by (simp add: leader_def toy_membership_def static_membership_def static_lookup_leader_def static_new_def nth_leader_def
        positive_entries_def peer_def index_at_def Let_def)
  have inputs: "fold collect_proposal_event (toy_block_events @ [toy_qc_event]) proposal_inputs_none =
      \<lparr>pi_commit_and_metadata = Some \<lparr>cm_commitment = [], cm_builder_commitment = [], cm_metadata = [], cm_fees = [toy_fee], cm_block_view = 1, cm_auction_result = None\<rparr>,
       pi_timeout_certificate = None, pi_view_sync_finalize_cert = None, pi_vid_share = Some toy_dispersal,
       pi_parent_qc = Some (toy_qc 0 (commit_Leaf2 inj_crypto genesis_leaf))\<rparr>"
    by (simp add: toy_block_events_def toy_qc_event_def collect_proposal_event_def proposal_inputs_none_def)
  have version: "version toy_versions (UpgradeLock None) 1 = Ok (Version 0 1)" "version_ge toy_versions (Version 0 1) (V_Epochs toy_versions) = False"
    "version_ge toy_versions (Version 0 1) (V_Marketplace toy_versions) = False"
    by (simp_all add: version_def toy_versions_def word_le_nat_alt)
  have last: "is_leaf_for_last_block (commit_Leaf2 inj_crypto genesis_leaf) ?c = False" "is_last_block_in_epoch 1 10 = False"
    by (simp_all add: is_leaf_for_last_block_def genesis_consensus_def consensus_new_def genesis_leaf_def is_last_block_in_epoch_def)
  have sign: "key_sign inj_crypto 2 msg = Some 2" for msg by (simp add: inj_crypto_def toy_crypto_def)
  have upgrade: "l2_upgrade_certificate genesis_leaf = None" by (simp add: genesis_leaf_def)
  have leaf: "l2_parent_commitment (from_quorum_proposal (pr_data first_proposal)) = commit_Leaf2 inj_crypto genesis_leaf"
    by (simp add: first_proposal_def toy_proposal_def from_quorum_proposal_def)
  have hdr: "proposed_header toy_env toy_proposal_lib 1 (Version 0 1) False \<lparr>cm_commitment = [], cm_builder_commitment = [], cm_metadata = [], cm_fees = [toy_fee],
      cm_block_view = 1, cm_auction_result = None\<rparr> (pr_data toy_dispersal) genesis_leaf 0 = Ok (toy_header 1)"
    using version by (simp add: proposed_header_def toy_env_def toy_proposal_lib_def)
  have prp: "\<lparr>pr_data = \<lparr>qw_proposal = \<lparr>q2_block_header = toy_header 1, q2_view_number = 1, q2_epoch = None,
      q2_justify_qc = toy_qc 0 (commit_Leaf2 inj_crypto genesis_leaf), q2_next_epoch_justify_qc = None, q2_upgrade_certificate = None,
      q2_view_change_evidence = None, q2_next_drb_result = None\<rparr>\<rparr>, pr_signature = 2\<rparr> = first_proposal"
    by (simp add: first_proposal_def toy_proposal_def)
  have publish: "publish_proposal toy_env toy_proposal_lib 1 \<lparr>cm_commitment = [], cm_builder_commitment = [], cm_metadata = [], cm_fees = [toy_fee],
      cm_block_view = 1, cm_auction_result = None\<rparr> toy_dispersal None None (toy_qc 0 (commit_Leaf2 inj_crypto genesis_leaf)) toy_proposer =
      Some (Ok (), toy_proposer, [Internal (QuorumProposalSend first_proposal 2)])"
    using leaf hdr version last
    by (simp add: publish_proposal_def exec_known_value [of "parent_leaf_and_state toy_env 0", OF parent] exec_simps proposer toy_env_simps proposed_upgrade_def leader
        option_epoch_from_block_number_def upgrade prp sign Let_def)
  have task: "pt_view toy_proposal_task = 1" "pt_formed_upgrade_certificate toy_proposal_task = None" by (simp_all add: toy_proposal_task_def)
  show ?thesis
    unfolding handle_proposal_dep_result_def inputs Let_def task
    using publish version by (simp add: proposer toy_env_simps or_return_def attempt_def seq_def andThen_def proposal_evidence_def ret_def gets_def)
qed


end
