(* ===== verification/ConsensusTask.thy ===== *)
theory ConsensusTask
  imports VoteCollection
begin

text \<open>
  The consensus task, \<open>crates/task-impls/src/consensus\<close>: it collects quorum votes and timeout votes, moves the node to new views and
  epochs, and votes for a timeout.  The timer that runs is kept as the event it will send.
\<close>

record ConsensusTaskState = shared +
  ct_vote_collectors :: vote_collectors
  ct_next_epoch_vote_collectors :: vote_collectors
  ct_timeout_vote_collectors :: vote_collectors
  ct_cur_view :: u64
  ct_cur_epoch :: "epoch option"
  ct_timeout_task :: "HotShotEvent option"

definition handle_quorum_vote_recv :: "env \<Rightarrow> QuorumVote2 \<Rightarrow> HotShotEvent \<Rightarrow> (ConsensusTaskState, unit) handler" where
  "handle_quorum_vote_recv E vote ev =
     (let e = qd_epoch (v_data vote) in
      andThen (gets (\<lambda>s. is_high_qc_for_last_block (sh_consensus s))) (\<lambda>in_transition.
      seq (check_state (\<lambda>s. and_then (leader (sh_membership s) (v_view_number vote + 1) e) (\<lambda>l.
        ensure (in_transition \<or> l = sh_public_key s) (Error Info [''We are not the leader and we are not in the epoch transition'']))))
     (let indicator = (if in_transition then InTransition else NotInTransition) in
      seq (zoom ct_vote_collectors (\<lambda>cs s. s\<lparr>ct_vote_collectors := cs\<rparr>) (\<lambda>s. handle_vote E quorum_votes (node_of s) vote e ev indicator))
          (case e of
             None \<Rightarrow> ret ()
           | Some vote_epoch \<Rightarrow>
               andThen (gets (\<lambda>s. m_has_stake (sh_membership s) (signing_key vote) (Some (vote_epoch + 1)))) (\<lambda>has_stake.
               on_cond has_stake
                 (zoom ct_next_epoch_vote_collectors (\<lambda>cs s. s\<lparr>ct_next_epoch_vote_collectors := cs\<rparr>)
                   (\<lambda>s. handle_vote E next_epoch_quorum_votes (node_of s) (next_epoch_vote vote) e ev indicator)))))))"

definition handle_timeout_vote_recv :: "env \<Rightarrow> TimeoutVote2 \<Rightarrow> HotShotEvent \<Rightarrow> (ConsensusTaskState, unit) handler" where
  "handle_timeout_vote_recv E vote ev =
     seq (check_state (\<lambda>s. and_then (leader (sh_membership s) (v_view_number vote + 1) (ct_cur_epoch s)) (\<lambda>l.
       ensure (l = sh_public_key s) (Error Info [''We are not the leader'']))))
         (zoom ct_timeout_vote_collectors (\<lambda>cs s. s\<lparr>ct_timeout_vote_collectors := cs\<rparr>)
           (\<lambda>s. handle_vote E timeout_votes (node_of s) vote (timeout_epoch (v_data vote)) ev NotInTransition))"

definition send_high_qc :: "env \<Rightarrow> u64 \<Rightarrow> (ConsensusTaskState, unit) handler" where
  "send_high_qc E new_view_number =
     andThen (check_state (\<lambda>s. version (e_versions E) (sh_upgrade_lock s) new_view_number)) (\<lambda>v.
     seq (guard (version_ge (e_versions E) v (V_Epochs (e_versions E))) (Error Debug [''HotStuff 2 upgrade not yet in effect'']))
    (andThen (check_state (\<lambda>s. leader (sh_membership s) new_view_number (ct_cur_epoch s))) (\<lambda>l.
     andThen (gets (\<lambda>s. (high_qc (sh_consensus s), sh_public_key s))) (\<lambda>(qc, me).
     broadcast_event (HighQcSend qc l me)))))"

definition handle_view_change :: "env \<Rightarrow> u64 \<Rightarrow> epoch option \<Rightarrow> (ConsensusTaskState, unit) handler" where
  "handle_view_change E new_view_number epoch_number =
     andThen (gets (\<lambda>s. option_less (ct_cur_epoch s) epoch_number)) (\<lambda>newer.
     seq (on_cond newer
       (seq (modify (\<lambda>s. s\<lparr>ct_cur_epoch := epoch_number\<rparr>))
            (case epoch_number of Some new_epoch \<Rightarrow> log_consensus (update_epoch new_epoch) | None \<Rightarrow> ret ())))
    (seq (check_state (\<lambda>s. ensure (ct_cur_view s < new_view_number) (Error Unspecified [''New view is not larger than the current view''])))
    (andThen (gets ct_cur_view) (\<lambda>old_view_number.
     seq (attempt (send_high_qc E new_view_number))
    (seq (modify (\<lambda>s. s\<lparr>ct_cur_view := new_view_number\<rparr>))
    (seq (try_consensus (update_view new_view_number))
    (seq (modify (\<lambda>s. s\<lparr>ct_timeout_task := Some (TimeoutEvent new_view_number epoch_number)\<rparr>))
    (seq (check_state (\<lambda>s. leader (sh_membership s) old_view_number (ct_cur_epoch s)))
         (notify old_view_number (ViewFinished old_view_number))))))))))"

definition handle_timeout :: "env \<Rightarrow> u64 \<Rightarrow> epoch option \<Rightarrow> (ConsensusTaskState, unit) handler" where
  "handle_timeout E view_number e =
     seq (check_state (\<lambda>s. ensure (ct_cur_view s \<le> view_number) (Error Unspecified [''Timeout event is for an old view''])))
    (seq (check_state (\<lambda>s. ensure (m_has_stake (sh_membership s) (sh_public_key s) e) (Error Debug [''We were not chosen for the consensus committee''])))
    (andThen (check_state (\<lambda>s. with_context (Error ErrorLevel [''Failed to sign TimeoutData''])
       (create_signed_vote (finalize (e_crypto E)) (e_versions E) (commit_TimeoutData2 (finalize (e_crypto E))) (key_sign (e_crypto E) (sh_private_key s))
         (TimeoutData2 view_number e) view_number (sh_public_key s) (sh_upgrade_lock s)))) (\<lambda>vote.
     seq (broadcast_event (TimeoutVoteSend vote))
    (seq (notify view_number (ViewTimeout view_number))
    (seq (notify view_number (ReplicaViewTimeout view_number))
    (seq (check_state (\<lambda>s. leader (sh_membership s) view_number (ct_cur_epoch s))) (ret ())))))))"

text \<open>A certificate that ends an epoch moves the node to the next one.\<close>

definition handle_eqc_formed :: "env \<Rightarrow> QuorumCertificate2 \<Rightarrow> (ConsensusTaskState, unit) handler" where
  "handle_eqc_formed E qc =
     (let cert_view = c_view_number qc in
      andThen (gets (\<lambda>s. epochs_enabled (e_versions E) (sh_upgrade_lock s) cert_view)) (\<lambda>epochs.
      if \<not> epochs then ret ()
      else
        andThen (run (\<lambda>s. is_leaf_extended (leaf_commit (c_data qc)) (sh_consensus s))) (\<lambda>extended.
        if \<not> extended then ret ()
        else
          andThen (check_state (\<lambda>s. opt_context (Error ErrorLevel [''Could not find the leaf for the eQC. It shouldn't happen.''])
            (saved_leaves (sh_consensus s) (leaf_commit (c_data qc))))) (\<lambda>leaf.
          andThen (gets (\<lambda>s. option_epoch_from_block_number True (l2_height leaf) (sh_epoch_height s))) (\<lambda>cert_epoch.
          broadcast_event (ViewChange (cert_view + 1) (map_option (\<lambda>x. x + 1) cert_epoch)))))))"

definition ct_handle :: "env \<Rightarrow> HotShotEvent \<Rightarrow> (ConsensusTaskState, unit) handler" where
  "ct_handle E ev =
     (case ev of
        QuorumVoteRecv vote \<Rightarrow> seq (attempt (handle_quorum_vote_recv E vote ev)) (ret ())
      | TimeoutVoteRecv vote \<Rightarrow> seq (attempt (handle_timeout_vote_recv E vote ev)) (ret ())
      | ViewChange new_view_number epoch_number \<Rightarrow> seq (attempt (handle_view_change E new_view_number epoch_number)) (ret ())
      | TimeoutEvent view_number e \<Rightarrow> seq (attempt (handle_timeout E view_number e)) (ret ())
      | Qc2Formed (Inl qc) \<Rightarrow> handle_eqc_formed E qc
      | _ \<Rightarrow> ret ())"

section \<open>What the task sends\<close>

definition ct_may_send :: "env \<Rightarrow> ConsensusTaskState \<Rightarrow> HotShotEvent \<Rightarrow> effect \<Rightarrow> bool" where
  "ct_may_send E s ev x \<longleftrightarrow>
     (case x of
        Internal (TimeoutVoteSend vote) \<Rightarrow>
          (\<exists>view e. ev = TimeoutEvent view e \<and> ct_cur_view s \<le> view \<and> m_has_stake (sh_membership s) (sh_public_key s) e \<and>
             create_signed_vote (finalize (e_crypto E)) (e_versions E) (commit_TimeoutData2 (finalize (e_crypto E))) (key_sign (e_crypto E) (sh_private_key s))
               (TimeoutData2 view e) view (sh_public_key s) (sh_upgrade_lock s) = Ok vote)
      | Internal (HighQcSend qc l me) \<Rightarrow>
          (\<exists>view e. ev = ViewChange view e \<and> ct_cur_view s < view \<and> qc = high_qc (sh_consensus s) \<and> me = sh_public_key s \<and>
             leader (sh_membership s) view (if option_less (ct_cur_epoch s) e then e else ct_cur_epoch s) = Ok l)
      | Internal (ViewChange view e) \<Rightarrow>
          (\<exists>qc leaf. ev = Qc2Formed (Inl qc) \<and> view = c_view_number qc + 1 \<and> saved_leaves (sh_consensus s) (leaf_commit (c_data qc)) = Some leaf \<and>
             is_leaf_extended (leaf_commit (c_data qc)) (sh_consensus s) = Some True \<and>
             e = map_option (\<lambda>x. x + 1) (option_epoch_from_block_number True (l2_height leaf) (sh_epoch_height s)))
      | Internal _ \<Rightarrow>
          (\<exists>vote. ev = QuorumVoteRecv vote \<and>
             (announces_valid E quorum_votes (node_of s) (v_view_number vote) ev x \<or>
              announces_valid E next_epoch_quorum_votes (node_of s) (v_view_number vote) ev x)) \<or>
          (\<exists>vote. ev = TimeoutVoteRecv vote \<and> announces_valid E timeout_votes (node_of s) (v_view_number vote) ev x)
      | External (Event view et) \<Rightarrow>
          (et = ViewFinished view \<and> view = ct_cur_view s \<and> (\<exists>v e. ev = ViewChange v e)) \<or>
          (et \<in> {ViewTimeout view, ReplicaViewTimeout view} \<and> (\<exists>e. ev = TimeoutEvent view e))
      | _ \<Rightarrow> False)"

definition ct_ok :: "env \<Rightarrow> ConsensusTaskState \<Rightarrow> bool" where
  "ct_ok E s \<longleftrightarrow> collecting_ok E quorum_votes (node_of s) \<and>
     (let tbl = cert_stake_table (QuorumCert SuccessThreshold) (sh_membership s) None in
      collectors_ok (e_crypto E) tbl (ct_vote_collectors s) \<and> collectors_ok (e_crypto E) tbl (ct_next_epoch_vote_collectors s) \<and>
      collectors_ok (e_crypto E) tbl (ct_timeout_vote_collectors s))"

lemma kinds [simp]: "av_kind quorum_votes = QuorumCert SuccessThreshold" "av_kind next_epoch_quorum_votes = QuorumCert SuccessThreshold"
  "av_kind timeout_votes = QuorumCert SuccessThreshold"
  by (simp_all add: quorum_votes_def next_epoch_quorum_votes_def timeout_votes_def)

lemma node_of_simps [simp]:
  "cn_membership (node_of s) = sh_membership s" "node_of (s\<lparr>ct_vote_collectors := cs\<rparr>) = node_of s" "node_of (s\<lparr>ct_next_epoch_vote_collectors := cs\<rparr>) = node_of s"
  "node_of (s\<lparr>ct_timeout_vote_collectors := cs\<rparr>) = node_of s"
  by (simp_all add: node_of_def)

lemma ct_collects:
  assumes "ct_ok E s"
  shows "wp (handle_vote E quorum_votes (node_of s) v e ev i) (\<lambda>r cs out. ct_ok E (s\<lparr>ct_vote_collectors := cs\<rparr>) \<and>
      (\<forall>x \<in> set out. announces_valid E quorum_votes (node_of s) (v_view_number v) ev x)) (ct_vote_collectors s)"
    and "wp (handle_vote E next_epoch_quorum_votes (node_of s) nv e ev i) (\<lambda>r cs out. ct_ok E (s\<lparr>ct_next_epoch_vote_collectors := cs\<rparr>) \<and>
      (\<forall>x \<in> set out. announces_valid E next_epoch_quorum_votes (node_of s) (v_view_number nv) ev x)) (ct_next_epoch_vote_collectors s)"
    and "wp (handle_vote E timeout_votes (node_of s) tv e ev i) (\<lambda>r cs out. ct_ok E (s\<lparr>ct_timeout_vote_collectors := cs\<rparr>) \<and>
      (\<forall>x \<in> set out. announces_valid E timeout_votes (node_of s) (v_view_number tv) ev x)) (ct_timeout_vote_collectors s)"
proof -
  have ok: "collecting_ok E quorum_votes (node_of s)" "collecting_ok E next_epoch_quorum_votes (node_of s)" "collecting_ok E timeout_votes (node_of s)"
    using assms by (simp_all add: ct_ok_def collecting_ok_def)
  show "wp (handle_vote E quorum_votes (node_of s) v e ev i) (\<lambda>r cs out. ct_ok E (s\<lparr>ct_vote_collectors := cs\<rparr>) \<and>
      (\<forall>x \<in> set out. announces_valid E quorum_votes (node_of s) (v_view_number v) ev x)) (ct_vote_collectors s)"
    by (rule wp_mono [OF handle_vote_valid [OF ok(1)]]) (use assms in \<open>auto simp: ct_ok_def Let_def\<close>)
  show "wp (handle_vote E next_epoch_quorum_votes (node_of s) nv e ev i) (\<lambda>r cs out. ct_ok E (s\<lparr>ct_next_epoch_vote_collectors := cs\<rparr>) \<and>
      (\<forall>x \<in> set out. announces_valid E next_epoch_quorum_votes (node_of s) (v_view_number nv) ev x)) (ct_next_epoch_vote_collectors s)"
    by (rule wp_mono [OF handle_vote_valid [OF ok(2)]]) (use assms in \<open>auto simp: ct_ok_def Let_def\<close>)
  show "wp (handle_vote E timeout_votes (node_of s) tv e ev i) (\<lambda>r cs out. ct_ok E (s\<lparr>ct_timeout_vote_collectors := cs\<rparr>) \<and>
      (\<forall>x \<in> set out. announces_valid E timeout_votes (node_of s) (v_view_number tv) ev x)) (ct_timeout_vote_collectors s)"
    by (rule wp_mono [OF handle_vote_valid [OF ok(3)]]) (use assms in \<open>auto simp: ct_ok_def Let_def\<close>)
qed

lemma announced_may_send:
  "announces_valid E quorum_votes (node_of s) (v_view_number v) (QuorumVoteRecv v) x \<Longrightarrow> ct_may_send E s (QuorumVoteRecv v) x"
  "announces_valid E next_epoch_quorum_votes (node_of s) (v_view_number v) (QuorumVoteRecv v) x \<Longrightarrow> ct_may_send E s (QuorumVoteRecv v) x"
  "announces_valid E timeout_votes (node_of s) (v_view_number tv) (TimeoutVoteRecv tv) x \<Longrightarrow> ct_may_send E s (TimeoutVoteRecv tv) x"
  by (auto simp: announces_valid_def ct_may_send_def quorum_votes_def next_epoch_quorum_votes_def timeout_votes_def)

lemma handle_quorum_vote_recv_sends:
  assumes "ct_ok E s"
  shows "wp (handle_quorum_vote_recv E v (QuorumVoteRecv v)) (\<lambda>r s1 out. ct_ok E s1 \<and> (\<forall>x \<in> set out. ct_may_send E s (QuorumVoteRecv v) x)) s"
proof -
  define i where "i = (if is_high_qc_for_last_block (sh_consensus s) then InTransition else NotInTransition)"
  define P where "P = (\<lambda>(r :: (unit, error) result) (s1 :: ConsensusTaskState) (out :: effect list). node_of s1 = node_of s \<and> ct_ok E s1 \<and>
    (\<forall>x \<in> set out. ct_may_send E s (QuorumVoteRecv v) x))"
  have first: "wp (zoom ct_vote_collectors (\<lambda>cs s. s\<lparr>ct_vote_collectors := cs\<rparr>)
      (\<lambda>s. handle_vote E quorum_votes (node_of s) v (qd_epoch (v_data v)) (QuorumVoteRecv v) i)) P s"
    unfolding wp_zoom P_def by (rule wp_mono [OF ct_collects(1) [OF assms]]) (auto simp: announced_may_send)
  have second: "wp (handle_vote E next_epoch_quorum_votes (node_of s) (next_epoch_vote v) e (QuorumVoteRecv v) i)
      (\<lambda>r cs out. ct_ok E (s1\<lparr>ct_next_epoch_vote_collectors := cs\<rparr>) \<and> (\<forall>x \<in> set out. ct_may_send E s (QuorumVoteRecv v) x)) (ct_next_epoch_vote_collectors s1)"
    if s1: "node_of s1 = node_of s" "ct_ok E s1" for s1 e
  proof -
    have "v_view_number (next_epoch_vote v) = v_view_number v" by (simp add: next_epoch_vote_def vote_with_def)
    then show ?thesis
      using wp_mono [OF ct_collects(2) [OF s1(2), of "next_epoch_vote v" e "QuorumVoteRecv v" i]] announced_may_send(2) [of E s v] unfolding s1(1) by simp
  qed
  show ?thesis
    unfolding handle_quorum_vote_recv_def Let_def
  proof (intro wp_intros, goal_cases)
    case (1 u)
    show ?case unfolding i_def [symmetric]
      by (rule wp_seqI [OF first])
        (auto simp: P_def wp_simps on_cond_def intro!: wp_mono [OF second] split: option.split)
  qed (use assms in auto)
qed

lemma handle_timeout_vote_recv_sends:
  assumes "ct_ok E s"
  shows "wp (handle_timeout_vote_recv E v (TimeoutVoteRecv v)) (\<lambda>r s1 out. ct_ok E s1 \<and> (\<forall>x \<in> set out. ct_may_send E s (TimeoutVoteRecv v) x)) s"
  unfolding handle_timeout_vote_recv_def
  by (intro wp_intros, unfold wp_zoom, rule wp_mono [OF ct_collects(3) [OF assms]]) (use assms in \<open>auto simp: announced_may_send\<close>)

lemma send_high_qc_sends:
  "wp (send_high_qc E view) (\<lambda>r s1 out. s1 = s \<and> (\<forall>x \<in> set out. \<exists>l. x = Internal (HighQcSend (high_qc (sh_consensus s)) l (sh_public_key s)) \<and>
     leader (sh_membership s) view (ct_cur_epoch s) = Ok l)) s"
  unfolding send_high_qc_def by (intro wp_intros) (auto simp: wp_simps)

text \<open>The state after the node has moved to the epoch.\<close>

definition moved_epoch :: "epoch option \<Rightarrow> ConsensusTaskState \<Rightarrow> ConsensusTaskState \<Rightarrow> bool" where
  "moved_epoch e s s1 \<longleftrightarrow> node_of s1 = node_of s \<and> high_qc (sh_consensus s1) = high_qc (sh_consensus s) \<and> ct_cur_view s1 = ct_cur_view s \<and>
     ct_cur_epoch s1 = (if option_less (ct_cur_epoch s) e then e else ct_cur_epoch s) \<and>
     ct_vote_collectors s1 = ct_vote_collectors s \<and> ct_next_epoch_vote_collectors s1 = ct_next_epoch_vote_collectors s \<and>
     ct_timeout_vote_collectors s1 = ct_timeout_vote_collectors s"

lemma settle_update_epoch: "high_qc (settle (update_epoch e) c) = high_qc c"
  by (auto simp: settle_def update_epoch_def and_then_eq_Ok split: result.splits)

lemma move_epoch:
  "wp (on_cond (option_less (ct_cur_epoch s) e)
       (seq (modify (\<lambda>s. s\<lparr>ct_cur_epoch := e\<rparr>)) (case e of Some new_epoch \<Rightarrow> log_consensus (update_epoch new_epoch) | None \<Rightarrow> ret ())))
     (\<lambda>r s1 out. out = [] \<and> moved_epoch e s s1 \<and> (\<forall>x. r \<noteq> Err x)) s"
  by (auto simp: wp_simps moved_epoch_def node_of_def settle_update_epoch split: option.split)

lemma moved_epoch_ok: "moved_epoch e s s1 \<Longrightarrow> ct_ok E s \<Longrightarrow> ct_ok E s1"
  by (simp add: moved_epoch_def ct_ok_def node_of_def)

lemma announce_view:
  assumes "ct_ok E s"
  shows "wp (seq (modify (\<lambda>s. s\<lparr>ct_cur_view := view\<rparr>))
    (seq (try_consensus (update_view view))
    (seq (modify (\<lambda>s. s\<lparr>ct_timeout_task := Some (TimeoutEvent view e)\<rparr>))
    (seq (check_state (\<lambda>s. leader (sh_membership s) old (ct_cur_epoch s)))
         (notify old (ViewFinished old)))))) (\<lambda>r s1 out. ct_ok E s1 \<and> set out \<subseteq> {External (Event old (ViewFinished old))}) s"
  by (intro wp_intros) (use assms in \<open>auto simp: wp_simps ct_ok_def node_of_def split: result.splits\<close>)

lemma wp_check_seqI:
  assumes "\<And>x. c s = Ok x \<Longrightarrow> wp k Q s" "\<And>e. c s = Err e \<Longrightarrow> Q (Err e) s []" "c s = Panic \<Longrightarrow> Q Panic s []"
  shows "wp (seq (check_state c) k) Q s"
  using assms by (auto simp: wp_simps split: result.split)

lemma handle_view_change_sends:
  assumes "ct_ok E s"
  shows "wp (handle_view_change E view e) (\<lambda>r s1 out. ct_ok E s1 \<and> (\<forall>x \<in> set out. ct_may_send E s (ViewChange view e) x)) s"
  unfolding handle_view_change_def
proof (intro wp_andThen_getsI, rule wp_seqI [OF move_epoch], goal_cases)
  case (1 u s1 out)
  then have out: "out = []" and moved: "moved_epoch e s s1" and ok: "ct_ok E s1" using assms moved_epoch_ok by auto
  then have node: "sh_public_key s1 = sh_public_key s" "sh_membership s1 = sh_membership s" "ct_cur_view s1 = ct_cur_view s"
    by (auto simp: moved_epoch_def node_of_def)
  have epoch: "ct_cur_epoch s1 = (if option_less (ct_cur_epoch s) e then e else ct_cur_epoch s)" "high_qc (sh_consensus s1) = high_qc (sh_consensus s)"
    using moved by (simp_all add: moved_epoch_def)
  show ?case
  proof (rule wp_check_seqI, goal_cases)
    case (1 x)
    then have later: "ct_cur_view s < view" by (simp add: ensure_eq_Ok node)
    have sent: "ct_may_send E s (ViewChange view e) (Internal (HighQcSend (high_qc (sh_consensus s1)) l (sh_public_key s1)))"
      if "leader (sh_membership s1) view (ct_cur_epoch s1) = Ok l" for l
      using that later unfolding node epoch by (simp add: ct_may_send_def)
    have finished: "ct_may_send E s (ViewChange view e) (External (Event (ct_cur_view s1) (ViewFinished (ct_cur_view s1))))"
      by (simp add: ct_may_send_def node)
    show ?case
    proof (intro wp_andThen_getsI, rule wp_seqI [OF wp_attempt [THEN iffD2, OF send_high_qc_sends]], goal_cases)
      case (1 y s2 out2)
      then show ?case
        by (intro wp_mono [OF announce_view]) (use ok out sent finished in auto)
    qed (use ok out sent in auto)
  qed (use ok out in auto)
qed (use assms moved_epoch_ok in auto)

lemma handle_timeout_sends:
  assumes "ct_ok E s"
  shows "wp (handle_timeout E view e) (\<lambda>r s1 out. ct_ok E s1 \<and> (\<forall>x \<in> set out. ct_may_send E s (TimeoutEvent view e) x)) s"
  unfolding handle_timeout_def
  by (intro wp_intros) (use assms in \<open>auto simp: wp_simps ct_may_send_def ensure_eq_Ok with_context_eq_Ok\<close>)

lemma handle_eqc_formed_sends:
  assumes "ct_ok E s"
  shows "wp (handle_eqc_formed E qc) (\<lambda>r s1 out. ct_ok E s1 \<and> (\<forall>x \<in> set out. ct_may_send E s (Qc2Formed (Inl qc)) x)) s"
  unfolding handle_eqc_formed_def Let_def
  by (intro wp_intros) (use assms in \<open>auto simp: wp_simps ct_may_send_def opt_context_eq_Ok split: result.splits option.splits\<close>)

section \<open>The view of the task\<close>

definition at_view :: "u64 \<Rightarrow> ConsensusTaskState \<Rightarrow> bool" where
  "at_view v s \<longleftrightarrow> ct_cur_view s = v"

lemma follows_at_view:
  "follows (keeps (at_view v)) (zoom ct_vote_collectors (\<lambda>cs s. s\<lparr>ct_vote_collectors := cs\<rparr>) h)"
  "follows (keeps (at_view v)) (zoom ct_next_epoch_vote_collectors (\<lambda>cs s. s\<lparr>ct_next_epoch_vote_collectors := cs\<rparr>) h)"
  "follows (keeps (at_view v)) (zoom ct_timeout_vote_collectors (\<lambda>cs s. s\<lparr>ct_timeout_vote_collectors := cs\<rparr>) h)"
  by (rule kp.follows_zoom, simp add: keeps_def at_view_def)+

lemma quiet_handlers_at_view:
  "follows (keeps (at_view v)) (handle_quorum_vote_recv E vote ev)" "follows (keeps (at_view v)) (handle_timeout_vote_recv E tv ev)"
  "follows (keeps (at_view v)) (handle_timeout E view e)" "follows (keeps (at_view v)) (handle_eqc_formed E qc)"
  unfolding handle_quorum_vote_recv_def handle_timeout_vote_recv_def handle_timeout_def handle_eqc_formed_def Let_def
  by (intro follows_intros follows_at_view)+

text \<open>The view after an event.\<close>

definition view_after :: "HotShotEvent \<Rightarrow> u64 \<Rightarrow> u64" where
  "view_after ev v = (case ev of ViewChange view e \<Rightarrow> max v view | _ \<Rightarrow> v)"

lemma handle_view_change_view: "wp (handle_view_change E view e) (\<lambda>r s1 out. r \<noteq> Panic \<longrightarrow> ct_cur_view s1 = max (ct_cur_view s) view) s"
  unfolding handle_view_change_def
proof (intro wp_andThen_getsI, rule wp_seqI [OF move_epoch], goal_cases)
  case (1 u s1 out)
  then have same: "ct_cur_view s1 = ct_cur_view s" by (simp add: moved_epoch_def)
  have tried: "wp (attempt (send_high_qc E view)) (\<lambda>r s2 out. s2 = s1 \<and> (\<forall>e. r \<noteq> Err e)) s1"
    unfolding wp_attempt by (rule wp_mono [OF send_high_qc_sends]) (auto split: result.split)
  show ?case
  proof (rule wp_check_seqI, goal_cases)
    case (1 x)
    then have max: "max (ct_cur_view s) view = view" by (simp add: ensure_eq_Ok same)
    show ?case unfolding max
      by (intro wp_andThen_getsI wp_seqI [OF tried]) (auto simp: wp_simps split: result.splits)
  qed (auto simp: ensure_def same max_def split: if_splits)
qed auto

lemma ct_handle_sends:
  assumes "ct_ok E s"
  shows "wp (ct_handle E ev) (\<lambda>r s1 out. ct_ok E s1 \<and> (\<forall>x \<in> set out. ct_may_send E s ev x)) s"
proof -
  note ok = assms
  have attempt: "wp (seq (attempt h) (ret ())) Q s" if "wp h Q s" "\<And>r r' s1 out. Q r s1 out \<Longrightarrow> Q r' s1 out" for h :: "(ConsensusTaskState, unit) handler" and Q
    by (intro wp_seqI [OF wp_attempt [THEN iffD2]] wp_mono [OF that(1)]) (auto simp: wp_simps intro: that(2))
  show ?thesis
    unfolding ct_handle_def
    using attempt [OF handle_quorum_vote_recv_sends [OF ok]] attempt [OF handle_timeout_vote_recv_sends [OF ok]] attempt [OF handle_view_change_sends [OF ok]]
      attempt [OF handle_timeout_sends [OF ok]] handle_eqc_formed_sends [OF ok] ok
    by (cases ev) (auto simp: wp_simps split: sum.split)
qed

lemma ct_handle_view: "wp (ct_handle E ev) (\<lambda>r s1 out. r \<noteq> Panic \<longrightarrow> ct_cur_view s1 = view_after ev (ct_cur_view s)) s"
proof (cases "\<exists>view e. ev = ViewChange view e")
  case True
  then obtain view e where ev: "ev = ViewChange view e" by blast
  show ?thesis unfolding ev ct_handle_def view_after_def
    by (simp add: wp_simps) (rule wp_mono [OF handle_view_change_view], auto simp: wp_simps split: result.split)
next
  case False
  then have "follows (keeps (at_view (ct_cur_view s))) (ct_handle E ev)"
    unfolding ct_handle_def by (cases ev) (auto intro!: follows_intros quiet_handlers_at_view split: sum.split)
  moreover have "view_after ev (ct_cur_view s) = ct_cur_view s" using False by (cases ev) (auto simp: view_after_def)
  ultimately show ?thesis by (auto simp: follows_def keeps_def at_view_def elim!: wp_mono)
qed

text \<open>
  C11. The consensus task of a node with a static committee: it announces a certificate only when the votes received
  complete a valid one, sends its high certificate to the leader of a view only when it enters it, votes for the timeout of a view only
  when the view is not behind its own and it has stake, and starts an epoch only when a certificate ends the previous one; its view
  is moved by view changes alone, and never back.
\<close>

theorem consensus_task_sends:
  assumes "ct_ok E s"
  shows "wp (ct_handle E ev) (\<lambda>r s1 out. ct_ok E s1 \<and> (\<forall>x \<in> set out. ct_may_send E s ev x) \<and>
    (r \<noteq> Panic \<longrightarrow> ct_cur_view s1 = view_after ev (ct_cur_view s))) s"
  by (rule wp_mono [OF wp_conj [OF ct_handle_sends [OF assms] ct_handle_view]]) simp

definition toy_consensus_task :: ConsensusTaskState where
  "toy_consensus_task = \<lparr>sh_consensus = genesis_consensus inj_crypto, sh_membership = toy_membership, sh_upgrade_lock = UpgradeLock None, sh_storage = [],
     sh_public_key = 1, sh_private_key = 1, sh_epoch_height = 10, ct_vote_collectors = [], ct_next_epoch_vote_collectors = [],
     ct_timeout_vote_collectors = [], ct_cur_view = 3, ct_cur_epoch = None, ct_timeout_task = None\<rparr>"

lemma toy_consensus_task_ok: "ct_ok toy_env toy_consensus_task"
proof -
  have "node_of toy_consensus_task = toy_collecting" by (simp add: node_of_def toy_consensus_task_def toy_collecting_def)
  then show ?thesis using toy_collecting_ok [of quorum_votes] by (simp add: ct_ok_def toy_consensus_task_def collectors_ok_def)
qed

text \<open>A timeout of the current view: the node votes.\<close>

theorem consensus_task_sends_witness:
  "\<exists>r s1 vote out. ct_handle toy_env (TimeoutEvent 3 None) toy_consensus_task = Some (r, s1, out) \<and> r \<noteq> Panic \<and>
     Internal (TimeoutVoteSend vote) \<in> set out \<and> ct_may_send toy_env toy_consensus_task (TimeoutEvent 3 None) (Internal (TimeoutVoteSend vote)) \<and>
     ct_ok toy_env s1 \<and> ct_cur_view s1 = 3"
proof -
  have stake: "m_has_stake toy_membership 1 None"
    by (simp add: toy_membership_def static_membership_def static_new_def positive_entries_def peer_def index_entries_def bt_get_def has_positive_def)
  have leader: "leader toy_membership 3 None = Ok 4"
    by (simp add: leader_def toy_membership_def static_membership_def static_lookup_leader_def static_new_def nth_leader_def
        positive_entries_def peer_def index_at_def Let_def)
  have "version toy_versions (UpgradeLock None) 3 = Ok (Version 0 1)" by (simp add: version_def toy_versions_def)
  then obtain vote where vote: "create_signed_vote (finalize (e_crypto toy_env)) (e_versions toy_env) (commit_TimeoutData2 (finalize (e_crypto toy_env)))
      (key_sign (e_crypto toy_env) 1) (TimeoutData2 3 None) 3 1 (UpgradeLock None) = Ok vote"
    by (simp add: create_signed_vote_def versioned_new_def toy_env_def inj_crypto_def toy_crypto_def)
  have node: "sh_membership toy_consensus_task = toy_membership" "sh_public_key toy_consensus_task = 1" "sh_private_key toy_consensus_task = 1"
      "sh_upgrade_lock toy_consensus_task = UpgradeLock None" "ct_cur_view toy_consensus_task = 3" "ct_cur_epoch toy_consensus_task = None"
    by (simp_all add: toy_consensus_task_def)
  have "handle_timeout toy_env 3 None toy_consensus_task =
      Some (Ok (), toy_consensus_task, [Internal (TimeoutVoteSend vote), External (Event 3 (ViewTimeout 3)), External (Event 3 (ReplicaViewTimeout 3))])"
    unfolding handle_timeout_def by (simp add: exec_simps node stake leader vote del: One_nat_def)
  then have run: "ct_handle toy_env (TimeoutEvent 3 None) toy_consensus_task =
      Some (Ok (), toy_consensus_task, [Internal (TimeoutVoteSend vote), External (Event 3 (ViewTimeout 3)), External (Event 3 (ReplicaViewTimeout 3))])"
    by (simp add: ct_handle_def seq_def andThen_def attempt_def ret_def lift_def)
  from consensus_task_sends [OF toy_consensus_task_ok, of "TimeoutEvent 3 None", THEN wpD, OF run] run show ?thesis
    by (auto simp: view_after_def toy_consensus_task_def)
qed

end
