(* ===== verification/Spec2Isabelle.thy ===== *)
theory Spec2Isabelle
  imports Epochs MerkleTable ViewSync VoteRuns Network Availability Upgrades Proposals ConsensusTask
begin

text \<open>
  \<^bold>\<open>A verification of HotShot.\<close>  HotShot is a Byzantine fault tolerant consensus protocol; the repository holds a node of it as
  Rust crates.  A node is a set of tasks that share one consensus state and talk through a broadcast channel of events.  A leader
  proposes a block on top of a certified leaf; every node validates the proposal, and votes for it once the block's data is known
  to be available; the votes are collected to the certificate the next leader builds on.  Two or three certified leaves in a row
  decide the oldest of them.  Views that fail end with timeouts, and nodes that drift apart meet again through view
  synchronisation.  Upgrades of the protocol are proposed, certified and decided like blocks.

  \<^bold>\<open>How the program is modelled.\<close>  Every function of the source is a function here, with its name where that is free.

  \<^item> Structures are records, enumerations datatypes, 64-bit integers \<open>64 word\<close> with their wrap-around, 256-bit integers natural
    numbers with the bound written out, \<open>BTreeMap\<close> an ordered association list (\<open>BTree\<close>), \<open>HashMap\<close> a partial function.
  \<^item> \<open>Result\<close> is the datatype \<open>result\<close> of \<open>Prelude\<close>, with a third value \<open>Panic\<close> for every place where the code aborts: failed
    \<open>unwrap\<close>, indexing, division by zero, checked arithmetic.  The errors of \<open>anytrace\<close> keep level and fixed texts (\<open>Anytrace\<close>).
  \<^item> An \<open>async fn\<close> of a task is a \<open>handler\<close> (\<open>Handlers\<close>): it maps the state of the task to a result, the new state and the list of
    effects in order: events on the internal channel, events for the application and spawned transmissions.  The outer option is \<open>None\<close>
    where a walk over leaves does not end.  Every state of a task extends the record \<open>shared\<close>: the consensus state, membership, upgrade
    lock, storage, keys.
  \<^item> Third-party and application code is a parameter: signatures, hashing and aggregation (\<open>crypto\<close>), the erasure code
    (\<open>vid_scheme\<close>), the wire format (\<open>wire\<close>), block payloads (\<open>payload_ops\<close>), headers (\<open>proposal_lib\<close>), the outcome of storage operations and
    of requests to peers (\<open>env\<close>).  What a theorem needs of them is a named predicate in its hypotheses, such as \<open>binding\<close> (a
    collision-free hash), \<open>agg_complete\<close> and \<open>agg_sound\<close> (aggregate signatures verify exactly for the signers), \<open>key_pair\<close>; the witness of
    the theorem instantiates it.
  \<^item> Log messages, metrics and the text of formatted errors are left out.  Locks are atomic sections: a handler runs without
    interruption, and the runs of \<open>VoteRuns\<close>, \<open>ViewSync\<close> and \<open>Network\<close> interleave handlers, spawned tasks and the changes other tasks make
    to the shared state.

  \<^bold>\<open>Data and arithmetic.\<close>

  \<^item> \<open>Prelude\<close>: results, options, 64-bit and 256-bit arithmetic, and the locales \<open>step_invariant\<close> and \<open>step_monotone\<close> for runs of operations.
  \<^item> \<open>Epochs\<close> (\<open>types/src/utils.rs\<close>): blocks to epochs; the epochs partition the block numbers.
  \<^item> \<open>Votes\<close>, \<open>Versions\<close>, \<open>Certificates\<close>, \<open>Accumulator\<close> (\<open>simple_vote.rs\<close>, \<open>simple_certificate.rs\<close>, \<open>vote.rs\<close>, \<open>qc.rs\<close> and \<open>message.rs\<close> of \<open>types/src\<close>): data of every
    kind of vote with its commitment, conversions between the formats, versioned serialization, assembling and checking
    certificates, the accumulator.  A valid certificate has a quorum of stake behind it; the accumulator returns valid certificates
    only, and returns one once the votes suffice.
  \<^item> \<open>Committees\<close> (\<open>types/src/traits/election.rs\<close>, \<open>hotshot/src/traits/election\<close>): the membership interface as a record of operations, and four
    committees; the locale \<open>committee\<close> is interpreted on three of them.  Quorums intersect in an honest node; leadership rotates.
  \<^item> \<open>StakeTable\<close>, \<open>VecTable\<close>, \<open>MerkleTable\<close> (\<open>types/src/traits/stake_table.rs\<close>, \<open>hotshot-stake-table\<close>): the interface as the locale
    \<open>stake_table_scheme\<close>, interpreted on both implementations; invariants of all reachable tables, isolation of snapshots,
    correctness and soundness of membership proofs, weighted sampling.
  \<^item> \<open>VidData\<close>, \<open>LeafData\<close> (\<open>types/src/data.rs\<close>, \<open>types/src/data/vid_disperse.rs\<close>): dispersal of payloads, proposals and leaves of both formats;
    commitments bind, and the formats agree.
  \<^item> \<open>Messages\<close> (\<open>types/src/message.rs\<close>, \<open>types/src/event.rs\<close>, \<open>task-impls/src/events.rs\<close>): network messages and events.

  \<^bold>\<open>The shared consensus state.\<close>

  \<^item> \<open>ConsensusState\<close>, \<open>ConsensusInv\<close> (\<open>types/src/consensus.rs\<close>): the record \<open>Consensus\<close> with all its operations, collected in the datatype
    \<open>cons_op\<close> as an abstract machine.  Every run of operations keeps \<open>cons_inv\<close>, only moves forward, grants an action once per view.
  \<^item> \<open>Ancestors\<close>: the walk over ancestors ends, and is a fold over the chain of leaves.
  \<^item> \<open>Decide\<close> (\<open>task-impls/src/helpers.rs\<close>): both decide rules decide exactly the chains of the protocol.

  \<^bold>\<open>The tasks\<close> (\<open>task-impls/src\<close>).

  \<^item> \<open>Handlers\<close>: the handlers, their weakest preconditions (\<open>wp\<close>), what they send (\<open>emits\<close>), and relations between the states before and after
    (\<open>follows\<close>, over the locale \<open>state_preorder\<close>); \<open>consensus_refines\<close> says that a handler changes the shared state by operations only.
  \<^item> \<open>Validation\<close> (\<open>helpers.rs\<close>, \<open>quorum_proposal_recv\<close>): a proposal announced as validated satisfies the voting rule.
  \<^item> \<open>Dependencies\<close> (crate \<open>task\<close>), \<open>QuorumVote\<close>, \<open>VoteRuns\<close> (\<open>quorum_vote\<close>): a vote is backed by a validated proposal, a DA certificate and the
    node's share; decided views increase.
  \<^item> \<open>Proposals\<close> (\<open>quorum_proposal\<close>): what a leader publishes passes the checks of its peers.
  \<^item> \<open>VoteCollection\<close> (\<open>vote_collection.rs\<close>), \<open>ConsensusTask\<close> (\<open>consensus\<close>), \<open>ViewSync\<close> (\<open>view_sync.rs\<close>), \<open>Availability\<close> (\<open>da.rs\<close>, \<open>vid.rs\<close>), \<open>Upgrades\<close>
    (\<open>upgrade.rs\<close>): what each task may send, and when.
  \<^item> \<open>Network\<close> (\<open>network.rs\<close>): events survive the way over the network; votes and proposals leave the node once per view, after they were
    recorded.

  \<^bold>\<open>Termination.\<close>  No fuel is used.  The walks \<open>visit_loop\<close> and \<open>decide_loop\<close> follow parent pointers that a corrupt state could make cyclic, so
  they are partial functions; \<open>visit_leaf_ancestors_terminates\<close> and \<open>decide_loop_ends\<close> show that they return when parents are older than
  their children.  The loops of the Merkle table end by the size of the tree.  Loops that wait for messages run over the list of
  what arrives before the time is up.

  \<^bold>\<open>Not modelled.\<close>

  \<^item> The networks below the serialized message (\<open>libp2p-networking\<close>, push CDN, memory and combined networks), the orchestrator, the block
    builders and their clients, examples, test harness and macros: services, transports and programs around the node.
  \<^item> Building blocks from transactions (\<open>transactions.rs\<close>, \<open>builder.rs\<close>) is a dialogue with HTTP builders under timeouts; the block arrives in the
    model as \<open>BlockRecv\<close>.  The tasks that request and serve VID shares and proposals (\<open>request.rs\<close>, \<open>response.rs\<close>) are timers around
    the network; a fetched proposal enters the model in \<open>fetch_proposal\<close>.
  \<^item> The start of a node (\<open>hotshot/src\<close>), which reads configurations and spawns the tasks, and the registries that join them at
    shutdown.
  \<^item> The example application of \<open>example-types\<close>, the light client's state and the metrics interface.
\<close>

end
